(* ===== verification/Prelude.thy ===== *)
theory Prelude
  imports Complex_Main "HOL-Library.Word" "HOL-Library.Multiset"
begin

text \<open>
  Shared vocabulary of the development: the Go types that every component uses, the Go error
  values of the engine with \<open>errors.Is\<close> and \<open>Error()\<close>, and the generic facts about lists
  (row order, lookups by key, counting) that the component proofs share.

  Go strings and byte slices are byte sequences and are modelled by \<open>string\<close> (a \<open>char\<close> is a
  byte). A slice that may be \<open>nil\<close> is a \<open>bytes option\<close> with \<open>None\<close> for \<open>nil\<close>. Instants
  (\<open>time.Time\<close>, TIMESTAMPTZ) and durations are counted in nanoseconds, instants from the Unix
  epoch. \<open>int32\<close> values are \<open>32 word\<close> and are read signed with \<open>sint\<close>; the \<open>int64\<close> row and
  event identifiers, which only ever count rows, are \<open>int\<close>; the one \<open>int64\<close> on which the code
  does arithmetic that can overflow (\<open>DurationMs\<close>) is a \<open>64 word\<close>.
\<close>

type_synonym bytes = string
type_synonym time = int
type_synonym i32 = "32 word"
type_synonym i64 = "64 word"

text \<open>Evaluation of the effectful operations.\<close>

named_theorems eval_simps "evaluation of effectful operations"

section \<open>Go errors\<close>

text \<open>
  The error values the engine distinguishes: the sentinels of \<open>persistence\<close> and \<open>history\<close>, an
  error of the database driver (with the driver's own text), and \<open>fmt.Errorf("...: %w", err)\<close>.
\<close>

datatype go_error =
    ErrNotFound
  | ErrWorkflowAlreadyRunning
  | ErrWorkflowNotRunning
  | ErrDriver string
  | Errorf string go_error

primrec errors_Is :: "go_error \<Rightarrow> go_error \<Rightarrow> bool" where
  "errors_Is ErrNotFound t = (t = ErrNotFound)"
| "errors_Is ErrWorkflowAlreadyRunning t = (t = ErrWorkflowAlreadyRunning)"
| "errors_Is ErrWorkflowNotRunning t = (t = ErrWorkflowNotRunning)"
| "errors_Is (ErrDriver m) t = (t = ErrDriver m)"
| "errors_Is (Errorf m e) t = (t = Errorf m e \<or> errors_Is e t)"

primrec error_Error :: "go_error \<Rightarrow> string" where
  "error_Error ErrNotFound = ''not found''"
| "error_Error ErrWorkflowAlreadyRunning = ''workflow already running''"
| "error_Error ErrWorkflowNotRunning = ''workflow not running''"
| "error_Error (ErrDriver m) = m"
| "error_Error (Errorf m e) = m @ '': '' @ error_Error e"

text \<open>The error at the end of a chain of \<open>%w\<close>; it decides every \<open>errors.Is\<close> on a sentinel.\<close>

primrec root_error :: "go_error \<Rightarrow> go_error" where
  "root_error ErrNotFound = ErrNotFound"
| "root_error ErrWorkflowAlreadyRunning = ErrWorkflowAlreadyRunning"
| "root_error ErrWorkflowNotRunning = ErrWorkflowNotRunning"
| "root_error (ErrDriver m) = ErrDriver m"
| "root_error (Errorf m e) = root_error e"

lemma errors_Is_root [simp]:
  "errors_Is e ErrNotFound \<longleftrightarrow> root_error e = ErrNotFound"
  "errors_Is e ErrWorkflowAlreadyRunning \<longleftrightarrow> root_error e = ErrWorkflowAlreadyRunning"
  "errors_Is e ErrWorkflowNotRunning \<longleftrightarrow> root_error e = ErrWorkflowNotRunning"
  by (induction e) auto

section \<open>Lists\<close>

text \<open>
  The order in which a database returns rows that no \<open>ORDER BY\<close> fixes: any permutation of the
  rows, given by a rank of the row positions.
\<close>

definition heap_order :: "(nat \<Rightarrow> nat) \<Rightarrow> 'a list \<Rightarrow> 'a list" where
  "heap_order r xs = map snd (sort_key (\<lambda>p. r (fst p)) (enumerate 0 xs))"

lemma mset_heap_order [simp]: "mset (heap_order r xs) = mset xs"
proof -
  have "mset (heap_order r xs) = mset (map snd (enumerate 0 xs))"
    unfolding heap_order_def by (simp only: mset_map mset_sort)
  then show ?thesis by simp
qed

lemma set_heap_order [simp]: "set (heap_order r xs) = set xs"
  by (metis mset_heap_order set_mset_mset)

lemma length_heap_order [simp]: "length (heap_order r xs) = length xs"
  by (metis mset_heap_order size_mset)

lemma heap_order_Nil [simp]: "heap_order r [] = []"
  by (simp add: heap_order_def)

lemma heap_order_eq_Nil [simp]: "heap_order r xs = [] \<longleftrightarrow> xs = []"
  by (metis length_0_conv length_heap_order)

lemma heap_order_single [simp]: "heap_order r [x] = [x]"
  by (simp add: heap_order_def)

lemma distinct_map_heap_order [simp]:
  "distinct (map f (heap_order r xs)) \<longleftrightarrow> distinct (map f xs)"
  by (metis mset_heap_order mset_map mset_eq_imp_distinct_iff)

text \<open>Rows that are already sorted by a strict key come back in that order.\<close>

lemma sort_key_heap_order:
  assumes "sorted_wrt (\<lambda>x y. f x < (f y :: 'k::linorder)) xs"
  shows "sort_key f (heap_order r xs) = xs"
proof (rule sort_key_inj_key_eq)
  show "mset (heap_order r xs) = mset xs" by simp
  from assms have "distinct (map f xs)"
    by (induction xs) force+
  then have "inj_on f (set xs)" by (simp add: distinct_map)
  then show "inj_on f (set (heap_order r xs))" by simp
  from assms show "sorted (map f xs)"
    by (induction xs) (simp_all add: less_imp_le)
qed

lemma filter_append_single:
  "filter P (xs @ [x]) = (if P x then filter P xs @ [x] else filter P xs)"
  by simp

lemma List_find_append:
  "List.find P (xs @ ys) = (case List.find P xs of None \<Rightarrow> List.find P ys | Some x \<Rightarrow> Some x)"
  by (induction xs) auto

lemma List_find_Some_iff:
  "List.find P xs = Some x \<Longrightarrow> x \<in> set xs \<and> P x"
  by (induction xs) (auto split: if_splits)

lemma List_find_None [simp]: "List.find P xs = None \<longleftrightarrow> (\<forall>x \<in> set xs. \<not> P x)"
  by (induction xs) auto

lemma distinct_map_eqD:
  "distinct (map f xs) \<Longrightarrow> x \<in> set xs \<Longrightarrow> y \<in> set xs \<Longrightarrow> f x = f y \<Longrightarrow> x = y"
  by (auto simp: distinct_map dest: inj_onD)

lemma upto_append_upto: "[1..int m] @ [int m + 1..int m + int n] = [1..int m + int n]"
  using upto_split2 [of 1 "int m" "int m + int n"] by (cases "m = 0") simp_all

lemma find_unique_key:
  assumes "x \<in> set xs" and "distinct (map f xs)"
  shows "List.find (\<lambda>y. f y = f x) xs = Some x"
  using assms by (induction xs) (auto simp: image_iff)

end
