(* ===== verification/Model.thy ===== *)
theory Model
  imports Prelude
begin

text \<open>
  The data of the engine: the rows of the four tables (\<open>internal/persistence/types.go\<close>) and the
  commands a worker sends (\<open>internal/history/types.go\<close>). A Go composite literal that leaves fields
  out is an update of the record's zero value, so that every field the code does not mention has
  the value the code gives it.
\<close>

record WorkflowExecution =
  we_WorkflowID :: string
  we_RunID :: string
  we_WorkflowType :: string
  we_TaskQueue :: string
  we_Status :: string
  we_StartedAt :: time
  we_ClosedAt :: "time option"

record Event =
  ev_ID :: int
  ev_WorkflowID :: string
  ev_RunID :: string
  ev_EventID :: int
  ev_EventType :: string
  ev_SignalName :: string
  ev_ActivityName :: string
  ev_ActivityIndex :: i32
  ev_TimerIndex :: i32
  ev_Data :: "bytes option"
  ev_CreatedAt :: time

record Task =
  t_ID :: int
  t_TaskQueue :: string
  t_TaskType :: string
  t_WorkflowType :: string
  t_WorkflowID :: string
  t_RunID :: string
  t_ScheduledEventID :: int
  t_Input :: "bytes option"
  t_ActivityName :: string
  t_ActivityIndex :: i32
  t_Attempt :: i32
  t_MaxAttempts :: i32
  t_VisibilityTime :: time
  t_LeaseOwner :: "string option"
  t_LeaseExpiresAt :: "time option"

record Timer =
  tm_ID :: int
  tm_WorkflowID :: string
  tm_RunID :: string
  tm_TimerIndex :: i32
  tm_FireAt :: time
  tm_Fired :: bool

record Command =
  c_Type :: string
  c_ActivityName :: string
  c_TaskQueue :: string
  c_Input :: "bytes option"
  c_ActivityIndex :: i32
  c_TimerIndex :: i32
  c_DurationMs :: i64

text \<open>The zero \<open>time.Time\<close>, 1 January of year 1, and the zero values of the structs.\<close>

definition zero_time :: time where
  "zero_time = - 62135596800 * 10 ^ 9"

definition zero_WorkflowExecution :: WorkflowExecution where
  "zero_WorkflowExecution = \<lparr>we_WorkflowID = [], we_RunID = [], we_WorkflowType = [],
     we_TaskQueue = [], we_Status = [], we_StartedAt = zero_time, we_ClosedAt = None\<rparr>"

definition zero_Event :: Event where
  "zero_Event = \<lparr>ev_ID = 0, ev_WorkflowID = [], ev_RunID = [], ev_EventID = 0, ev_EventType = [],
     ev_SignalName = [], ev_ActivityName = [], ev_ActivityIndex = 0, ev_TimerIndex = 0,
     ev_Data = None, ev_CreatedAt = zero_time\<rparr>"

definition zero_Task :: Task where
  "zero_Task = \<lparr>t_ID = 0, t_TaskQueue = [], t_TaskType = [], t_WorkflowType = [],
     t_WorkflowID = [], t_RunID = [], t_ScheduledEventID = 0, t_Input = None, t_ActivityName = [],
     t_ActivityIndex = 0, t_Attempt = 0, t_MaxAttempts = 0, t_VisibilityTime = zero_time,
     t_LeaseOwner = None, t_LeaseExpiresAt = None\<rparr>"

definition zero_Timer :: Timer where
  "zero_Timer = \<lparr>tm_ID = 0, tm_WorkflowID = [], tm_RunID = [], tm_TimerIndex = 0,
     tm_FireAt = zero_time, tm_Fired = False\<rparr>"

definition zero_Command :: Command where
  "zero_Command = \<lparr>c_Type = [], c_ActivityName = [], c_TaskQueue = [], c_Input = None,
     c_ActivityIndex = 0, c_TimerIndex = 0, c_DurationMs = 0\<rparr>"

lemmas zero_defs = zero_WorkflowExecution_def zero_Event_def zero_Task_def zero_Timer_def
  zero_Command_def

end
