(* ===== verification/Metrics.thy ===== *)
theory Metrics
  imports Prelude
begin

text \<open>
  The engine's domain counters (\<open>internal/metrics/metrics.go\<close>). A labelled counter
  (\<open>CounterVec\<close>) is a function of its label values, 0 for a series nobody has touched. Counter
  values are natural numbers: the code only ever adds 1 or the length of a list, and the
  \<open>float64\<close> behind a counter is exact up to \<open>2 ^ 53\<close>.
\<close>

record metrics =
  WorkflowsStarted :: nat
  WorkflowsTerminated :: "string \<Rightarrow> nat"
  ActivitiesScheduled :: nat
  ActivitiesFinished :: "string \<Rightarrow> nat"
  ActivityRetries :: nat
  TimersStarted :: nat
  TimersFired :: nat
  SignalsDelivered :: nat
  LeasesReclaimed :: nat
  TaskPolls :: "string \<times> string \<Rightarrow> nat"

definition zero_metrics :: metrics where
  "zero_metrics = \<lparr>WorkflowsStarted = 0, WorkflowsTerminated = (\<lambda>_. 0), ActivitiesScheduled = 0,
     ActivitiesFinished = (\<lambda>_. 0), ActivityRetries = 0, TimersStarted = 0, TimersFired = 0,
     SignalsDelivered = 0, LeasesReclaimed = 0, TaskPolls = (\<lambda>_. 0)\<rparr>"

text \<open>
  The collectors \<open>New\<close> registers, in its order: the full name (namespace, underscore, name) and
  the label names. A registry is the list of full names registered on it; registering a name a
  second time panics, which is \<open>None\<close>.
\<close>

definition namespace :: string where
  "namespace = ''myengine''"

definition collectors :: "(string \<times> string list) list" where
  "collectors =
    [(namespace @ ''_'' @ ''workflows_started_total'', []),
     (namespace @ ''_'' @ ''workflows_terminated_total'', [''outcome'']),
     (namespace @ ''_'' @ ''activities_scheduled_total'', []),
     (namespace @ ''_'' @ ''activities_finished_total'', [''outcome'']),
     (namespace @ ''_'' @ ''activity_retries_total'', []),
     (namespace @ ''_'' @ ''timers_started_total'', []),
     (namespace @ ''_'' @ ''timers_fired_total'', []),
     (namespace @ ''_'' @ ''signals_delivered_total'', []),
     (namespace @ ''_'' @ ''leases_reclaimed_total'', []),
     (namespace @ ''_'' @ ''task_polls_total'', [''task_type'', ''result''])]"

type_synonym registry = "string list"

fun register_all :: "(string \<times> string list) list \<Rightarrow> registry \<Rightarrow> registry option" where
  "register_all [] reg = Some reg"
| "register_all ((n, ls) # cs) reg =
     (if n \<in> set reg then None else register_all cs (reg @ [n]))"

definition Metrics_New :: "registry \<Rightarrow> (metrics \<times> registry) option" where
  "Metrics_New reg = map_option (\<lambda>reg'. (zero_metrics, reg')) (register_all collectors reg)"

lemma register_all_Some:
  "register_all cs reg = Some reg' \<longleftrightarrow>
     distinct (map fst cs) \<and> set (map fst cs) \<inter> set reg = {} \<and> reg' = reg @ map fst cs"
  by (induction cs reg rule: register_all.induct) auto

lemma distinct_collectors: "distinct (map fst collectors)"
  by (simp add: collectors_def namespace_def)

end
