(* ===== verification/Store.thy ===== *)
theory Store
  imports Model Metrics
begin

text \<open>
  The state the engine works on and the effects its code has on it: the four tables, the SQL
  writes, one database transaction with its pending writes, and the Go code as functions of an
  environment and a session that return an error or a value.

  A statement on the pool (\<open>p.db\<close>) sees the committed tables; a statement of a transaction sees
  the committed tables with the transaction's own writes on top (READ COMMITTED). The writes of a
  transaction become visible to others at its commit and not before. Sequences (BIGSERIAL) are
  not transactional: a value once drawn is never given back.
\<close>

section \<open>Tables and writes\<close>

record tables =
  executions :: "WorkflowExecution list"
  events :: "Event list"
  tasks :: "Task list"
  timers :: "Timer list"

record store =
  tabs :: tables
  event_seq :: int
  task_seq :: int
  timer_seq :: int

definition init_store :: store where
  "init_store = \<lparr>tabs = \<lparr>executions = [], events = [], tasks = [], timers = []\<rparr>,
     event_seq = 0, task_seq = 0, timer_seq = 0\<rparr>"

text \<open>The effects of the INSERT, UPDATE and DELETE statements of \<open>persistence.go\<close> on the tables.\<close>

datatype sql_write =
    InsertExecutionRow WorkflowExecution
  | SetStatus string string string time
  | InsertEventRow Event
  | InsertTaskRow Task
  | SetLease int string time
  | DeleteTask int
  | InsertTimerRow Timer
  | SetFired int
  | ReclaimLeases time

definition is_execution :: "string \<Rightarrow> string \<Rightarrow> WorkflowExecution \<Rightarrow> bool" where
  "is_execution wid rid x \<longleftrightarrow> we_WorkflowID x = wid \<and> we_RunID x = rid"

definition is_event_of :: "string \<Rightarrow> string \<Rightarrow> Event \<Rightarrow> bool" where
  "is_event_of wid rid e \<longleftrightarrow> ev_WorkflowID e = wid \<and> ev_RunID e = rid"

definition set_status :: "string \<Rightarrow> time \<Rightarrow> WorkflowExecution \<Rightarrow> WorkflowExecution" where
  "set_status st now x = x\<lparr>we_Status := st,
     we_ClosedAt := (if st \<in> {''Completed'', ''Failed'', ''Canceled''} then Some now
                     else we_ClosedAt x)\<rparr>"

definition expired :: "time \<Rightarrow> Task \<Rightarrow> bool" where
  "expired now t \<longleftrightarrow> t_LeaseOwner t \<noteq> None \<and> (case t_LeaseExpiresAt t of None \<Rightarrow> False | Some x \<Rightarrow> x < now)"

definition release_lease :: "Task \<Rightarrow> Task" where
  "release_lease t = t\<lparr>t_LeaseOwner := None, t_LeaseExpiresAt := None\<rparr>"

fun apply_write :: "sql_write \<Rightarrow> tables \<Rightarrow> tables" where
  "apply_write (InsertExecutionRow x) T = T\<lparr>executions := executions T @ [x]\<rparr>"
| "apply_write (SetStatus wid rid st now) T = T\<lparr>executions :=
     map (\<lambda>x. if is_execution wid rid x then set_status st now x else x) (executions T)\<rparr>"
| "apply_write (InsertEventRow e) T = T\<lparr>events := events T @ [e]\<rparr>"
| "apply_write (InsertTaskRow t) T = T\<lparr>tasks := tasks T @ [t]\<rparr>"
| "apply_write (SetLease i owner expires) T = T\<lparr>tasks :=
     map (\<lambda>t. if t_ID t = i then t\<lparr>t_LeaseOwner := Some owner, t_LeaseExpiresAt := Some expires\<rparr>
              else t) (tasks T)\<rparr>"
| "apply_write (DeleteTask i) T = T\<lparr>tasks := filter (\<lambda>t. t_ID t \<noteq> i) (tasks T)\<rparr>"
| "apply_write (InsertTimerRow t) T = T\<lparr>timers := timers T @ [t]\<rparr>"
| "apply_write (SetFired i) T = T\<lparr>timers :=
     map (\<lambda>t. if tm_ID t = i \<and> \<not> tm_Fired t then t\<lparr>tm_Fired := True\<rparr> else t) (timers T)\<rparr>"
| "apply_write (ReclaimLeases now) T = T\<lparr>tasks :=
     map (\<lambda>t. if expired now t then release_lease t else t) (tasks T)\<rparr>"

definition apply_log :: "sql_write list \<Rightarrow> tables \<Rightarrow> tables" where
  "apply_log ws T = fold apply_write ws T"

lemma apply_log_simps [simp]:
  "apply_log [] T = T"
  "apply_log (w # ws) T = apply_log ws (apply_write w T)"
  "apply_log (ws @ vs) T = apply_log vs (apply_log ws T)"
  by (simp_all add: apply_log_def)

section \<open>Environment and session\<close>

text \<open>
  What the engine does not control is an argument: whether a database call fails (and whether a
  failed COMMIT was applied before the connection broke, and at which stage of reading rows a
  query fails), what other transactions committed
  since the last call, the two clocks, the random numbers, the rows other transactions hold
  locked, the order of rows that no ORDER BY fixes, how the UUID column type reads a text (\<open>None\<close>:
  not a UUID) and how the driver stores an instant. Streams are indexed by the number of
  database calls made before.
\<close>

datatype fault = NoFault | Fault | LostReply

datatype row_stage = AtQuery | AtScan | AtIterate

record env =
  e_fault :: "nat \<Rightarrow> fault"
  e_driver_text :: "nat \<Rightarrow> string"
  e_row_stage :: "nat \<Rightarrow> row_stage"
  e_interfere :: "nat \<Rightarrow> store \<Rightarrow> store"
  e_db_now :: "nat \<Rightarrow> time"
  e_go_now :: "nat \<Rightarrow> time"
  e_new_uuid :: "nat \<Rightarrow> string"
  e_rand :: "nat \<Rightarrow> rat"
  e_row_rank :: "nat \<Rightarrow> nat \<Rightarrow> nat"
  e_row_locked :: "nat \<Rightarrow> int \<Rightarrow> bool"
  e_uuid :: "string \<Rightarrow> string option"
  e_store_time :: "time \<Rightarrow> time"

record tx =
  tx_now :: time
  tx_log :: "sql_write list"

record sess =
  s_store :: store
  s_metrics :: metrics
  s_tick :: nat
  s_txn :: "tx option"

type_synonym 'a M = "env \<Rightarrow> sess \<Rightarrow> (go_error + 'a) \<times> sess"

section \<open>Go control flow\<close>

text \<open>
  \<open>bindM m k\<close> is \<open>x, err := m(); if err != nil { return err }; k(x)\<close>; \<open>wrapM t m\<close> returns
  \<open>fmt.Errorf("t: %w", err)\<close> for an error of \<open>m\<close>; \<open>tryM m\<close> hands the error to the code that
  inspects it.
\<close>

definition returnM :: "'a \<Rightarrow> 'a M" where
  "returnM x = (\<lambda>E s. (Inr x, s))"

definition raiseM :: "go_error \<Rightarrow> 'a M" where
  "raiseM e = (\<lambda>E s. (Inl e, s))"

definition bindM :: "'a M \<Rightarrow> ('a \<Rightarrow> 'b M) \<Rightarrow> 'b M" where
  "bindM m k = (\<lambda>E s. case m E s of (Inl e, s') \<Rightarrow> (Inl e, s') | (Inr x, s') \<Rightarrow> k x E s')"

definition wrapM :: "string \<Rightarrow> 'a M \<Rightarrow> 'a M" where
  "wrapM t m = (\<lambda>E s. case m E s of (Inl e, s') \<Rightarrow> (Inl (Errorf t e), s') | (Inr x, s') \<Rightarrow> (Inr x, s'))"

text \<open>A query of several rows can fail when it is sent, when a row is scanned, or between rows.\<close>

definition wrap_rows :: "string \<Rightarrow> string \<Rightarrow> string \<Rightarrow> 'a M \<Rightarrow> 'a M" where
  "wrap_rows query scan iterate m = (\<lambda>E s. case m E s of
       (Inl e, s') \<Rightarrow> (Inl (Errorf (case e_row_stage E (s_tick s) of
          AtQuery \<Rightarrow> query | AtScan \<Rightarrow> scan | AtIterate \<Rightarrow> iterate) e), s')
     | (Inr x, s') \<Rightarrow> (Inr x, s'))"

definition tryM :: "'a M \<Rightarrow> (go_error + 'a) M" where
  "tryM m = (\<lambda>E s. case m E s of (r, s') \<Rightarrow> (Inr r, s'))"

definition metricM :: "(metrics \<Rightarrow> metrics) \<Rightarrow> unit M" where
  "metricM f = (\<lambda>E s. (Inr (), s\<lparr>s_metrics := f (s_metrics s)\<rparr>))"

text \<open>\<open>time.Now()\<close>, \<open>uuid.New().String()\<close> and \<open>rand.Float64()\<close>.\<close>

definition time_Now :: "time M" where
  "time_Now = (\<lambda>E s. (Inr (e_go_now E (s_tick s)), s))"

definition uuid_New :: "string M" where
  "uuid_New = (\<lambda>E s. (Inr (e_new_uuid E (s_tick s)), s))"

definition rand_Float64 :: "rat M" where
  "rand_Float64 = (\<lambda>E s. (Inr (e_rand E (s_tick s)), s))"

section \<open>Database calls and transactions\<close>

text \<open>
  A database call first lets other transactions commit, then fails or runs its statement.
  \<open>tx_call\<close> is a statement of the open transaction; without one the driver reports a closed
  transaction.
\<close>

definition call_step :: "env \<Rightarrow> sess \<Rightarrow> sess" where
  "call_step E s = s\<lparr>s_tick := Suc (s_tick s), s_store := e_interfere E (s_tick s) (s_store s)\<rparr>"

definition driver_error :: "env \<Rightarrow> nat \<Rightarrow> go_error" where
  "driver_error E n = ErrDriver (e_driver_text E n)"

definition db_call :: "(nat \<Rightarrow> 'a M) \<Rightarrow> 'a M" where
  "db_call body = (\<lambda>E s. if e_fault E (s_tick s) = NoFault then body (s_tick s) E (call_step E s)
     else (Inl (driver_error E (s_tick s)), call_step E s))"

definition tx_call :: "(nat \<Rightarrow> tx \<Rightarrow> 'a M) \<Rightarrow> 'a M" where
  "tx_call body = db_call (\<lambda>n E s. case s_txn s of
       None \<Rightarrow> (Inl (driver_error E n), s)
     | Some tx \<Rightarrow> body n tx E s)"

definition tx_view :: "tx \<Rightarrow> sess \<Rightarrow> tables" where
  "tx_view tx s = apply_log (tx_log tx) (tabs (s_store s))"

definition log_write :: "sql_write \<Rightarrow> tx \<Rightarrow> sess \<Rightarrow> sess" where
  "log_write w tx s = s\<lparr>s_txn := Some (tx\<lparr>tx_log := tx_log tx @ [w]\<rparr>)\<rparr>"

definition Commit :: "unit M" where
  "Commit = (\<lambda>E s. let n = s_tick s; s1 = call_step E s in case s_txn s1 of
       None \<Rightarrow> (Inl (driver_error E n), s1)
     | Some tx \<Rightarrow>
         let applied = s1\<lparr>s_store := (s_store s1)\<lparr>tabs := tx_view tx s1\<rparr>, s_txn := None\<rparr> in
         case e_fault E n of
           NoFault \<Rightarrow> (Inr (), applied)
         | Fault \<Rightarrow> (Inl (driver_error E n), s1\<lparr>s_txn := None\<rparr>)
         | LostReply \<Rightarrow> (Inl (driver_error E n), applied))"

text \<open>\<open>defer tx.Rollback(ctx)\<close>: whatever the result, no transaction is open afterwards.\<close>

definition deferring_Rollback :: "'a M \<Rightarrow> 'a M" where
  "deferring_Rollback m = (\<lambda>E s. case m E s of (r, s') \<Rightarrow> (r, s'\<lparr>s_txn := None\<rparr>))"

text \<open>How the UUID columns read a text, and BIGSERIAL columns draw a value.\<close>

definition with_uuid :: "string \<Rightarrow> nat \<Rightarrow> (string \<Rightarrow> 'a M) \<Rightarrow> 'a M" where
  "with_uuid t n k = (\<lambda>E s. case e_uuid E t of None \<Rightarrow> (Inl (driver_error E n), s) | Some u \<Rightarrow> k u E s)"

definition nextval_event :: "sess \<Rightarrow> int \<times> sess" where
  "nextval_event s = (let i = event_seq (s_store s) + 1
     in (i, s\<lparr>s_store := (s_store s)\<lparr>event_seq := i\<rparr>\<rparr>))"

definition nextval_task :: "sess \<Rightarrow> int \<times> sess" where
  "nextval_task s = (let i = task_seq (s_store s) + 1
     in (i, s\<lparr>s_store := (s_store s)\<lparr>task_seq := i\<rparr>\<rparr>))"

definition nextval_timer :: "sess \<Rightarrow> int \<times> sess" where
  "nextval_timer s = (let i = timer_seq (s_store s) + 1
     in (i, s\<lparr>s_store := (s_store s)\<lparr>timer_seq := i\<rparr>\<rparr>))"

text \<open>No other transaction commits while the operation runs.\<close>

definition serial :: "env \<Rightarrow> bool" where
  "serial E \<longleftrightarrow> e_interfere E = (\<lambda>n st. st)"

definition fault_free :: "env \<Rightarrow> bool" where
  "fault_free E \<longleftrightarrow> e_fault E = (\<lambda>n. NoFault)"

end
