(* ===== verification/Persistence.thy ===== *)
theory Persistence
  imports Store
begin

text \<open>
  \<open>internal/persistence/persistence.go\<close>: one definition per method, with the SQL statement of
  the method as a function of the tables. Queries on the pool read the committed tables, queries
  and statements of a transaction read and extend the transaction's view.
\<close>

section \<open>Transactions\<close>

definition BeginTx :: "unit M" where
  "BeginTx = db_call (\<lambda>n E s. (Inr (), s\<lparr>s_txn := Some \<lparr>tx_now = e_db_now E n, tx_log = []\<rparr>\<rparr>))"

text \<open>
  The opening of every transactional method: \<open>tx, err := BeginTx(ctx)\<close>, its error return, and
  \<open>defer tx.Rollback(ctx)\<close> around the rest.
\<close>

definition in_tx :: "'a M \<Rightarrow> 'a M" where
  "in_tx m = bindM (wrapM ''begin transaction'' BeginTx) (\<lambda>_. deferring_Rollback m)"

section \<open>Workflow executions\<close>

definition InsertWorkflowExecution :: "WorkflowExecution \<Rightarrow> unit M" where
  "InsertWorkflowExecution w = wrapM ''insert workflow execution'' (tx_call (\<lambda>n tx.
     with_uuid (we_RunID w) n (\<lambda>rid E s.
       if (\<exists>x \<in> set (executions (tx_view tx s)). is_execution (we_WorkflowID w) rid x)
       then (Inl (driver_error E n), s)
       else (Inr (), log_write (InsertExecutionRow
         (w\<lparr>we_RunID := rid, we_StartedAt := tx_now tx, we_ClosedAt := None\<rparr>)) tx s))))"

definition GetWorkflowExecution :: "string \<Rightarrow> string \<Rightarrow> WorkflowExecution M" where
  "GetWorkflowExecution wid rid0 =
     bindM (wrapM ''scan workflow execution'' (db_call (\<lambda>n. with_uuid rid0 n (\<lambda>rid E s.
       (Inr (List.find (is_execution wid rid) (executions (tabs (s_store s)))), s)))))
     (\<lambda>row. case row of None \<Rightarrow> raiseM ErrNotFound | Some w \<Rightarrow> returnM w)"

definition latest_execution :: "(nat \<Rightarrow> nat) \<Rightarrow> string \<Rightarrow> tables \<Rightarrow> WorkflowExecution option" where
  "latest_execution r wid T =
     (case sort_key (\<lambda>x. - we_StartedAt x)
         (heap_order r (filter (\<lambda>x. we_WorkflowID x = wid) (executions T))) of
       [] \<Rightarrow> None | x # _ \<Rightarrow> Some x)"

definition GetLatestExecution :: "string \<Rightarrow> WorkflowExecution M" where
  "GetLatestExecution wid =
     bindM (wrapM ''scan latest execution'' (db_call (\<lambda>n E s.
       (Inr (latest_execution (e_row_rank E n) wid (tabs (s_store s))), s))))
     (\<lambda>row. case row of None \<Rightarrow> raiseM ErrNotFound | Some w \<Rightarrow> returnM w)"

definition UpdateWorkflowStatus :: "string \<Rightarrow> string \<Rightarrow> string \<Rightarrow> unit M" where
  "UpdateWorkflowStatus wid rid0 status = wrapM ''update workflow status'' (tx_call (\<lambda>n tx.
     with_uuid rid0 n (\<lambda>rid E s. (Inr (), log_write (SetStatus wid rid status (tx_now tx)) tx s))))"

section \<open>Events\<close>

text \<open>The column \<open>data\<close> is NOT NULL; the method replaces a nil slice by an empty one.\<close>

definition InsertEvent :: "Event \<Rightarrow> unit M" where
  "InsertEvent e0 = (let e = (if ev_Data e0 = None then e0\<lparr>ev_Data := Some []\<rparr> else e0) in
     wrapM ''insert event'' (tx_call (\<lambda>n tx. with_uuid (ev_RunID e) n (\<lambda>rid E s.
       if ev_Data e = None then (Inl (driver_error E n), s)
       else (case nextval_event s of (i, s') \<Rightarrow>
         (Inr (), log_write (InsertEventRow
           (e\<lparr>ev_ID := i, ev_RunID := rid, ev_CreatedAt := tx_now tx\<rparr>)) tx s'))))))"

definition select_events :: "(nat \<Rightarrow> nat) \<Rightarrow> string \<Rightarrow> string \<Rightarrow> tables \<Rightarrow> Event list" where
  "select_events r wid rid T = sort_key ev_EventID (heap_order r (filter (is_event_of wid rid) (events T)))"

definition GetEvents :: "string \<Rightarrow> string \<Rightarrow> Event list M" where
  "GetEvents wid rid0 = wrap_rows ''query events'' ''scan event'' ''iterate events'' (db_call (\<lambda>n. with_uuid rid0 n (\<lambda>rid E s.
     (Inr (select_events (e_row_rank E n) wid rid (tabs (s_store s))), s))))"

section \<open>Tasks\<close>

definition InsertTask :: "Task \<Rightarrow> unit M" where
  "InsertTask t = wrapM ''insert task'' (tx_call (\<lambda>n tx. with_uuid (t_RunID t) n (\<lambda>rid E s.
     case nextval_task s of (i, s') \<Rightarrow>
       (Inr (), log_write (InsertTaskRow (t\<lparr>t_ID := i, t_RunID := rid,
          t_VisibilityTime := e_store_time E (t_VisibilityTime t),
          t_LeaseExpiresAt := map_option (e_store_time E) (t_LeaseExpiresAt t)\<rparr>)) tx s'))))"

definition pollable :: "string \<Rightarrow> string \<Rightarrow> time \<Rightarrow> Task \<Rightarrow> bool" where
  "pollable queue ttype now t \<longleftrightarrow> t_TaskQueue t = queue \<and> t_TaskType t = ttype \<and>
     t_LeaseOwner t = None \<and> t_VisibilityTime t \<le> now"

definition select_pollable ::
  "(int \<Rightarrow> bool) \<Rightarrow> string \<Rightarrow> string \<Rightarrow> time \<Rightarrow> tables \<Rightarrow> Task option" where
  "select_pollable locked queue ttype now T =
     (case sort_key t_ID (filter (\<lambda>t. pollable queue ttype now t \<and> \<not> locked (t_ID t)) (tasks T)) of
       [] \<Rightarrow> None | t # _ \<Rightarrow> Some t)"

definition lease_interval :: time where
  "lease_interval = 30 * 10 ^ 9"

definition PollTask :: "string \<Rightarrow> string \<Rightarrow> string \<Rightarrow> Task option M" where
  "PollTask queue ttype leaseOwner =
     in_tx (bindM (wrapM ''scan task'' (tx_call (\<lambda>n tx E s.
       (Inr (select_pollable (e_row_locked E n) queue ttype (tx_now tx) (tx_view tx s)), s)))) (\<lambda>row.
     case row of
       None \<Rightarrow> returnM None
     | Some t \<Rightarrow>
         bindM (wrapM ''set lease owner'' (tx_call (\<lambda>n tx E s.
           (Inr (), log_write (SetLease (t_ID t) leaseOwner (tx_now tx + lease_interval)) tx s)))) (\<lambda>_.
         bindM (wrapM ''commit transaction'' Commit) (\<lambda>_.
         returnM (Some t)))))"

definition GetTask :: "int \<Rightarrow> Task M" where
  "GetTask taskID =
     bindM (wrapM ''scan task'' (db_call (\<lambda>n E s.
       (Inr (List.find (\<lambda>t. t_ID t = taskID) (tasks (tabs (s_store s)))), s))))
     (\<lambda>row. case row of None \<Rightarrow> raiseM ErrNotFound | Some t \<Rightarrow> returnM t)"

text \<open>One statement on the pool, which commits by itself; the result is the number of rows.\<close>

definition ReclaimExpiredLeases :: "int M" where
  "ReclaimExpiredLeases = (\<lambda>E s. let n = s_tick s; s1 = call_step E s; T = tabs (s_store s1);
       now = e_db_now E n;
       done = s1\<lparr>s_store := (s_store s1)\<lparr>tabs := apply_write (ReclaimLeases now) T\<rparr>\<rparr>;
       err = Errorf ''reclaim expired leases'' (driver_error E n) in
     case e_fault E n of
       NoFault \<Rightarrow> (Inr (int (length (filter (expired now) (tasks T)))), done)
     | Fault \<Rightarrow> (Inl err, s1)
     | LostReply \<Rightarrow> (Inl err, done))"

definition CompleteTask :: "int \<Rightarrow> unit M" where
  "CompleteTask taskID = wrapM ''complete task'' (tx_call (\<lambda>n tx E s.
     (Inr (), log_write (DeleteTask taskID) tx s)))"

section \<open>Timers\<close>

definition InsertTimer :: "Timer \<Rightarrow> unit M" where
  "InsertTimer t = wrapM ''insert timer'' (tx_call (\<lambda>n tx. with_uuid (tm_RunID t) n (\<lambda>rid E s.
     case nextval_timer s of (i, s') \<Rightarrow>
       (Inr (), log_write (InsertTimerRow (t\<lparr>tm_ID := i, tm_RunID := rid,
          tm_FireAt := e_store_time E (tm_FireAt t), tm_Fired := False\<rparr>)) tx s'))))"

definition timer_due :: "time \<Rightarrow> Timer \<Rightarrow> bool" where
  "timer_due now t \<longleftrightarrow> tm_FireAt t \<le> now \<and> \<not> tm_Fired t"

definition select_due ::
  "(nat \<Rightarrow> nat) \<Rightarrow> (int \<Rightarrow> bool) \<Rightarrow> time \<Rightarrow> tables \<Rightarrow> Timer list" where
  "select_due r locked now T =
     take 100 (heap_order r (filter (\<lambda>t. timer_due now t \<and> \<not> locked (tm_ID t)) (timers T)))"

definition GetDueTimers :: "Timer list M" where
  "GetDueTimers = wrap_rows ''query due timers'' ''scan timer'' ''iterate timers'' (tx_call (\<lambda>n tx E s.
     (Inr (select_due (e_row_rank E n) (e_row_locked E n) (tx_now tx) (tx_view tx s)), s)))"

definition MarkTimerFired :: "int \<Rightarrow> unit M" where
  "MarkTimerFired timerID = wrapM ''mark timer fired'' (tx_call (\<lambda>n tx E s.
     (Inr (), log_write (SetFired timerID) tx s)))"

text \<open>
  The columns the statement leaves out have their defaults: no input, index 0, attempt 1 of 3,
  visible from now, no lease.
\<close>

definition InsertWorkflowTaskIfNotExists :: "Task \<Rightarrow> unit M" where
  "InsertWorkflowTaskIfNotExists t = wrapM ''insert workflow task'' (tx_call (\<lambda>n tx.
     with_uuid (t_RunID t) n (\<lambda>rid E s.
       if (\<exists>x \<in> set (tasks (tx_view tx s)). t_WorkflowID x = t_WorkflowID t \<and> t_RunID x = rid \<and>
             t_TaskType x = ''workflow'')
       then (Inr (), s)
       else (case nextval_task s of (i, s') \<Rightarrow>
         (Inr (), log_write (InsertTaskRow \<lparr>t_ID = i, t_TaskQueue = t_TaskQueue t,
            t_TaskType = t_TaskType t, t_WorkflowType = t_WorkflowType t,
            t_WorkflowID = t_WorkflowID t, t_RunID = rid,
            t_ScheduledEventID = t_ScheduledEventID t, t_Input = None, t_ActivityName = [],
            t_ActivityIndex = 0, t_Attempt = 1, t_MaxAttempts = 3,
            t_VisibilityTime = tx_now tx, t_LeaseOwner = None, t_LeaseExpiresAt = None\<rparr>) tx s')))))"


section \<open>The row a poll takes\<close>

lemma select_pollable_Some:
  assumes "select_pollable locked q ty now T = Some t"
  shows "t \<in> set (tasks T)" "pollable q ty now t" "\<not> locked (t_ID t)"
    and "\<forall>t' \<in> set (tasks T). pollable q ty now t' \<and> \<not> locked (t_ID t') \<longrightarrow> t_ID t \<le> t_ID t'"
proof -
  let ?c = "filter (\<lambda>t. pollable q ty now t \<and> \<not> locked (t_ID t)) (tasks T)"
  from assms obtain ts where s: "sort_key t_ID ?c = t # ts"
    by (auto simp: select_pollable_def split: list.splits)
  then have m: "set ?c = set (t # ts)" by (metis set_sort)
  then show "t \<in> set (tasks T)" "pollable q ty now t" "\<not> locked (t_ID t)" by auto
  have "sorted (map t_ID (t # ts))" using sorted_sort_key [of t_ID ?c] s by simp
  with m show "\<forall>t' \<in> set (tasks T). pollable q ty now t' \<and> \<not> locked (t_ID t') \<longrightarrow> t_ID t \<le> t_ID t'"
    by auto
qed

lemma select_pollable_None:
  "select_pollable locked q ty now T = None \<longleftrightarrow> (\<forall>t \<in> set (tasks T). pollable q ty now t \<longrightarrow> locked (t_ID t))"
proof -
  let ?c = "filter (\<lambda>t. pollable q ty now t \<and> \<not> locked (t_ID t)) (tasks T)"
  have "sort_key t_ID ?c = [] \<longleftrightarrow> ?c = []"
    by (simp only: set_empty [symmetric] set_sort)
  then have "select_pollable locked q ty now T = None \<longleftrightarrow> ?c = []"
    unfolding select_pollable_def by (cases "sort_key t_ID ?c") simp_all
  then show ?thesis by (simp add: filter_empty_conv)
qed

end
