(* ===== verification/Effects.thy ===== *)
theory Effects
  imports Persistence
begin

text \<open>
  A weakest-precondition calculus for the transactional code. \<open>wp m E s Q F\<close> says that running
  \<open>m\<close> ends in \<open>Q\<close> of the value and the session, or in \<open>F\<close> of the error and the session. The
  combinators are rewritten; each method of \<open>persistence\<close> has one rule, which says what the
  method did when it succeeded and that it left the committed tables alone when it failed.
\<close>

definition wp :: "'a M \<Rightarrow> env \<Rightarrow> sess \<Rightarrow> ('a \<Rightarrow> sess \<Rightarrow> bool) \<Rightarrow> (go_error \<Rightarrow> sess \<Rightarrow> bool) \<Rightarrow> bool" where
  "wp m E s Q F = (case m E s of (Inl e, s') \<Rightarrow> F e s' | (Inr x, s') \<Rightarrow> Q x s')"

lemma wpD: "wp m E s Q F \<Longrightarrow> m E s = (r, s') \<Longrightarrow>
    (case r of Inl e \<Rightarrow> F e s' | Inr x \<Rightarrow> Q x s')"
  by (cases r) (auto simp: wp_def)

lemma wp_return [eval_simps]: "wp (returnM x) E s Q F = Q x s"
  by (simp add: wp_def returnM_def)

lemma wp_raise [eval_simps]: "wp (raiseM e) E s Q F = F e s"
  by (simp add: wp_def raiseM_def)

lemma wp_bind [eval_simps]: "wp (bindM m k) E s Q F = wp m E s (\<lambda>x s'. wp (k x) E s' Q F) F"
  by (simp add: wp_def bindM_def split: prod.splits sum.splits)

lemma wp_wrap [eval_simps]: "wp (wrapM t m) E s Q F = wp m E s Q (\<lambda>e. F (Errorf t e))"
  by (simp add: wp_def wrapM_def split: prod.splits sum.splits)

lemma wp_try [eval_simps]: "wp (tryM m) E s Q F = wp m E s (\<lambda>x. Q (Inr x)) (\<lambda>e. Q (Inl e))"
  by (simp add: wp_def tryM_def split: prod.splits sum.splits)

lemma wp_metric [eval_simps]: "wp (metricM f) E s Q F = Q () (s\<lparr>s_metrics := f (s_metrics s)\<rparr>)"
  by (simp add: wp_def metricM_def)

lemma wp_time_Now [eval_simps]: "wp time_Now E s Q F = Q (e_go_now E (s_tick s)) s"
  by (simp add: wp_def time_Now_def)

lemma wp_uuid_New [eval_simps]: "wp uuid_New E s Q F = Q (e_new_uuid E (s_tick s)) s"
  by (simp add: wp_def uuid_New_def)

lemma wp_rand [eval_simps]: "wp rand_Float64 E s Q F = Q (e_rand E (s_tick s)) s"
  by (simp add: wp_def rand_Float64_def)

lemma wp_deferring_Rollback [eval_simps]:
  "wp (deferring_Rollback m) E s Q F =
     wp m E s (\<lambda>x s'. Q x (s'\<lparr>s_txn := None\<rparr>)) (\<lambda>e s'. F e (s'\<lparr>s_txn := None\<rparr>))"
  by (simp add: wp_def deferring_Rollback_def split: prod.splits sum.splits)

lemma wp_if [eval_simps]:
  "wp (if b then m else n) E s Q F \<longleftrightarrow> (b \<longrightarrow> wp m E s Q F) \<and> (\<not> b \<longrightarrow> wp n E s Q F)"
  by simp

lemma wp_case_option [eval_simps]:
  "wp (case x of None \<Rightarrow> m | Some y \<Rightarrow> k y) E s Q F \<longleftrightarrow>
     (x = None \<longrightarrow> wp m E s Q F) \<and> (\<forall>y. x = Some y \<longrightarrow> wp (k y) E s Q F)"
  by (cases x) auto

lemma wp_case_sum [eval_simps]:
  "wp (case x of Inl e \<Rightarrow> m e | Inr y \<Rightarrow> k y) E s Q F \<longleftrightarrow>
     (\<forall>e. x = Inl e \<longrightarrow> wp (m e) E s Q F) \<and> (\<forall>y. x = Inr y \<longrightarrow> wp (k y) E s Q F)"
  by (cases x) auto

lemma wp_case_prod [eval_simps]:
  "wp (case p of (a, b) \<Rightarrow> k a b) E s Q F = wp (k (fst p) (snd p)) E s Q F"
  by (cases p) simp

section \<open>Sessions between two calls\<close>

text \<open>
  \<open>quiet s s'\<close>: nothing was committed, counted or drawn back between the two sessions.
  \<open>logged ws s s'\<close>: the open transaction has the writes \<open>ws\<close> more, and nothing was committed.
\<close>

definition seqs_le :: "sess \<Rightarrow> sess \<Rightarrow> bool" where
  "seqs_le s s' \<longleftrightarrow> event_seq (s_store s) \<le> event_seq (s_store s') \<and>
     task_seq (s_store s) \<le> task_seq (s_store s') \<and> timer_seq (s_store s) \<le> timer_seq (s_store s')"

definition quiet :: "sess \<Rightarrow> sess \<Rightarrow> bool" where
  "quiet s s' \<longleftrightarrow> tabs (s_store s') = tabs (s_store s) \<and> s_metrics s' = s_metrics s \<and> seqs_le s s'"

definition in_txn :: "sess \<Rightarrow> bool" where
  "in_txn s \<longleftrightarrow> s_txn s \<noteq> None"

definition pending :: "sess \<Rightarrow> sql_write list" where
  "pending s = tx_log (the (s_txn s))"

definition txn_now :: "sess \<Rightarrow> time" where
  "txn_now s = tx_now (the (s_txn s))"

definition logged :: "sql_write list \<Rightarrow> int \<Rightarrow> int \<Rightarrow> int \<Rightarrow> sess \<Rightarrow> sess \<Rightarrow> bool" where
  "logged ws de dt dm s s' \<longleftrightarrow> tabs (s_store s') = tabs (s_store s) \<and> s_metrics s' = s_metrics s \<and>
     in_txn s' \<and> pending s' = pending s @ ws \<and> txn_now s' = txn_now s \<and>
     event_seq (s_store s') = event_seq (s_store s) + de \<and>
     task_seq (s_store s') = task_seq (s_store s) + dt \<and>
     timer_seq (s_store s') = timer_seq (s_store s) + dm"

lemma quiet_refl [simp]: "quiet s s"
  by (simp add: quiet_def seqs_le_def)

lemma quiet_trans: "quiet s s' \<Longrightarrow> quiet s' s'' \<Longrightarrow> quiet s s''"
  by (auto simp: quiet_def seqs_le_def)

lemma quiet_rollback [simp]: "quiet s (s'\<lparr>s_txn := x\<rparr>) \<longleftrightarrow> quiet s s'"
  by (simp add: quiet_def seqs_le_def)

lemma logged_trans:
  "logged ws a b c s s' \<Longrightarrow> logged vs d e f s' s'' \<Longrightarrow> logged (ws @ vs) (a + d) (b + e) (c + f) s s''"
  by (simp add: logged_def)

lemma logged_quiet:
  "logged ws a b c s s' \<Longrightarrow> 0 \<le> a \<Longrightarrow> 0 \<le> b \<Longrightarrow> 0 \<le> c \<Longrightarrow> quiet s s'"
  by (simp add: logged_def quiet_def seqs_le_def)

section \<open>Rules of the database calls\<close>

lemma call_step_simps [simp]:
  "serial E \<Longrightarrow> s_store (call_step E s) = s_store s"
  "s_metrics (call_step E s) = s_metrics s"
  "s_txn (call_step E s) = s_txn s"
  by (simp_all add: call_step_def serial_def)

lemma quiet_call_step [simp]: "serial E \<Longrightarrow> quiet s (call_step E s')  \<longleftrightarrow> quiet s s'"
  by (simp add: quiet_def seqs_le_def)

lemma wp_db_call:
  assumes "serial E"
    and "\<And>m. F (ErrDriver m) (call_step E s)"
    and "wp (body (s_tick s)) E (call_step E s) Q F"
  shows "wp (db_call body) E s Q F"
  using assms by (auto simp: wp_def db_call_def driver_error_def)

lemma wp_tx_call:
  assumes "serial E" and "in_txn s"
    and "\<And>m. F (ErrDriver m) (call_step E s)"
    and "wp (body (s_tick s) (the (s_txn s))) E (call_step E s) Q F"
  shows "wp (tx_call body) E s Q F"
  unfolding tx_call_def using assms
  by (intro wp_db_call) (auto simp: wp_def in_txn_def)

lemma wp_with_uuid:
  assumes "\<And>m. e_uuid E t = None \<Longrightarrow> F (ErrDriver m) s" and "\<And>u. e_uuid E t = Some u \<Longrightarrow> wp (k u) E s Q F"
  shows "wp (with_uuid t n k) E s Q F"
  using assms by (cases "e_uuid E t") (auto simp: wp_def with_uuid_def driver_error_def)

text \<open>
  The rules of the methods. A failure is reported with the method's own prefix around a driver
  error; only the lookups have a second failure, \<open>ErrNotFound\<close>.
\<close>

text \<open>The failure of a query of several rows, with any of its three prefixes.\<close>

lemma wp_wrap_rows:
  "wp m E s Q (\<lambda>e s'. F (Errorf a e) s' \<and> F (Errorf b e) s' \<and> F (Errorf c e) s') \<Longrightarrow> wp (wrap_rows a b c m) E s Q F"
  by (auto simp: wp_def wrap_rows_def split: prod.splits sum.splits row_stage.splits)

definition driver_failure :: "(go_error \<Rightarrow> sess \<Rightarrow> bool) \<Rightarrow> string \<Rightarrow> sess \<Rightarrow> bool" where
  "driver_failure F t s \<longleftrightarrow> (\<forall>m s'. quiet s s' \<longrightarrow> F (Errorf t (ErrDriver m)) s')"

lemma driver_failureD: "driver_failure F t s \<Longrightarrow> quiet s s' \<Longrightarrow> F (Errorf t (ErrDriver m)) s'"
  by (simp add: driver_failure_def)

lemma wp_BeginTx:
  assumes "serial E" and "\<And>m s'. quiet s s' \<Longrightarrow> F (ErrDriver m) s'"
    and "\<And>s'. quiet s s' \<Longrightarrow> s_store s' = s_store s \<Longrightarrow> in_txn s' \<Longrightarrow> pending s' = [] \<Longrightarrow>
           txn_now s' = e_db_now E (s_tick s) \<Longrightarrow> Q () s'"
  shows "wp BeginTx E s Q F"
  unfolding BeginTx_def using assms
  by (intro wp_db_call) (auto simp: wp_def in_txn_def pending_def txn_now_def quiet_def seqs_le_def)

lemma wp_GetWorkflowExecution:
  assumes "serial E" and "driver_failure F ''scan workflow execution'' s"
    and "\<And>u s'. e_uuid E rid = Some u \<Longrightarrow> \<forall>x \<in> set (executions (tabs (s_store s))). \<not> is_execution wid u x \<Longrightarrow>
           quiet s s' \<Longrightarrow> F ErrNotFound s'"
    and "\<And>u x s'. e_uuid E rid = Some u \<Longrightarrow>
           List.find (is_execution wid u) (executions (tabs (s_store s))) = Some x \<Longrightarrow>
           s_store s' = s_store s \<Longrightarrow> s_metrics s' = s_metrics s \<Longrightarrow> s_txn s' = s_txn s \<Longrightarrow> Q x s'"
  shows "wp (GetWorkflowExecution wid rid) E s Q F"
  unfolding GetWorkflowExecution_def eval_simps using assms(1,2)
  by (intro wp_db_call wp_with_uuid)
    (auto simp: driver_failure_def wp_def returnM_def raiseM_def split: option.splits intro!: assms(3,4))

lemma wp_GetLatestExecution:
  assumes "serial E" and "driver_failure F ''scan latest execution'' s"
    and "\<And>s'. latest_execution (e_row_rank E (s_tick s)) wid (tabs (s_store s)) = None \<Longrightarrow>
           s_store s' = s_store s \<Longrightarrow> s_metrics s' = s_metrics s \<Longrightarrow> s_txn s' = s_txn s \<Longrightarrow> F ErrNotFound s'"
    and "\<And>x s'. latest_execution (e_row_rank E (s_tick s)) wid (tabs (s_store s)) = Some x \<Longrightarrow>
           s_store s' = s_store s \<Longrightarrow> s_metrics s' = s_metrics s \<Longrightarrow> s_txn s' = s_txn s \<Longrightarrow> Q x s'"
  shows "wp (GetLatestExecution wid) E s Q F"
  unfolding GetLatestExecution_def eval_simps using assms(1,2)
  by (intro wp_db_call)
    (auto simp: driver_failure_def wp_def returnM_def raiseM_def split: option.splits intro!: assms(3,4))

lemma wp_GetEvents:
  assumes "serial E" and "driver_failure F ''query events'' s" "driver_failure F ''scan event'' s"
      "driver_failure F ''iterate events'' s"
    and "\<And>u s'. e_uuid E rid = Some u \<Longrightarrow> s_store s' = s_store s \<Longrightarrow> s_metrics s' = s_metrics s \<Longrightarrow>
           s_txn s' = s_txn s \<Longrightarrow>
           Q (select_events (e_row_rank E (s_tick s)) wid u (tabs (s_store s))) s'"
  shows "wp (GetEvents wid rid) E s Q F"
  unfolding GetEvents_def using assms(1-4)
  by (intro wp_wrap_rows wp_db_call wp_with_uuid) (auto simp: driver_failure_def wp_def intro!: assms(5))

lemma wp_GetTask:
  assumes "serial E" and "driver_failure F ''scan task'' s"
    and "\<And>s'. \<forall>t \<in> set (tasks (tabs (s_store s))). t_ID t \<noteq> i \<Longrightarrow> quiet s s' \<Longrightarrow> F ErrNotFound s'"
    and "\<And>t s'. List.find (\<lambda>t. t_ID t = i) (tasks (tabs (s_store s))) = Some t \<Longrightarrow>
           s_store s' = s_store s \<Longrightarrow> s_metrics s' = s_metrics s \<Longrightarrow> s_txn s' = s_txn s \<Longrightarrow> Q t s'"
  shows "wp (GetTask i) E s Q F"
  unfolding GetTask_def eval_simps using assms(1,2)
  by (intro wp_db_call)
    (auto simp: driver_failure_def wp_def returnM_def raiseM_def split: option.splits intro!: assms(3,4))

section \<open>Rows as they are stored\<close>

definition event_row :: "Event \<Rightarrow> int \<Rightarrow> string \<Rightarrow> time \<Rightarrow> Event" where
  "event_row e i u now =
     (if ev_Data e = None then e\<lparr>ev_Data := Some []\<rparr> else e)\<lparr>ev_ID := i, ev_RunID := u, ev_CreatedAt := now\<rparr>"

definition task_row :: "env \<Rightarrow> Task \<Rightarrow> int \<Rightarrow> string \<Rightarrow> Task" where
  "task_row E t i u = t\<lparr>t_ID := i, t_RunID := u, t_VisibilityTime := e_store_time E (t_VisibilityTime t),
     t_LeaseExpiresAt := map_option (e_store_time E) (t_LeaseExpiresAt t)\<rparr>"

definition wakeup_row :: "Task \<Rightarrow> int \<Rightarrow> string \<Rightarrow> time \<Rightarrow> Task" where
  "wakeup_row t i u now = \<lparr>t_ID = i, t_TaskQueue = t_TaskQueue t, t_TaskType = t_TaskType t,
     t_WorkflowType = t_WorkflowType t, t_WorkflowID = t_WorkflowID t, t_RunID = u,
     t_ScheduledEventID = t_ScheduledEventID t, t_Input = None, t_ActivityName = [],
     t_ActivityIndex = 0, t_Attempt = 1, t_MaxAttempts = 3, t_VisibilityTime = now,
     t_LeaseOwner = None, t_LeaseExpiresAt = None\<rparr>"

definition timer_row :: "env \<Rightarrow> Timer \<Rightarrow> int \<Rightarrow> string \<Rightarrow> Timer" where
  "timer_row E t i u = t\<lparr>tm_ID := i, tm_RunID := u, tm_FireAt := e_store_time E (tm_FireAt t), tm_Fired := False\<rparr>"

lemma event_row_simps [simp]:
  "ev_ID (event_row e i u now) = i"
  "ev_RunID (event_row e i u now) = u"
  "ev_CreatedAt (event_row e i u now) = now"
  "ev_WorkflowID (event_row e i u now) = ev_WorkflowID e"
  "ev_EventID (event_row e i u now) = ev_EventID e"
  "ev_EventType (event_row e i u now) = ev_EventType e"
  "ev_SignalName (event_row e i u now) = ev_SignalName e"
  "ev_ActivityName (event_row e i u now) = ev_ActivityName e"
  "ev_ActivityIndex (event_row e i u now) = ev_ActivityIndex e"
  "ev_TimerIndex (event_row e i u now) = ev_TimerIndex e"
  "ev_Data (event_row e i u now) = Some (case ev_Data e of None \<Rightarrow> [] | Some d \<Rightarrow> d)"
  by (auto simp: event_row_def)

lemma task_row_simps [simp]:
  "t_ID (task_row E t i u) = i"
  "t_RunID (task_row E t i u) = u"
  "t_VisibilityTime (task_row E t i u) = e_store_time E (t_VisibilityTime t)"
  "t_LeaseExpiresAt (task_row E t i u) = map_option (e_store_time E) (t_LeaseExpiresAt t)"
  "t_LeaseOwner (task_row E t i u) = t_LeaseOwner t"
  "t_TaskQueue (task_row E t i u) = t_TaskQueue t"
  "t_TaskType (task_row E t i u) = t_TaskType t"
  "t_WorkflowType (task_row E t i u) = t_WorkflowType t"
  "t_WorkflowID (task_row E t i u) = t_WorkflowID t"
  "t_ScheduledEventID (task_row E t i u) = t_ScheduledEventID t"
  "t_Input (task_row E t i u) = t_Input t"
  "t_ActivityName (task_row E t i u) = t_ActivityName t"
  "t_ActivityIndex (task_row E t i u) = t_ActivityIndex t"
  "t_Attempt (task_row E t i u) = t_Attempt t"
  "t_MaxAttempts (task_row E t i u) = t_MaxAttempts t"
  by (simp_all add: task_row_def)

lemma wakeup_row_simps [simp]:
  "t_ID (wakeup_row t i u now) = i"
  "t_RunID (wakeup_row t i u now) = u"
  "t_WorkflowID (wakeup_row t i u now) = t_WorkflowID t"
  "t_TaskType (wakeup_row t i u now) = t_TaskType t"
  "t_TaskQueue (wakeup_row t i u now) = t_TaskQueue t"
  "t_WorkflowType (wakeup_row t i u now) = t_WorkflowType t"
  "t_ScheduledEventID (wakeup_row t i u now) = t_ScheduledEventID t"
  "t_VisibilityTime (wakeup_row t i u now) = now"
  "t_LeaseOwner (wakeup_row t i u now) = None"
  "t_LeaseExpiresAt (wakeup_row t i u now) = None"
  by (simp_all add: wakeup_row_def)

lemma timer_row_simps [simp]:
  "tm_ID (timer_row E t i u) = i"
  "tm_RunID (timer_row E t i u) = u"
  "tm_FireAt (timer_row E t i u) = e_store_time E (tm_FireAt t)"
  "tm_Fired (timer_row E t i u) = False"
  "tm_WorkflowID (timer_row E t i u) = tm_WorkflowID t"
  "tm_TimerIndex (timer_row E t i u) = tm_TimerIndex t"
  by (simp_all add: timer_row_def)

section \<open>Statements of a transaction\<close>

text \<open>Each rule gives the writes the statement logs and the sequence values it draws.\<close>

lemmas logged_simps = logged_def log_write_def in_txn_def pending_def txn_now_def
  nextval_event_def nextval_task_def nextval_timer_def Let_def

lemma wp_InsertWorkflowExecution:
  assumes "serial E" and "in_txn s" and "driver_failure F ''insert workflow execution'' s"
    and "\<And>u s'. e_uuid E (we_RunID w) = Some u \<Longrightarrow>
           \<forall>x \<in> set (executions (apply_log (pending s) (tabs (s_store s)))). \<not> is_execution (we_WorkflowID w) u x \<Longrightarrow>
           logged [InsertExecutionRow (w\<lparr>we_RunID := u, we_StartedAt := txn_now s, we_ClosedAt := None\<rparr>)]
             0 0 0 s s' \<Longrightarrow> Q () s'"
  shows "wp (InsertWorkflowExecution w) E s Q F"
  unfolding InsertWorkflowExecution_def eval_simps using assms(1-3)
  by (intro wp_tx_call wp_with_uuid)
    (auto simp: driver_failure_def wp_def driver_error_def logged_simps tx_view_def split: if_splits
      intro!: assms(4))

lemma wp_UpdateWorkflowStatus:
  assumes "serial E" and "in_txn s" and "driver_failure F ''update workflow status'' s"
    and "\<And>u s'. e_uuid E rid = Some u \<Longrightarrow> logged [SetStatus wid u st (txn_now s)] 0 0 0 s s' \<Longrightarrow> Q () s'"
  shows "wp (UpdateWorkflowStatus wid rid st) E s Q F"
  unfolding UpdateWorkflowStatus_def eval_simps using assms(1-3)
  by (intro wp_tx_call wp_with_uuid)
    (auto simp: driver_failure_def wp_def logged_simps intro!: assms(4))

lemma wp_InsertEvent:
  assumes "serial E" and "in_txn s" and "driver_failure F ''insert event'' s"
    and "\<And>u s'. e_uuid E (ev_RunID e) = Some u \<Longrightarrow>
           logged [InsertEventRow (event_row e (event_seq (s_store s) + 1) u (txn_now s))] 1 0 0 s s' \<Longrightarrow> Q () s'"
  shows "wp (InsertEvent e) E s Q F"
  unfolding InsertEvent_def Let_def eval_simps using assms(1-3)
  by (intro wp_tx_call wp_with_uuid)
    (auto simp: driver_failure_def wp_def event_row_def logged_simps intro!: assms(4))

lemma wp_InsertTask:
  assumes "serial E" and "in_txn s" and "driver_failure F ''insert task'' s"
    and "\<And>u s'. e_uuid E (t_RunID t) = Some u \<Longrightarrow>
           logged [InsertTaskRow (task_row E t (task_seq (s_store s) + 1) u)] 0 1 0 s s' \<Longrightarrow> Q () s'"
  shows "wp (InsertTask t) E s Q F"
  unfolding InsertTask_def eval_simps using assms(1-3)
  by (intro wp_tx_call wp_with_uuid)
    (auto simp: driver_failure_def wp_def task_row_def logged_simps intro!: assms(4))

lemma wp_CompleteTask:
  assumes "serial E" and "in_txn s" and "driver_failure F ''complete task'' s"
    and "\<And>s'. logged [DeleteTask i] 0 0 0 s s' \<Longrightarrow> Q () s'"
  shows "wp (CompleteTask i) E s Q F"
  unfolding CompleteTask_def eval_simps using assms(1-3)
  by (intro wp_tx_call) (auto simp: driver_failure_def wp_def logged_simps intro!: assms(4))

lemma wp_InsertTimer:
  assumes "serial E" and "in_txn s" and "driver_failure F ''insert timer'' s"
    and "\<And>u s'. e_uuid E (tm_RunID t) = Some u \<Longrightarrow>
           logged [InsertTimerRow (timer_row E t (timer_seq (s_store s) + 1) u)] 0 0 1 s s' \<Longrightarrow> Q () s'"
  shows "wp (InsertTimer t) E s Q F"
  unfolding InsertTimer_def eval_simps using assms(1-3)
  by (intro wp_tx_call wp_with_uuid)
    (auto simp: driver_failure_def wp_def timer_row_def logged_simps intro!: assms(4))

lemma wp_MarkTimerFired:
  assumes "serial E" and "in_txn s" and "driver_failure F ''mark timer fired'' s"
    and "\<And>s'. logged [SetFired i] 0 0 0 s s' \<Longrightarrow> Q () s'"
  shows "wp (MarkTimerFired i) E s Q F"
  unfolding MarkTimerFired_def eval_simps using assms(1-3)
  by (intro wp_tx_call) (auto simp: driver_failure_def wp_def logged_simps intro!: assms(4))

lemma wp_GetDueTimers:
  assumes "serial E" and "in_txn s" and "driver_failure F ''query due timers'' s" "driver_failure F ''scan timer'' s"
      "driver_failure F ''iterate timers'' s"
    and "\<And>s'. s_store s' = s_store s \<Longrightarrow> s_metrics s' = s_metrics s \<Longrightarrow> s_txn s' = s_txn s \<Longrightarrow>
           Q (select_due (e_row_rank E (s_tick s)) (e_row_locked E (s_tick s)) (txn_now s)
                (apply_log (pending s) (tabs (s_store s)))) s'"
  shows "wp GetDueTimers E s Q F"
  unfolding GetDueTimers_def using assms(1-5)
  by (intro wp_wrap_rows wp_tx_call)
    (auto simp: driver_failure_def wp_def tx_view_def pending_def txn_now_def intro!: assms(6) [unfolded pending_def txn_now_def])

lemma wp_InsertWorkflowTaskIfNotExists:
  assumes "serial E" and "in_txn s" and "driver_failure F ''insert workflow task'' s"
    and "\<And>u s'. e_uuid E (t_RunID t) = Some u \<Longrightarrow>
           \<exists>x \<in> set (tasks (apply_log (pending s) (tabs (s_store s)))).
             t_WorkflowID x = t_WorkflowID t \<and> t_RunID x = u \<and> t_TaskType x = ''workflow'' \<Longrightarrow>
           logged [] 0 0 0 s s' \<Longrightarrow> Q () s'"
    and "\<And>u s'. e_uuid E (t_RunID t) = Some u \<Longrightarrow>
           \<not> (\<exists>x \<in> set (tasks (apply_log (pending s) (tabs (s_store s)))).
             t_WorkflowID x = t_WorkflowID t \<and> t_RunID x = u \<and> t_TaskType x = ''workflow'') \<Longrightarrow>
           logged [InsertTaskRow (wakeup_row t (task_seq (s_store s) + 1) u (txn_now s))] 0 1 0 s s' \<Longrightarrow> Q () s'"
  shows "wp (InsertWorkflowTaskIfNotExists t) E s Q F"
  unfolding InsertWorkflowTaskIfNotExists_def eval_simps
proof (intro wp_tx_call wp_with_uuid)
  fix u
  let ?s = "call_step E s"
  assume u: "e_uuid E (t_RunID t) = Some u"
  show "wp (\<lambda>E s'. if \<exists>x \<in> set (tasks (tx_view (the (s_txn s)) s')). t_WorkflowID x = t_WorkflowID t \<and>
      t_RunID x = u \<and> t_TaskType x = ''workflow''
    then (Inr (), s') else (case nextval_task s' of (i, s'') \<Rightarrow> (Inr (), log_write (InsertTaskRow
      \<lparr>t_ID = i, t_TaskQueue = t_TaskQueue t, t_TaskType = t_TaskType t,
       t_WorkflowType = t_WorkflowType t, t_WorkflowID = t_WorkflowID t, t_RunID = u,
       t_ScheduledEventID = t_ScheduledEventID t, t_Input = None, t_ActivityName = [],
       t_ActivityIndex = 0, t_Attempt = 1, t_MaxAttempts = 3,
       t_VisibilityTime = tx_now (the (s_txn s)), t_LeaseOwner = None, t_LeaseExpiresAt = None\<rparr>)
       (the (s_txn s)) s''))) E ?s Q (\<lambda>e. F (Errorf ''insert workflow task'' e))"
  proof (cases "\<exists>x \<in> set (tasks (apply_log (pending s) (tabs (s_store s)))).
      t_WorkflowID x = t_WorkflowID t \<and> t_RunID x = u \<and> t_TaskType x = ''workflow''")
    case True
    then show ?thesis using assms(1,2) by (auto simp: wp_def tx_view_def logged_simps intro!: assms(4) [OF u])
  next
    case False
    then show ?thesis using assms(1,2)
      by (auto simp: wp_def tx_view_def logged_simps wakeup_row_def intro!: assms(5) [OF u])
  qed
qed (use assms(1-3) in \<open>auto simp: driver_failure_def\<close>)

text \<open>
  A commit that is acknowledged has applied the pending writes; one that is not may have.
\<close>

lemma wp_Commit:
  assumes "serial E" and "in_txn s"
    and "\<And>m s'. quiet s s' \<Longrightarrow> F (ErrDriver m) s'"
    and "\<And>m s'. s_store s' = (s_store s)\<lparr>tabs := apply_log (pending s) (tabs (s_store s))\<rparr> \<Longrightarrow>
           s_metrics s' = s_metrics s \<Longrightarrow> F (ErrDriver m) s'"
    and "\<And>s'. s_store s' = (s_store s)\<lparr>tabs := apply_log (pending s) (tabs (s_store s))\<rparr> \<Longrightarrow>
           s_metrics s' = s_metrics s \<Longrightarrow> Q () s'"
  shows "wp Commit E s Q F"
proof -
  obtain tx where tx: "s_txn s = Some tx" using assms(2) by (auto simp: in_txn_def)
  then have p: "pending s = tx_log tx" by (simp add: pending_def)
  show ?thesis
  proof (cases "e_fault E (s_tick s)")
    case NoFault
    with tx assms(1) show ?thesis by (auto simp: wp_def Commit_def tx_view_def p intro!: assms(5))
  next
    case Fault
    with tx assms(1) show ?thesis by (auto simp: wp_def Commit_def driver_error_def intro!: assms(3))
  next
    case LostReply
    with tx assms(1) show ?thesis
      by (auto simp: wp_def Commit_def tx_view_def p driver_error_def intro!: assms(4))
  qed
qed

lemmas wp_intros = wp_BeginTx wp_GetWorkflowExecution wp_GetLatestExecution wp_GetEvents wp_GetTask
  wp_InsertWorkflowExecution wp_UpdateWorkflowStatus wp_InsertEvent wp_InsertTask wp_CompleteTask
  wp_InsertTimer wp_MarkTimerFired wp_GetDueTimers wp_InsertWorkflowTaskIfNotExists wp_Commit

text \<open>
  The polling statements: the row is chosen and leased in one transaction, so an acknowledged
  poll has leased exactly the row it returns.
\<close>

lemma wp_select_pollable:
  assumes "serial E" and "in_txn s" and "\<And>m s'. quiet s s' \<Longrightarrow> F (ErrDriver m) s'"
    and "\<And>s'. s_store s' = s_store s \<Longrightarrow> s_metrics s' = s_metrics s \<Longrightarrow> s_txn s' = s_txn s \<Longrightarrow>
           Q (select_pollable (e_row_locked E (s_tick s)) q ty (txn_now s)
               (apply_log (pending s) (tabs (s_store s)))) s'"
  shows "wp (tx_call (\<lambda>n tx E s. (Inr (select_pollable (e_row_locked E n) q ty (tx_now tx) (tx_view tx s)), s)))
    E s Q F"
  using assms by (intro wp_tx_call) (auto simp: wp_def tx_view_def pending_def txn_now_def)

lemma wp_set_lease:
  assumes "serial E" and "in_txn s" and "\<And>m s'. quiet s s' \<Longrightarrow> F (ErrDriver m) s'"
    and "\<And>s'. logged [SetLease i owner (txn_now s + lease_interval)] 0 0 0 s s' \<Longrightarrow> Q () s'"
  shows "wp (tx_call (\<lambda>n tx E s. (Inr (), log_write (SetLease i owner (tx_now tx + lease_interval)) tx s)))
    E s Q F"
  using assms by (intro wp_tx_call) (auto simp: wp_def logged_simps)

text \<open>The writes \<open>ws\<close> were committed.\<close>

definition committed :: "sql_write list \<Rightarrow> int \<Rightarrow> int \<Rightarrow> int \<Rightarrow> sess \<Rightarrow> sess \<Rightarrow> bool" where
  "committed ws de dt dm s s' \<longleftrightarrow> tabs (s_store s') = apply_log ws (tabs (s_store s)) \<and>
     event_seq (s_store s') = event_seq (s_store s) + de \<and>
     task_seq (s_store s') = task_seq (s_store s) + dt \<and>
     timer_seq (s_store s') = timer_seq (s_store s) + dm"

text \<open>What closes the side conditions: the chain of sessions between two calls.\<close>

lemmas session_simps = quiet_def seqs_le_def logged_def driver_failure_def committed_def in_txn_def
  pending_def txn_now_def

definition PollTask_effect :: "env \<Rightarrow> sess \<Rightarrow> string \<Rightarrow> string \<Rightarrow> string \<Rightarrow> Task \<Rightarrow> sess \<Rightarrow> bool" where
  "PollTask_effect E s q ty owner t s' \<longleftrightarrow>
     (\<exists>n. select_pollable (e_row_locked E n) q ty (e_db_now E (s_tick s)) (tabs (s_store s)) = Some t) \<and>
     committed [SetLease (t_ID t) owner (e_db_now E (s_tick s) + lease_interval)] 0 0 0 s s'"

lemma wp_PollTask:
  assumes E: "serial E"
  shows "wp (PollTask q ty owner) E s
     (\<lambda>r s'. s_metrics s' = s_metrics s \<and> (case r of
          None \<Rightarrow> (\<exists>n. select_pollable (e_row_locked E n) q ty (e_db_now E (s_tick s)) (tabs (s_store s)) = None) \<and> quiet s s'
        | Some t \<Rightarrow> PollTask_effect E s q ty owner t s'))
     (\<lambda>_ s'. quiet s s' \<or> s_metrics s' = s_metrics s \<and> (\<exists>t. PollTask_effect E s q ty owner t s'))"
  unfolding PollTask_def in_tx_def eval_simps
  by (intro wp_intros wp_select_pollable wp_set_lease E conjI allI impI)
    (auto simp: session_simps PollTask_effect_def)

lemma wp_ReclaimExpiredLeases:
  assumes E: "serial E"
  shows "wp ReclaimExpiredLeases E s
     (\<lambda>n s'. n = int (length (filter (expired (e_db_now E (s_tick s))) (tasks (tabs (s_store s))))) \<and>
        s_metrics s' = s_metrics s \<and>
        s_store s' = (s_store s)\<lparr>tabs := apply_write (ReclaimLeases (e_db_now E (s_tick s))) (tabs (s_store s))\<rparr>)
     (\<lambda>_ s'. s_metrics s' = s_metrics s \<and> (s_store s' = s_store s \<or>
        s_store s' = (s_store s)\<lparr>tabs := apply_write (ReclaimLeases (e_db_now E (s_tick s))) (tabs (s_store s))\<rparr>))"
  using E by (auto simp: wp_def ReclaimExpiredLeases_def Let_def split: fault.splits)

end
