(* ===== verification/Retry.thy ===== *)
theory Retry
  imports Store "HOL-Library.Log_Nat"
begin

text \<open>
  \<open>internal/history/retry.go\<close>: the delay before a failed activity is tried again. The code
  computes it in \<open>float64\<close>; a finite \<open>float64\<close> is a rational number here and every arithmetic
  operation rounds its exact result to the nearest number with a 53-bit significand, ties to
  even (\<open>round64\<close>). The exponent range is not bounded: the only overflow the code can reach,
  \<open>+Inf\<close> in \<open>math.Pow\<close>, is capped by \<open>MaxInterval\<close> just like any other large value.
\<close>

section \<open>Rounding of float64\<close>

definition round_even :: "rat \<Rightarrow> int" where
  "round_even x = (let f = \<lfloor>x\<rfloor>; d = x - of_int f in
     if d < 1 / 2 then f else if d > 1 / 2 then f + 1 else if even f then f else f + 1)"

definition exponent :: "rat \<Rightarrow> int" where
  "exponent x = (if 1 \<le> x then int (floorlog 2 (nat \<lfloor>x\<rfloor>)) - 1
     else - int (floorlog 2 (nat (\<lceil>1 / x\<rceil> - 1))))"

definition ulp :: "rat \<Rightarrow> rat" where
  "ulp x = 2 powi (exponent x - 52)"

definition round64 :: "rat \<Rightarrow> rat" where
  "round64 x = (if x = 0 then 0
     else if x < 0 then - (of_int (round_even (- x / ulp (- x))) * ulp (- x))
     else of_int (round_even (x / ulp x)) * ulp x)"

lemma round_even_mono: "x \<le> y \<Longrightarrow> round_even x \<le> round_even y"
proof -
  assume "x \<le> y"
  then have f: "\<lfloor>x\<rfloor> \<le> \<lfloor>y\<rfloor>" by (rule floor_mono)
  show ?thesis
  proof (cases "\<lfloor>x\<rfloor> = \<lfloor>y\<rfloor>")
    case True
    with \<open>x \<le> y\<close> show ?thesis by (auto simp: round_even_def Let_def)
  next
    case False
    with f show ?thesis by (auto simp: round_even_def Let_def)
  qed
qed

lemma round_even_of_int [simp]: "round_even (of_int k) = k"
  by (simp add: round_even_def)

lemma power2_le_rat: "2 ^ k \<le> n \<Longrightarrow> (2::rat) ^ k \<le> of_nat n"
  and rat_le_power2: "n < 2 ^ k \<Longrightarrow> of_nat n + 1 \<le> (2::rat) ^ k"
proof -
  assume "2 ^ k \<le> n"
  then have "of_nat (2 ^ k) \<le> (of_nat n :: rat)" by (simp only: of_nat_le_iff)
  then show "(2::rat) ^ k \<le> of_nat n" by simp
next
  assume "n < 2 ^ k"
  then have "of_nat (Suc n) \<le> (of_nat (2 ^ k) :: rat)" by (simp only: of_nat_le_iff Suc_le_eq)
  then show "of_nat n + 1 \<le> (2::rat) ^ k" by simp
qed

lemma exponent_bounds:
  assumes "0 < x"
  shows "2 powi exponent x \<le> x" and "x < 2 powi (exponent x + 1)"
proof -
  have "2 powi exponent x \<le> x \<and> x < 2 powi (exponent x + 1)"
  proof (cases "1 \<le> x")
    case True
    define n where "n = nat \<lfloor>x\<rfloor>"
    from True have n: "0 < n" and nx: "of_nat n \<le> x" "x < of_nat n + 1"
      by (simp_all add: n_def) linarith
    from floorlog_bounds [OF n, of 2]
    have b: "2 ^ (floorlog 2 n - 1) \<le> n" "n < 2 ^ floorlog 2 n" by auto
    from n have fl: "0 < floorlog 2 n" by (simp add: floorlog_def)
    from power2_le_rat [OF b(1)] nx have lo: "(2::rat) ^ (floorlog 2 n - 1) \<le> x" by linarith
    from rat_le_power2 [OF b(2)] nx have hi: "x < (2::rat) ^ floorlog 2 n" by linarith
    have e: "exponent x = int (floorlog 2 n - 1)" using True fl
      by (simp add: exponent_def n_def)
    then have e1: "exponent x + 1 = int (floorlog 2 n)" using fl by simp
    show ?thesis using lo hi by (simp only: e1) (simp only: e power_int_of_nat)
  next
    case False
    define n where "n = nat (\<lceil>1 / x\<rceil> - 1)"
    from False assms have x1: "1 < 1 / x" by simp
    then have n: "0 < n" and nx: "of_nat n < 1 / x" "1 / x \<le> of_nat n + 1"
      by (simp_all add: n_def) linarith+
    from floorlog_bounds [OF n, of 2]
    have b: "2 ^ (floorlog 2 n - 1) \<le> n" "n < 2 ^ floorlog 2 n" by auto
    from n have fl: "0 < floorlog 2 n" by (simp add: floorlog_def)
    from power2_le_rat [OF b(1)] nx have lo: "(2::rat) ^ (floorlog 2 n - 1) < 1 / x" by linarith
    from rat_le_power2 [OF b(2)] nx have hi: "1 / x \<le> (2::rat) ^ floorlog 2 n" by linarith
    have e: "exponent x = - int (floorlog 2 n)" using False by (simp add: exponent_def n_def)
    from hi assms have "1 / 2 ^ floorlog 2 n \<le> x" by (simp add: field_simps)
    moreover from lo assms have "x < 1 / 2 ^ (floorlog 2 n - 1)" by (simp add: field_simps)
    moreover have "(2::rat) powi (- int (floorlog 2 n)) = 1 / 2 ^ floorlog 2 n"
      by (simp add: power_int_minus divide_inverse)
    moreover have "- int (floorlog 2 n) + 1 = - int (floorlog 2 n - 1)" using fl by simp
    then have "(2::rat) powi (- int (floorlog 2 n) + 1) = 1 / 2 ^ (floorlog 2 n - 1)"
      by (simp only: power_int_minus power_int_of_nat divide_inverse mult_1)
    ultimately show ?thesis by (simp add: e)
  qed
  then show "2 powi exponent x \<le> x" and "x < 2 powi (exponent x + 1)" by auto
qed

lemma ulp_pos [simp]: "0 < ulp x"
  by (simp add: ulp_def)

lemma powi_mono: "m \<le> n \<Longrightarrow> (2::rat) powi m \<le> 2 powi n"
  by (rule power_int_increasing) auto

lemma powi_less_iff: "(2::rat) powi m < 2 powi n \<longleftrightarrow> m < n"
  by (meson not_le powi_mono power_int_strict_increasing one_less_numeral_iff semiring_norm(76))

lemma exponent_mono:
  assumes "0 < x" and "x \<le> y"
  shows "exponent x \<le> exponent y"
proof -
  from assms have "(2::rat) powi exponent x < 2 powi (exponent y + 1)"
    using exponent_bounds [of x] exponent_bounds [of y] by linarith
  then show ?thesis by (simp add: powi_less_iff)
qed

lemma ulp_scale: "(2::rat) powi (exponent x + k) = of_int (2 ^ 52) * 2 powi k * ulp x"
proof -
  have "exponent x + k = 52 + k + (exponent x - 52)" by simp
  then have "(2::rat) powi (exponent x + k) = 2 powi (52 + k) * ulp x"
    unfolding ulp_def by (metis power_int_add zero_neq_numeral)
  then show ?thesis by (simp add: power_int_add)
qed

text \<open>Rounding a positive number stays between the powers of two around it.\<close>

lemma round64_binade:
  assumes "0 < x"
  shows "2 powi exponent x \<le> round64 x" and "round64 x \<le> 2 powi (exponent x + 1)"
proof -
  have r: "round64 x = of_int (round_even (x / ulp x)) * ulp x"
    using assms by (simp add: round64_def)
  have "of_int (2 ^ 52) \<le> x / ulp x"
    using exponent_bounds(1) [OF assms] ulp_scale [of x 0] by (simp add: field_simps)
  from round_even_mono [OF this] have "(2 :: int) ^ 52 \<le> round_even (x / ulp x)"
    by (metis round_even_of_int)
  then have "of_int (2 ^ 52) * ulp x \<le> round64 x"
    unfolding r by (intro mult_right_mono) (simp_all only: of_int_le_iff less_imp_le ulp_pos)
  then show "2 powi exponent x \<le> round64 x" using ulp_scale [of x 0] by simp
  have "x / ulp x \<le> of_int (2 ^ 53)"
    using exponent_bounds(2) [OF assms] ulp_scale [of x 1] by (simp add: field_simps)
  from round_even_mono [OF this] have "round_even (x / ulp x) \<le> (2 :: int) ^ 53"
    by (metis round_even_of_int)
  then have "round64 x \<le> of_int (2 ^ 53) * ulp x"
    unfolding r by (intro mult_right_mono) (simp_all only: of_int_le_iff less_imp_le ulp_pos)
  then show "round64 x \<le> 2 powi (exponent x + 1)" using ulp_scale [of x 1] by simp
qed

lemma round64_zero [simp]: "round64 0 = 0"
  by (simp add: round64_def)

lemma round64_uminus [simp]: "round64 (- x) = - round64 x"
  by (simp add: round64_def)

lemma round64_pos: "0 < x \<Longrightarrow> 0 < round64 x"
  using round64_binade(1) [of x] by (meson less_le_trans zero_less_numeral zero_less_power_int)

lemma round64_mono_pos:
  assumes "0 < x" and "x \<le> y"
  shows "round64 x \<le> round64 y"
proof (cases "exponent x = exponent y")
  case True
  then have "ulp x = ulp y" by (simp add: ulp_def)
  moreover from assms have "round_even (x / ulp y) \<le> round_even (y / ulp y)"
    by (intro round_even_mono divide_right_mono) (simp_all add: less_imp_le)
  ultimately show ?thesis using assms by (simp add: round64_def)
next
  case False
  with exponent_mono [OF assms] have "exponent x + 1 \<le> exponent y" by simp
  then have "(2::rat) powi (exponent x + 1) \<le> 2 powi exponent y" by (rule powi_mono)
  then show ?thesis using round64_binade(2) [of x] round64_binade(1) [of y] assms by linarith
qed

lemma round64_mono:
  assumes "x \<le> y"
  shows "round64 x \<le> round64 y"
proof -
  consider "0 < x" | "x \<le> 0" "0 \<le> y" | "y < 0" using assms by linarith
  then show ?thesis
  proof cases
    case 1
    from this assms show ?thesis by (rule round64_mono_pos)
  next
    case 2
    have "round64 x \<le> 0"
      using 2 round64_pos [of "- x"] by (cases "x = 0") auto
    moreover have "0 \<le> round64 y"
      using 2 round64_pos [of y] by (cases "y = 0") auto
    ultimately show ?thesis by simp
  next
    case 3
    with assms round64_mono_pos [of "- y" "- x"] show ?thesis by simp
  qed
qed

text \<open>A number with at most 53 significant bits is not changed.\<close>

lemma round64_exact:
  assumes "0 < x" and "x = of_int k * ulp x"
  shows "round64 x = x"
proof -
  from assms have "x / ulp x = of_int k" by (metis nonzero_mult_div_cancel_right ulp_pos less_irrefl)
  with assms show ?thesis by (simp add: round64_def)
qed

lemma round64_int:
  assumes "0 \<le> k" and "k \<le> 2 ^ 53"
  shows "round64 (of_int k) = of_int k"
proof (cases "k = 0 \<or> k = 2 ^ 53")
  case True
  have "exponent (of_int (2 ^ 53)) = 53"
    by (simp add: exponent_def floorlog_eq_zero_iff compute_floorlog)
  then have "round64 (of_int (2 ^ 53)) = of_int (2 ^ 53)"
    by (intro round64_exact [where k = "2 ^ 52"]) (simp_all add: ulp_def)
  with True show ?thesis by auto
next
  case False
  with assms have k: "0 < k" "k < 2 ^ 53" by auto
  then have "(of_int k :: rat) < of_int (2 ^ 53)" by (simp only: of_int_less_iff)
  then have "(of_int k :: rat) < 2 powi 53" by simp
  with k have "(2::rat) powi exponent (of_int k) < 2 powi 53"
    using exponent_bounds(1) [of "of_int k"] by simp
  then have "exponent (of_int k) \<le> 52" by (simp only: powi_less_iff)
  then obtain m where m: "52 = exponent (of_int k) + int m"
    by (metis zle_iff_zadd)
  then have "exponent (of_int k) - 52 = - int m" by simp
  then have "ulp (of_int k) = 2 powi (- int m)" by (simp only: ulp_def)
  then have "(of_int k :: rat) = of_int (k * 2 ^ m) * ulp (of_int k)"
    by (simp add: power_int_minus)
  with k(1) show ?thesis by (intro round64_exact [where k = "k * 2 ^ m"]) simp_all
qed

lemma round64_half [simp]: "round64 (1 / 2) = 1 / 2"
proof (rule round64_exact)
  have "exponent (1 / 2) = - 1" by (simp add: exponent_def compute_floorlog)
  then show "1 / 2 = of_int (2 ^ 52) * ulp (1 / 2)" by (simp add: ulp_def power_int_minus)
qed simp

section \<open>The retry policy and its delay\<close>

record RetryPolicy =
  rp_MaxAttempts :: i32
  rp_InitialInterval :: int
  rp_BackoffCoefficient :: rat
  rp_MaxInterval :: int

definition DefaultRetryPolicy :: RetryPolicy where
  "DefaultRetryPolicy = \<lparr>rp_MaxAttempts = 3, rp_InitialInterval = 10 ^ 9,
     rp_BackoffCoefficient = 2, rp_MaxInterval = 60 * 10 ^ 9\<rparr>"

text \<open>
  \<open>math.Pow(x, float64(n))\<close> for an integral exponent: the rounded power. Go multiplies the
  mantissa out by squaring, which is exact for the coefficient 2.0 of the only policy there is.
\<close>

definition math_Pow :: "(rat \<Rightarrow> rat) \<Rightarrow> rat \<Rightarrow> int \<Rightarrow> rat" where
  "math_Pow rnd x n = rnd (x powi n)"

definition retry_backoff :: "(rat \<Rightarrow> rat) \<Rightarrow> RetryPolicy \<Rightarrow> i32 \<Rightarrow> rat" where
  "retry_backoff rnd policy attempt =
     (let backoff = rnd (rnd (of_int (rp_InitialInterval policy)) *
                         math_Pow rnd (rp_BackoffCoefficient policy) (sint (attempt - 1)))
      in if backoff > rnd (of_int (rp_MaxInterval policy)) then rnd (of_int (rp_MaxInterval policy))
         else backoff)"

text \<open>The conversion to \<open>time.Duration\<close> truncates towards zero.\<close>

definition truncate_rat :: "rat \<Rightarrow> int" where
  "truncate_rat x = (if x < 0 then \<lceil>x\<rceil> else \<lfloor>x\<rfloor>)"

definition retry_delay :: "(rat \<Rightarrow> rat) \<Rightarrow> RetryPolicy \<Rightarrow> i32 \<Rightarrow> rat \<Rightarrow> int" where
  "retry_delay rnd policy attempt r =
     truncate_rat (rnd (retry_backoff rnd policy attempt * rnd (1 / 2 + rnd (r * (1 / 2)))))"

definition netxtRetryDelay :: "RetryPolicy \<Rightarrow> i32 \<Rightarrow> int M" where
  "netxtRetryDelay policy attempt =
     bindM rand_Float64 (\<lambda>r. returnM (retry_delay round64 policy attempt r))"

text \<open>
  What the delay relies on of floating-point rounding: it is monotone and leaves the integers of
  up to 53 bits and one half alone. The bounds of the delay follow from that alone.
\<close>

locale float_rounding =
  fixes rnd :: "rat \<Rightarrow> rat"
  assumes rnd_mono: "x \<le> y \<Longrightarrow> rnd x \<le> rnd y"
    and rnd_int: "0 \<le> k \<Longrightarrow> k \<le> 2 ^ 53 \<Longrightarrow> rnd (of_int k) = of_int k"
    and rnd_half: "rnd (1 / 2) = 1 / 2"
begin

lemma rnd_0: "rnd 0 = 0" and rnd_1: "rnd 1 = 1"
  using rnd_int [of 0] rnd_int [of 1] by simp_all

lemma jitter_bounds:
  assumes "0 \<le> r" and "r < 1"
  shows "1 / 2 \<le> rnd (1 / 2 + rnd (r * (1 / 2)))" and "rnd (1 / 2 + rnd (r * (1 / 2))) \<le> 1"
proof -
  have "rnd 0 \<le> rnd (r * (1 / 2))" and "rnd (r * (1 / 2)) \<le> rnd (1 / 2)"
    using assms by (auto intro: rnd_mono)
  then have "0 \<le> rnd (r * (1 / 2))" and "rnd (r * (1 / 2)) \<le> 1 / 2"
    by (simp_all add: rnd_0 rnd_half)
  then have "rnd (1 / 2) \<le> rnd (1 / 2 + rnd (r * (1 / 2)))" and
    "rnd (1 / 2 + rnd (r * (1 / 2))) \<le> rnd 1"
    by (auto intro: rnd_mono)
  then show "1 / 2 \<le> rnd (1 / 2 + rnd (r * (1 / 2)))" and "rnd (1 / 2 + rnd (r * (1 / 2))) \<le> 1"
    by (simp_all only: rnd_half rnd_1)
qed

text \<open>A backoff of an even number of nanoseconds is spread over its upper half.\<close>

lemma delay_bounds:
  assumes r: "0 \<le> r" "r < 1" and b: "retry_backoff rnd policy attempt = of_int (2 * h)"
    and h: "0 \<le> h" "h \<le> 2 ^ 52"
  shows "h \<le> retry_delay rnd policy attempt r" and "retry_delay rnd policy attempt r \<le> 2 * h"
proof -
  define f where "f = rnd (1 / 2 + rnd (r * (1 / 2)))"
  have f: "1 / 2 \<le> f" "f \<le> 1" using jitter_bounds [OF r] by (simp_all add: f_def)
  have h0: "(0::rat) \<le> of_int h" using h by simp
  have "of_int h \<le> of_int (2 * h) * f" and "of_int (2 * h) * f \<le> of_int (2 * h)"
    using mult_left_mono [OF f(1) h0] mult_left_mono [OF f(2) h0] by simp_all
  then have "rnd (of_int h) \<le> rnd (of_int (2 * h) * f)" and
    "rnd (of_int (2 * h) * f) \<le> rnd (of_int (2 * h))"
    by (auto intro: rnd_mono)
  then have lo: "of_int h \<le> rnd (of_int (2 * h) * f)" and hi: "rnd (of_int (2 * h) * f) \<le> of_int (2 * h)"
    using rnd_int [of h] rnd_int [of "2 * h"] h by simp_all
  have e: "retry_delay rnd policy attempt r = \<lfloor>rnd (of_int (2 * h) * f)\<rfloor>"
    using lo h0 unfolding retry_delay_def b f_def [symmetric] truncate_rat_def by auto
  from lo show "h \<le> retry_delay rnd policy attempt r" by (simp only: e le_floor_iff)
  from floor_mono [OF hi] show "retry_delay rnd policy attempt r \<le> 2 * h" by (simp only: e floor_of_int)
qed

text \<open>The default policy doubles from one second and stops at one minute.\<close>

lemma default_backoff:
  assumes "attempt = of_nat n + 1" and "n < 16"
  shows "retry_backoff rnd DefaultRetryPolicy attempt = of_int (min (10 ^ 9 * 2 ^ n) (60 * 10 ^ 9))"
proof -
  have "attempt - 1 = word_of_int (int n)" using assms(1) by simp
  moreover have "sint (word_of_int (int n) :: i32) = int n"
    unfolding sint_sbintrunc' using assms(2) by (simp add: signed_take_bit_int_eq_self)
  ultimately have s: "sint (attempt - 1) = int n" by (simp only:)
  have "(2::int) ^ n \<le> 2 ^ 16" using assms(2) by (intro power_increasing) auto
  then have n: "(2::int) ^ n \<le> 65536" by simp
  have p: "rnd (2 powi int n) = of_int (2 ^ n)"
    using rnd_int [of "2 ^ n"] n by simp
  have "rnd (of_int (10 ^ 9)) = of_int (10 ^ 9)" by (rule rnd_int) auto
  moreover have "rnd (of_int (60 * 10 ^ 9)) = of_int (60 * 10 ^ 9)" by (rule rnd_int) auto
  moreover have "rnd (of_int (10 ^ 9 * 2 ^ n)) = of_int (10 ^ 9 * 2 ^ n)"
    using n by (intro rnd_int) auto
  ultimately show ?thesis
    unfolding retry_backoff_def Let_def DefaultRetryPolicy_def math_Pow_def RetryPolicy.simps s p
    by (simp only: of_int_mult [symmetric] of_int_less_iff min_def) auto
qed

end

interpretation float64: float_rounding round64
  by unfold_locales (auto intro: round64_mono round64_int)

end
