(* ===== verification/History.thy ===== *)
theory History
  imports Persistence Retry
begin

text \<open>
  \<open>internal/history/history.go\<close>: the transactions of durable execution, one definition per
  method, statement by statement. The lookups of a method go to the pool and not to its
  transaction, as in the code; the counters are incremented after the commit.
\<close>

section \<open>StartWorkflow\<close>

definition StartWorkflow :: "string \<Rightarrow> string \<Rightarrow> string \<Rightarrow> bytes option \<Rightarrow> string M" where
  "StartWorkflow workflowID workflowType taskQueue input = in_tx (
     bindM (tryM (GetLatestExecution workflowID)) (\<lambda>existing.
     bindM (case existing of
         Inl err \<Rightarrow> if \<not> errors_Is err ErrNotFound
                    then raiseM (Errorf ''get latest execution'' err) else returnM ()
       | Inr ex \<Rightarrow> if we_Status ex = ''Running''
                   then raiseM (Errorf workflowID ErrWorkflowAlreadyRunning) else returnM ()) (\<lambda>_.
     bindM uuid_New (\<lambda>runID.
     bindM (wrapM ''insert workflow execution'' (InsertWorkflowExecution
       (zero_WorkflowExecution\<lparr>
          we_WorkflowID := workflowID,
          we_RunID := runID,
          we_WorkflowType := workflowType,
          we_TaskQueue := taskQueue,
          we_Status := ''Running''\<rparr>))) (\<lambda>_.
     bindM (wrapM ''insert workflow started event'' (InsertEvent
       (zero_Event\<lparr>
          ev_WorkflowID := workflowID,
          ev_RunID := runID,
          ev_EventID := 1,
          ev_EventType := ''WorkflowStarted'',
          ev_ActivityName := '''',
          ev_Data := input\<rparr>))) (\<lambda>_.
     bindM (wrapM ''insert workflow task'' (InsertTask
       (zero_Task\<lparr>
          t_TaskQueue := taskQueue,
          t_TaskType := ''workflow'',
          t_WorkflowType := workflowType,
          t_WorkflowID := workflowID,
          t_RunID := runID,
          t_ScheduledEventID := 1,
          t_Input := input\<rparr>))) (\<lambda>_.
     bindM (wrapM ''commit transaction'' Commit) (\<lambda>_.
     bindM (metricM (\<lambda>m. m\<lparr>WorkflowsStarted := WorkflowsStarted m + 1\<rparr>)) (\<lambda>_.
     returnM runID)))))))))"

section \<open>CompleteWorkflowTask\<close>

text \<open>The durable outcomes counted while the commands are applied.\<close>

record tally =
  n_scheduled :: nat
  n_timersStarted :: nat
  n_completed :: nat
  n_failed :: nat

definition zero_tally :: tally where
  "zero_tally = \<lparr>n_scheduled = 0, n_timersStarted = 0, n_completed = 0, n_failed = 0\<rparr>"

text \<open>\<open>time.Duration(ms) * time.Millisecond\<close> is a product of \<open>int64\<close> values and wraps around.\<close>

definition duration_of_ms :: "i64 \<Rightarrow> int" where
  "duration_of_ms ms = sint (ms * 1000000)"

text \<open>One iteration of the loop over the commands, from the next event ID and the tally.\<close>

definition apply_command ::
  "WorkflowExecution \<Rightarrow> string \<Rightarrow> string \<Rightarrow> Command \<Rightarrow> int \<times> tally \<Rightarrow> (int \<times> tally) M" where
  "apply_command exec workflowID runID cmd = (\<lambda>(nextEventID, counts).
     if c_Type cmd = ''ScheduleActivity'' then
       bindM (wrapM ''insert activity scheduled event'' (InsertEvent
         (zero_Event\<lparr>
            ev_WorkflowID := workflowID,
            ev_RunID := runID,
            ev_EventID := nextEventID,
            ev_EventType := ''ActivityScheduled'',
            ev_ActivityName := c_ActivityName cmd,
            ev_ActivityIndex := c_ActivityIndex cmd,
            ev_Data := c_Input cmd\<rparr>))) (\<lambda>_.
       bindM (wrapM ''insert activity task'' (InsertTask
         (zero_Task\<lparr>
            t_TaskQueue := c_TaskQueue cmd,
            t_TaskType := ''activity'',
            t_WorkflowType := we_WorkflowType exec,
            t_WorkflowID := workflowID,
            t_RunID := runID,
            t_ScheduledEventID := nextEventID,
            t_ActivityName := c_ActivityName cmd,
            t_ActivityIndex := c_ActivityIndex cmd,
            t_Attempt := 1,
            t_MaxAttempts := rp_MaxAttempts DefaultRetryPolicy,
            t_Input := c_Input cmd\<rparr>))) (\<lambda>_.
       returnM (nextEventID + 1, counts\<lparr>n_scheduled := n_scheduled counts + 1\<rparr>)))
     else if c_Type cmd = ''StartTimer'' then
       bindM (wrapM ''insert timer started event'' (InsertEvent
         (zero_Event\<lparr>
            ev_WorkflowID := workflowID,
            ev_RunID := runID,
            ev_EventID := nextEventID,
            ev_EventType := ''TimerStarted'',
            ev_TimerIndex := c_TimerIndex cmd\<rparr>))) (\<lambda>_.
       bindM time_Now (\<lambda>now.
       bindM (wrapM ''insert timer'' (InsertTimer
         (zero_Timer\<lparr>
            tm_WorkflowID := workflowID,
            tm_RunID := runID,
            tm_TimerIndex := c_TimerIndex cmd,
            tm_FireAt := now + duration_of_ms (c_DurationMs cmd)\<rparr>))) (\<lambda>_.
       returnM (nextEventID + 1, counts\<lparr>n_timersStarted := n_timersStarted counts + 1\<rparr>))))
     else if c_Type cmd = ''CompleteWorkflow'' then
       bindM (wrapM ''insert workflow completed event'' (InsertEvent
         (zero_Event\<lparr>
            ev_WorkflowID := workflowID,
            ev_RunID := runID,
            ev_EventID := nextEventID,
            ev_EventType := ''WorkflowCompleted'',
            ev_Data := c_Input cmd\<rparr>))) (\<lambda>_.
       bindM (wrapM ''update workflow status''
         (UpdateWorkflowStatus workflowID runID ''Completed'')) (\<lambda>_.
       returnM (nextEventID, counts\<lparr>n_completed := n_completed counts + 1\<rparr>)))
     else if c_Type cmd = ''FailWorkflow'' then
       bindM (wrapM ''insert workflow failed event'' (InsertEvent
         (zero_Event\<lparr>
            ev_WorkflowID := workflowID,
            ev_RunID := runID,
            ev_EventID := nextEventID,
            ev_EventType := ''WorkflowFailed'',
            ev_ActivityName := c_ActivityName cmd,
            ev_Data := c_Input cmd\<rparr>))) (\<lambda>_.
       bindM (wrapM ''update workflow status''
         (UpdateWorkflowStatus workflowID runID ''Failed'')) (\<lambda>_.
       returnM (nextEventID, counts\<lparr>n_failed := n_failed counts + 1\<rparr>)))
     else returnM (nextEventID, counts))"

fun apply_commands ::
  "WorkflowExecution \<Rightarrow> string \<Rightarrow> string \<Rightarrow> Command list \<Rightarrow> int \<times> tally \<Rightarrow> (int \<times> tally) M" where
  "apply_commands exec workflowID runID [] st = returnM st"
| "apply_commands exec workflowID runID (cmd # cmds) st =
     bindM (apply_command exec workflowID runID cmd st) (apply_commands exec workflowID runID cmds)"

definition count_outcomes :: "tally \<Rightarrow> metrics \<Rightarrow> metrics" where
  "count_outcomes counts m = m\<lparr>
     ActivitiesScheduled := ActivitiesScheduled m + n_scheduled counts,
     TimersStarted := TimersStarted m + n_timersStarted counts,
     WorkflowsTerminated := (WorkflowsTerminated m)(
       ''completed'' := WorkflowsTerminated m ''completed'' + n_completed counts,
       ''failed'' := WorkflowsTerminated m ''failed'' + n_failed counts)\<rparr>"

definition CompleteWorkflowTask :: "int \<Rightarrow> string \<Rightarrow> string \<Rightarrow> Command list \<Rightarrow> unit M" where
  "CompleteWorkflowTask taskID workflowID runID commands = in_tx (
     bindM (wrapM ''get workflow execution'' (GetWorkflowExecution workflowID runID)) (\<lambda>exec.
     if we_Status exec \<noteq> ''Running'' then
       bindM (wrapM ''complete workflow task'' (CompleteTask taskID)) (\<lambda>_.
       Commit)
     else
       bindM (wrapM ''get events'' (GetEvents workflowID runID)) (\<lambda>evs.
       bindM (apply_commands exec workflowID runID commands (int (length evs) + 1, zero_tally))
         (\<lambda>(nextEventID, counts).
       bindM (wrapM ''complete workflow task'' (CompleteTask taskID)) (\<lambda>_.
       bindM (wrapM ''commit transaction'' Commit) (\<lambda>_.
       metricM (count_outcomes counts)))))))"

section \<open>CompleteActivityTask and FailActivityTask\<close>

definition CompleteActivityTask :: "int \<Rightarrow> string \<Rightarrow> string \<Rightarrow> bytes option \<Rightarrow> unit M" where
  "CompleteActivityTask taskID workflowID runID result = in_tx (
     bindM (wrapM ''get task'' (GetTask taskID)) (\<lambda>task.
     bindM (wrapM ''get events'' (GetEvents workflowID runID)) (\<lambda>evs.
     let nextEventID = int (length evs) + 1 in
     bindM (wrapM ''insert activity completed event'' (InsertEvent
       (zero_Event\<lparr>
          ev_WorkflowID := workflowID,
          ev_RunID := runID,
          ev_EventID := nextEventID,
          ev_EventType := ''ActivityCompleted'',
          ev_ActivityName := t_ActivityName task,
          ev_ActivityIndex := t_ActivityIndex task,
          ev_Data := result\<rparr>))) (\<lambda>_.
     bindM (wrapM ''complete activity task'' (CompleteTask taskID)) (\<lambda>_.
     bindM (wrapM ''get workflow execution'' (GetWorkflowExecution workflowID runID)) (\<lambda>exec.
     bindM (wrapM ''insert workflow task'' (InsertTask
       (zero_Task\<lparr>
          t_TaskQueue := we_TaskQueue exec,
          t_TaskType := ''workflow'',
          t_WorkflowType := we_WorkflowType exec,
          t_WorkflowID := we_WorkflowID exec,
          t_RunID := we_RunID exec,
          t_ScheduledEventID := nextEventID\<rparr>))) (\<lambda>_.
     bindM (wrapM ''commit transaction'' Commit) (\<lambda>_.
     metricM (\<lambda>m. m\<lparr>ActivitiesFinished := (ActivitiesFinished m)
       (''completed'' := ActivitiesFinished m ''completed'' + 1)\<rparr>)))))))))"

definition FailActivityTask :: "int \<Rightarrow> string \<Rightarrow> string \<Rightarrow> string \<Rightarrow> unit M" where
  "FailActivityTask taskID workflowID runID errMsg = in_tx (
     bindM (wrapM ''get task'' (GetTask taskID)) (\<lambda>task.
     if sint (t_Attempt task) < sint (t_MaxAttempts task) then
       bindM (netxtRetryDelay DefaultRetryPolicy (t_Attempt task)) (\<lambda>delay.
       bindM (wrapM ''complete failed activity task'' (CompleteTask taskID)) (\<lambda>_.
       bindM time_Now (\<lambda>now.
       bindM (wrapM ''reschedule activity'' (InsertTask
         (zero_Task\<lparr>
            t_TaskQueue := t_TaskQueue task,
            t_TaskType := ''activity'',
            t_WorkflowType := t_WorkflowType task,
            t_WorkflowID := t_WorkflowID task,
            t_RunID := t_RunID task,
            t_ScheduledEventID := t_ScheduledEventID task,
            t_ActivityName := t_ActivityName task,
            t_ActivityIndex := t_ActivityIndex task,
            t_Input := t_Input task,
            t_Attempt := t_Attempt task + 1,
            t_MaxAttempts := t_MaxAttempts task,
            t_VisibilityTime := now + delay\<rparr>))) (\<lambda>_.
       bindM (wrapM ''commit transaction'' Commit) (\<lambda>_.
       metricM (\<lambda>m. m\<lparr>ActivityRetries := ActivityRetries m + 1\<rparr>))))))
     else
       bindM (wrapM ''get events'' (GetEvents workflowID runID)) (\<lambda>evs.
       let nextEventID = int (length evs) + 1 in
       bindM (wrapM ''insert activity failed event'' (InsertEvent
         (zero_Event\<lparr>
            ev_WorkflowID := workflowID,
            ev_RunID := runID,
            ev_EventID := nextEventID,
            ev_EventType := ''ActivityFailed'',
            ev_ActivityName := t_ActivityName task,
            ev_ActivityIndex := t_ActivityIndex task,
            ev_Data := Some errMsg\<rparr>))) (\<lambda>_.
       bindM (wrapM ''complete failed activity task'' (CompleteTask taskID)) (\<lambda>_.
       bindM (wrapM ''get workflow execution'' (GetWorkflowExecution workflowID runID)) (\<lambda>exec.
       bindM (wrapM ''insert workflow task'' (InsertTask
         (zero_Task\<lparr>
            t_TaskQueue := we_TaskQueue exec,
            t_TaskType := ''workflow'',
            t_WorkflowType := we_WorkflowType exec,
            t_WorkflowID := workflowID,
            t_RunID := runID,
            t_ScheduledEventID := nextEventID\<rparr>))) (\<lambda>_.
       bindM (wrapM ''commit transaction'' Commit) (\<lambda>_.
       metricM (\<lambda>m. m\<lparr>ActivitiesFinished := (ActivitiesFinished m)
         (''failed'' := ActivitiesFinished m ''failed'' + 1)\<rparr>)))))))))"

section \<open>ScanTimers\<close>

definition fire_timer :: "Timer \<Rightarrow> unit M" where
  "fire_timer timer =
     bindM (wrapM ''get events'' (GetEvents (tm_WorkflowID timer) (tm_RunID timer))) (\<lambda>evs.
     let nextEventID = int (length evs) + 1 in
     bindM (wrapM ''insert timer fired event'' (InsertEvent
       (zero_Event\<lparr>
          ev_WorkflowID := tm_WorkflowID timer,
          ev_RunID := tm_RunID timer,
          ev_EventID := nextEventID,
          ev_EventType := ''TimerFired'',
          ev_TimerIndex := tm_TimerIndex timer\<rparr>))) (\<lambda>_.
     bindM (wrapM ''mark timer fired'' (MarkTimerFired (tm_ID timer))) (\<lambda>_.
     bindM (wrapM ''get workflow execution''
       (GetWorkflowExecution (tm_WorkflowID timer) (tm_RunID timer))) (\<lambda>exec.
     wrapM ''insert workflow task'' (InsertTask
       (zero_Task\<lparr>
          t_TaskQueue := we_TaskQueue exec,
          t_TaskType := ''workflow'',
          t_WorkflowType := we_WorkflowType exec,
          t_WorkflowID := tm_WorkflowID timer,
          t_RunID := tm_RunID timer,
          t_ScheduledEventID := nextEventID\<rparr>))))))"

fun fire_timers :: "Timer list \<Rightarrow> unit M" where
  "fire_timers [] = returnM ()"
| "fire_timers (t # ts) = bindM (fire_timer t) (\<lambda>_. fire_timers ts)"

definition ScanTimers :: "unit M" where
  "ScanTimers = in_tx (
     bindM (wrapM ''get due timers'' GetDueTimers) (\<lambda>dueTimers.
     bindM (fire_timers dueTimers) (\<lambda>_.
     bindM (wrapM ''commit transaction'' Commit) (\<lambda>_.
     metricM (\<lambda>m. m\<lparr>TimersFired := TimersFired m + length dueTimers\<rparr>)))))"

section \<open>SignalWorkflow\<close>

text \<open>The method from the point where the run ID is known.\<close>

definition signal_run :: "string \<Rightarrow> string \<Rightarrow> string \<Rightarrow> bytes option \<Rightarrow> unit M" where
  "signal_run workflowID runID signalName input =
     in_tx (
     bindM (wrapM ''get workflow execution'' (GetWorkflowExecution workflowID runID)) (\<lambda>exec.
     if we_Status exec \<noteq> ''Running'' then
       raiseM (Errorf (''status '' @ we_Status exec) ErrWorkflowNotRunning)
     else
       bindM (wrapM ''get events'' (GetEvents workflowID runID)) (\<lambda>evs.
       let nextEventID = int (length evs) + 1 in
       bindM (wrapM ''insert signal received event'' (InsertEvent
         (zero_Event\<lparr>
            ev_WorkflowID := workflowID,
            ev_RunID := runID,
            ev_EventID := nextEventID,
            ev_EventType := ''SignalReceived'',
            ev_SignalName := signalName,
            ev_Data := input\<rparr>))) (\<lambda>_.
       bindM (wrapM ''insert workflow task'' (InsertWorkflowTaskIfNotExists
         (zero_Task\<lparr>
            t_TaskQueue := we_TaskQueue exec,
            t_TaskType := ''workflow'',
            t_WorkflowType := we_WorkflowType exec,
            t_WorkflowID := workflowID,
            t_RunID := runID,
            t_ScheduledEventID := nextEventID\<rparr>))) (\<lambda>_.
       bindM (wrapM ''commit transaction'' Commit) (\<lambda>_.
       metricM (\<lambda>m. m\<lparr>SignalsDelivered := SignalsDelivered m + 1\<rparr>)))))))"

definition SignalWorkflow :: "string \<Rightarrow> string \<Rightarrow> string \<Rightarrow> bytes option \<Rightarrow> unit M" where
  "SignalWorkflow workflowID runID0 signalName input =
     bindM (if runID0 = '''' then
         bindM (wrapM ''get latest execution'' (GetLatestExecution workflowID)) (\<lambda>exec.
         returnM (we_RunID exec))
       else returnM runID0) (\<lambda>runID.
     signal_run workflowID runID signalName input)"

end
