(* ===== verification/HistoryEffects.thy ===== *)
theory HistoryEffects
  imports Effects History
begin

text \<open>
  What each method of \<open>history\<close> does to the committed tables, as a relation between the sessions
  before and after it. A method that reports an error has committed nothing, or its COMMIT was
  applied and only the acknowledgement was lost; in both cases no counter moves.
\<close>

definition run_events :: "string \<Rightarrow> string \<Rightarrow> tables \<Rightarrow> Event list" where
  "run_events wid rid T = filter (is_event_of wid rid) (events T)"

definition next_event_id :: "string \<Rightarrow> string \<Rightarrow> tables \<Rightarrow> int" where
  "next_event_id wid rid T = int (length (run_events wid rid T)) + 1"

definition find_execution :: "string \<Rightarrow> string \<Rightarrow> tables \<Rightarrow> WorkflowExecution option" where
  "find_execution wid rid T = List.find (is_execution wid rid) (executions T)"

definition find_task :: "int \<Rightarrow> tables \<Rightarrow> Task option" where
  "find_task i T = List.find (\<lambda>t. t_ID t = i) (tasks T)"

definition has_workflow_task :: "string \<Rightarrow> string \<Rightarrow> tables \<Rightarrow> bool" where
  "has_workflow_task wid rid T \<longleftrightarrow> (\<exists>t \<in> set (tasks T). t_WorkflowID t = wid \<and> t_RunID t = rid \<and>
     t_TaskType t = ''workflow'')"

definition begin_now :: "env \<Rightarrow> sess \<Rightarrow> time" where
  "begin_now E s = e_db_now E (s_tick s)"

lemma length_select_events [simp]:
  "int (length (select_events r wid rid T)) + 1 = next_event_id wid rid T"
  by (simp add: select_events_def next_event_id_def run_events_def)

text \<open>The event a method appends to a run, and the workflow task that makes the run replay.\<close>

definition new_event :: "env \<Rightarrow> sess \<Rightarrow> string \<Rightarrow> Event \<Rightarrow> sql_write" where
  "new_event E s u e = InsertEventRow (event_row e (event_seq (s_store s) + 1) u (begin_now E s))"

definition new_task :: "env \<Rightarrow> sess \<Rightarrow> string \<Rightarrow> Task \<Rightarrow> sql_write" where
  "new_task E s u t = InsertTaskRow (task_row E t (task_seq (s_store s) + 1) u)"

definition replay_task :: "WorkflowExecution \<Rightarrow> string \<Rightarrow> string \<Rightarrow> int \<Rightarrow> Task" where
  "replay_task x wid rid n = zero_Task\<lparr>
     t_TaskQueue := we_TaskQueue x,
     t_TaskType := ''workflow'',
     t_WorkflowType := we_WorkflowType x,
     t_WorkflowID := wid,
     t_RunID := rid,
     t_ScheduledEventID := n\<rparr>"

definition effect_spec :: "(metrics \<Rightarrow> metrics) \<Rightarrow> (sess \<Rightarrow> bool) \<Rightarrow> env \<Rightarrow> sess \<Rightarrow> 'a M \<Rightarrow> bool" where
  "effect_spec inc eff E s m \<longleftrightarrow> wp m E s
     (\<lambda>_ s'. eff s' \<and> s_metrics s' = inc (s_metrics s))
     (\<lambda>_ s'. quiet s s' \<or> eff s' \<and> s_metrics s' = s_metrics s)"

lemmas history_simps = session_simps effect_spec_def new_event_def new_task_def replay_task_def
  find_execution_def find_task_def begin_now_def

section \<open>StartWorkflow\<close>

text \<open>The lookup of the latest execution found none, or one that is not running.\<close>

definition latest_not_running :: "env \<Rightarrow> string \<Rightarrow> tables \<Rightarrow> bool" where
  "latest_not_running E wid T \<longleftrightarrow> (\<exists>n. \<forall>x. latest_execution (e_row_rank E n) wid T = Some x \<longrightarrow>
     we_Status x \<noteq> ''Running'')"

lemma latest_not_running_None:
  "latest_execution (e_row_rank E n) wid T = None \<Longrightarrow> latest_not_running E wid T"
  unfolding latest_not_running_def by (intro exI [of _ n]) simp

lemma latest_not_running_Some:
  "latest_execution (e_row_rank E n) wid T = Some x \<Longrightarrow> we_Status x \<noteq> ''Running'' \<Longrightarrow>
     latest_not_running E wid T"
  unfolding latest_not_running_def by (intro exI [of _ n]) simp

definition StartWorkflow_effect ::
  "env \<Rightarrow> sess \<Rightarrow> string \<Rightarrow> string \<Rightarrow> string \<Rightarrow> bytes option \<Rightarrow> string \<Rightarrow> sess \<Rightarrow> bool" where
  "StartWorkflow_effect E s wid wtype queue input rid s' \<longleftrightarrow>
     (\<exists>u. rid \<in> range (e_new_uuid E) \<and> e_uuid E rid = Some u \<and>
       latest_not_running E wid (tabs (s_store s)) \<and>
       (\<forall>x \<in> set (executions (tabs (s_store s))). \<not> is_execution wid u x) \<and>
       committed
         [InsertExecutionRow (zero_WorkflowExecution\<lparr>we_WorkflowID := wid, we_RunID := u,
            we_WorkflowType := wtype, we_TaskQueue := queue, we_Status := ''Running'',
            we_StartedAt := begin_now E s, we_ClosedAt := None\<rparr>),
          new_event E s u (zero_Event\<lparr>ev_WorkflowID := wid, ev_RunID := rid, ev_EventID := 1,
            ev_EventType := ''WorkflowStarted'', ev_ActivityName := '''', ev_Data := input\<rparr>),
          new_task E s u (zero_Task\<lparr>t_TaskQueue := queue, t_TaskType := ''workflow'',
            t_WorkflowType := wtype, t_WorkflowID := wid, t_RunID := rid, t_ScheduledEventID := 1,
            t_Input := input\<rparr>)] 1 1 0 s s')"

lemma wp_StartWorkflow:
  assumes E: "serial E"
  shows "wp (StartWorkflow wid wtype queue input) E s
     (\<lambda>rid s'. StartWorkflow_effect E s wid wtype queue input rid s' \<and>
        s_metrics s' = (s_metrics s)\<lparr>WorkflowsStarted := WorkflowsStarted (s_metrics s) + 1\<rparr>)
     (\<lambda>_ s'. quiet s s' \<or> (\<exists>rid. StartWorkflow_effect E s wid wtype queue input rid s') \<and>
        s_metrics s' = s_metrics s)"
  unfolding StartWorkflow_def in_tx_def Let_def eval_simps
  by (intro wp_intros E conjI allI impI)
    (auto simp: history_simps StartWorkflow_effect_def zero_WorkflowExecution_def
      intro: latest_not_running_None latest_not_running_Some)

lemma StartWorkflow_rows:
  assumes "StartWorkflow_effect E s wid wtype queue input rid s'"
  shows "\<exists>u. e_uuid E rid = Some u \<and> latest_not_running E wid (tabs (s_store s)) \<and>
    find_execution wid u (tabs (s_store s)) = None \<and>
    executions (tabs (s_store s')) = executions (tabs (s_store s)) @
      [\<lparr>we_WorkflowID = wid, we_RunID = u, we_WorkflowType = wtype, we_TaskQueue = queue,
        we_Status = ''Running'', we_StartedAt = e_db_now E (s_tick s), we_ClosedAt = None\<rparr>] \<and>
    (\<exists>e. events (tabs (s_store s')) = events (tabs (s_store s)) @ [e] \<and> is_event_of wid u e \<and>
      ev_EventID e = 1 \<and> ev_EventType e = ''WorkflowStarted'' \<and>
      ev_Data e = Some (case input of None \<Rightarrow> [] | Some d \<Rightarrow> d)) \<and>
    (\<exists>t. tasks (tabs (s_store s')) = tasks (tabs (s_store s)) @ [t] \<and> t_WorkflowID t = wid \<and>
      t_RunID t = u \<and> t_TaskType t = ''workflow'' \<and> t_TaskQueue t = queue \<and> t_WorkflowType t = wtype \<and>
      t_LeaseOwner t = None \<and> t_VisibilityTime t = e_store_time E zero_time) \<and>
    timers (tabs (s_store s')) = timers (tabs (s_store s))"
  using assms unfolding StartWorkflow_effect_def
  by (auto simp: find_execution_def committed_def new_event_def new_task_def begin_now_def zero_defs is_event_of_def)

section \<open>Activity tasks\<close>

definition CompleteActivityTask_effect ::
  "env \<Rightarrow> sess \<Rightarrow> int \<Rightarrow> string \<Rightarrow> string \<Rightarrow> bytes option \<Rightarrow> sess \<Rightarrow> bool" where
  "CompleteActivityTask_effect E s i wid rid result s' \<longleftrightarrow>
     (\<exists>t x u v. find_task i (tabs (s_store s)) = Some t \<and> e_uuid E rid = Some u \<and> find_execution wid u (tabs (s_store s)) = Some x \<and>
       e_uuid E (we_RunID x) = Some v \<and>
       committed
         [new_event E s u (zero_Event\<lparr>ev_WorkflowID := wid, ev_RunID := rid,
            ev_EventID := next_event_id wid u (tabs (s_store s)), ev_EventType := ''ActivityCompleted'',
            ev_ActivityName := t_ActivityName t, ev_ActivityIndex := t_ActivityIndex t,
            ev_Data := result\<rparr>),
          DeleteTask i,
          new_task E s v (replay_task x (we_WorkflowID x) (we_RunID x) (next_event_id wid u (tabs (s_store s))))] 1 1 0 s s')"

lemma CompleteActivityTask_spec:
  assumes E: "serial E"
  shows "effect_spec (\<lambda>m. m\<lparr>ActivitiesFinished := (ActivitiesFinished m)
         (''completed'' := ActivitiesFinished m ''completed'' + 1)\<rparr>)
       (CompleteActivityTask_effect E s i wid rid result) E s (CompleteActivityTask i wid rid result)"
  unfolding CompleteActivityTask_def in_tx_def Let_def effect_spec_def eval_simps
  by (intro wp_intros E) (auto simp: history_simps CompleteActivityTask_effect_def)

definition RetryActivityTask_effect :: "env \<Rightarrow> sess \<Rightarrow> int \<Rightarrow> Task \<Rightarrow> sess \<Rightarrow> bool" where
  "RetryActivityTask_effect E s i t s' \<longleftrightarrow>
     (\<exists>u j k. e_uuid E (t_RunID t) = Some u \<and>
       committed
         [DeleteTask i,
          new_task E s u (zero_Task\<lparr>t_TaskQueue := t_TaskQueue t, t_TaskType := ''activity'',
            t_WorkflowType := t_WorkflowType t, t_WorkflowID := t_WorkflowID t, t_RunID := t_RunID t,
            t_ScheduledEventID := t_ScheduledEventID t, t_ActivityName := t_ActivityName t,
            t_ActivityIndex := t_ActivityIndex t, t_Input := t_Input t, t_Attempt := t_Attempt t + 1,
            t_MaxAttempts := t_MaxAttempts t,
            t_VisibilityTime := e_go_now E j + retry_delay round64 DefaultRetryPolicy (t_Attempt t) (e_rand E k)\<rparr>)]
         0 1 0 s s')"

definition ExhaustActivityTask_effect ::
  "env \<Rightarrow> sess \<Rightarrow> int \<Rightarrow> string \<Rightarrow> string \<Rightarrow> string \<Rightarrow> Task \<Rightarrow> sess \<Rightarrow> bool" where
  "ExhaustActivityTask_effect E s i wid rid errMsg t s' \<longleftrightarrow>
     (\<exists>x u. e_uuid E rid = Some u \<and> find_execution wid u (tabs (s_store s)) = Some x \<and>
       committed
         [new_event E s u (zero_Event\<lparr>ev_WorkflowID := wid, ev_RunID := rid,
            ev_EventID := next_event_id wid u (tabs (s_store s)), ev_EventType := ''ActivityFailed'',
            ev_ActivityName := t_ActivityName t, ev_ActivityIndex := t_ActivityIndex t,
            ev_Data := Some errMsg\<rparr>),
          DeleteTask i,
          new_task E s u (replay_task x wid rid (next_event_id wid u (tabs (s_store s))))] 1 1 0 s s')"

lemma wp_FailActivityTask:
  assumes E: "serial E"
  shows "wp (FailActivityTask i wid rid errMsg) E s
     (\<lambda>_ s'. \<exists>t. find_task i (tabs (s_store s)) = Some t \<and>
        (if sint (t_Attempt t) < sint (t_MaxAttempts t)
         then RetryActivityTask_effect E s i t s' \<and>
              s_metrics s' = (s_metrics s)\<lparr>ActivityRetries := ActivityRetries (s_metrics s) + 1\<rparr>
         else ExhaustActivityTask_effect E s i wid rid errMsg t s' \<and>
              s_metrics s' = (s_metrics s)\<lparr>ActivitiesFinished := (ActivitiesFinished (s_metrics s))
                (''failed'' := ActivitiesFinished (s_metrics s) ''failed'' + 1)\<rparr>))
     (\<lambda>_ s'. quiet s s' \<or> s_metrics s' = s_metrics s \<and> (\<exists>t. find_task i (tabs (s_store s)) = Some t \<and>
        (if sint (t_Attempt t) < sint (t_MaxAttempts t) then RetryActivityTask_effect E s i t s'
         else ExhaustActivityTask_effect E s i wid rid errMsg t s')))"
  unfolding FailActivityTask_def in_tx_def Let_def netxtRetryDelay_def eval_simps
  by (intro wp_intros E conjI impI)
    (auto simp: history_simps RetryActivityTask_effect_def ExhaustActivityTask_effect_def)

section \<open>Workflow tasks\<close>

text \<open>
  The writes of the command loop, from the values of the three sequences and the next event ID.
  All events and timers go to the run \<open>u\<close>; a command of another type leaves no trace.
\<close>

definition known_command :: "Command \<Rightarrow> bool" where
  "known_command c \<longleftrightarrow>
     c_Type c \<in> {''ScheduleActivity'', ''StartTimer'', ''CompleteWorkflow'', ''FailWorkflow''}"

definition terminal_command :: "Command \<Rightarrow> bool" where
  "terminal_command c \<longleftrightarrow> c_Type c \<in> {''CompleteWorkflow'', ''FailWorkflow''}"

definition count_type :: "string \<Rightarrow> Command list \<Rightarrow> nat" where
  "count_type ty cs = length (filter (\<lambda>c. c_Type c = ty) cs)"

definition tally_of :: "Command list \<Rightarrow> tally" where
  "tally_of cs = \<lparr>n_scheduled = count_type ''ScheduleActivity'' cs,
     n_timersStarted = count_type ''StartTimer'' cs, n_completed = count_type ''CompleteWorkflow'' cs,
     n_failed = count_type ''FailWorkflow'' cs\<rparr>"

definition add_tally :: "tally \<Rightarrow> tally \<Rightarrow> tally" where
  "add_tally a b = \<lparr>n_scheduled = n_scheduled a + n_scheduled b,
     n_timersStarted = n_timersStarted a + n_timersStarted b,
     n_completed = n_completed a + n_completed b, n_failed = n_failed a + n_failed b\<rparr>"

definition ids_used :: "Command list \<Rightarrow> int" where
  "ids_used cs = int (length (filter (\<lambda>c. c_Type c \<in> {''ScheduleActivity'', ''StartTimer''}) cs))"

definition command_event :: "string \<Rightarrow> string \<Rightarrow> int \<Rightarrow> Command \<Rightarrow> Event" where
  "command_event wid rid n c =
     (if c_Type c = ''ScheduleActivity'' then zero_Event\<lparr>ev_WorkflowID := wid, ev_RunID := rid,
        ev_EventID := n, ev_EventType := ''ActivityScheduled'', ev_ActivityName := c_ActivityName c,
        ev_ActivityIndex := c_ActivityIndex c, ev_Data := c_Input c\<rparr>
      else if c_Type c = ''StartTimer'' then zero_Event\<lparr>ev_WorkflowID := wid, ev_RunID := rid,
        ev_EventID := n, ev_EventType := ''TimerStarted'', ev_TimerIndex := c_TimerIndex c\<rparr>
      else if c_Type c = ''CompleteWorkflow'' then zero_Event\<lparr>ev_WorkflowID := wid, ev_RunID := rid,
        ev_EventID := n, ev_EventType := ''WorkflowCompleted'', ev_Data := c_Input c\<rparr>
      else zero_Event\<lparr>ev_WorkflowID := wid, ev_RunID := rid, ev_EventID := n,
        ev_EventType := ''WorkflowFailed'', ev_ActivityName := c_ActivityName c, ev_Data := c_Input c\<rparr>)"

definition activity_task :: "WorkflowExecution \<Rightarrow> string \<Rightarrow> string \<Rightarrow> int \<Rightarrow> Command \<Rightarrow> Task" where
  "activity_task x wid rid n c = zero_Task\<lparr>t_TaskQueue := c_TaskQueue c, t_TaskType := ''activity'',
     t_WorkflowType := we_WorkflowType x, t_WorkflowID := wid, t_RunID := rid, t_ScheduledEventID := n,
     t_ActivityName := c_ActivityName c, t_ActivityIndex := c_ActivityIndex c, t_Attempt := 1,
     t_MaxAttempts := 3, t_Input := c_Input c\<rparr>"

definition command_timer :: "string \<Rightarrow> string \<Rightarrow> time \<Rightarrow> Command \<Rightarrow> Timer" where
  "command_timer wid rid now c = zero_Timer\<lparr>tm_WorkflowID := wid, tm_RunID := rid,
     tm_TimerIndex := c_TimerIndex c, tm_FireAt := now + duration_of_ms (c_DurationMs c)\<rparr>"

fun command_log :: "env \<Rightarrow> WorkflowExecution \<Rightarrow> string \<Rightarrow> string \<Rightarrow> string \<Rightarrow> time \<Rightarrow>
    int \<Rightarrow> int \<Rightarrow> int \<Rightarrow> int \<Rightarrow> Command list \<Rightarrow> sql_write list \<Rightarrow> bool" where
  "command_log E x wid rid u now es ts ms n [] ws \<longleftrightarrow> ws = []"
| "command_log E x wid rid u now es ts ms n (c # cs) ws \<longleftrightarrow>
     (let ev = InsertEventRow (event_row (command_event wid rid n c) (es + 1) u now) in
      if c_Type c = ''ScheduleActivity'' then (\<exists>vs.
        ws = ev # InsertTaskRow (task_row E (activity_task x wid rid n c) (ts + 1) u) # vs \<and>
        command_log E x wid rid u now (es + 1) (ts + 1) ms (n + 1) cs vs)
      else if c_Type c = ''StartTimer'' then (\<exists>k vs.
        ws = ev # InsertTimerRow (timer_row E (command_timer wid rid (e_go_now E k) c) (ms + 1) u) # vs \<and>
        command_log E x wid rid u now (es + 1) ts (ms + 1) (n + 1) cs vs)
      else if c_Type c = ''CompleteWorkflow'' then (\<exists>vs.
        ws = ev # SetStatus wid u ''Completed'' now # vs \<and>
        command_log E x wid rid u now (es + 1) ts ms n cs vs)
      else if c_Type c = ''FailWorkflow'' then (\<exists>vs.
        ws = ev # SetStatus wid u ''Failed'' now # vs \<and>
        command_log E x wid rid u now (es + 1) ts ms n cs vs)
      else command_log E x wid rid u now es ts ms n cs ws)"

lemmas command_defs = command_event_def activity_task_def command_timer_def

lemma tally_single:
  "c_Type c = ''ScheduleActivity'' \<Longrightarrow>
     add_tally cnt (tally_of [c]) = cnt\<lparr>n_scheduled := n_scheduled cnt + 1\<rparr>"
  "c_Type c = ''StartTimer'' \<Longrightarrow>
     add_tally cnt (tally_of [c]) = cnt\<lparr>n_timersStarted := n_timersStarted cnt + 1\<rparr>"
  "c_Type c = ''CompleteWorkflow'' \<Longrightarrow>
     add_tally cnt (tally_of [c]) = cnt\<lparr>n_completed := n_completed cnt + 1\<rparr>"
  "c_Type c = ''FailWorkflow'' \<Longrightarrow>
     add_tally cnt (tally_of [c]) = cnt\<lparr>n_failed := n_failed cnt + 1\<rparr>"
  "\<not> known_command c \<Longrightarrow> add_tally cnt (tally_of [c]) = cnt"
  by (cases cnt; simp add: add_tally_def tally_of_def count_type_def known_command_def)+

lemma wp_apply_command:
  assumes E: "serial E" and "in_txn s" and "e_uuid E rid = Some u"
    and "\<And>e s'. quiet s s' \<Longrightarrow> F e s'"
    and q: "\<And>ws s'. command_log E x wid rid u (txn_now s) (event_seq (s_store s)) (task_seq (s_store s))
             (timer_seq (s_store s)) n [c] ws \<Longrightarrow>
           logged ws (if known_command c then 1 else 0) (if c_Type c = ''ScheduleActivity'' then 1 else 0)
             (if c_Type c = ''StartTimer'' then 1 else 0) s s' \<Longrightarrow>
           Q (n + ids_used [c], add_tally cnt (tally_of [c])) s'"
  shows "wp (apply_command x wid rid c (n, cnt)) E s Q F"
proof -
  let ?ev = "InsertEventRow (event_row (command_event wid rid n c) (event_seq (s_store s) + 1) u (txn_now s))"
  consider "c_Type c = ''ScheduleActivity''" | "c_Type c = ''StartTimer''" | "c_Type c = ''CompleteWorkflow''"
    | "c_Type c = ''FailWorkflow''" | "\<not> known_command c"
    by (auto simp: known_command_def)
  then show ?thesis
  proof cases
    case 1
    have "Q (n + 1, cnt\<lparr>n_scheduled := n_scheduled cnt + 1\<rparr>) s'"
      if "logged [?ev, InsertTaskRow (task_row E (activity_task x wid rid n c) (task_seq (s_store s) + 1) u)] 1 1 0 s s'" for s'
      using q [of "[?ev, InsertTaskRow (task_row E (activity_task x wid rid n c) (task_seq (s_store s) + 1) u)]" s'] that 1 by (auto simp: tally_single ids_used_def known_command_def)
    then show ?thesis unfolding apply_command_def prod.case eval_simps using assms(2-4) 1
      by (intro conjI impI wp_intros E) (auto simp: session_simps DefaultRetryPolicy_def command_defs)
  next
    case 2
    have "Q (n + 1, cnt\<lparr>n_timersStarted := n_timersStarted cnt + 1\<rparr>) s'"
      if "logged [?ev, InsertTimerRow (timer_row E (command_timer wid rid (e_go_now E k) c) (timer_seq (s_store s) + 1) u)] 1 0 1 s s'" for k s'
      using q [of "[?ev, InsertTimerRow (timer_row E (command_timer wid rid (e_go_now E k) c) (timer_seq (s_store s) + 1) u)]" s'] that 2
      by (auto simp: tally_single ids_used_def known_command_def)
    then show ?thesis unfolding apply_command_def prod.case eval_simps using assms(2-4) 2
      by (intro conjI impI wp_intros E) (auto simp: session_simps command_defs)
  next
    case 3
    have "Q (n, cnt\<lparr>n_completed := n_completed cnt + 1\<rparr>) s'"
      if "logged [?ev, SetStatus wid u ''Completed'' (txn_now s)] 1 0 0 s s'" for s'
      using q [of "[?ev, SetStatus wid u ''Completed'' (txn_now s)]" s'] that 3 by (auto simp: tally_single ids_used_def known_command_def)
    then show ?thesis unfolding apply_command_def prod.case eval_simps using assms(2-4) 3
      by (intro conjI impI wp_intros E) (auto simp: session_simps command_defs)
  next
    case 4
    have "Q (n, cnt\<lparr>n_failed := n_failed cnt + 1\<rparr>) s'"
      if "logged [?ev, SetStatus wid u ''Failed'' (txn_now s)] 1 0 0 s s'" for s'
      using q [of "[?ev, SetStatus wid u ''Failed'' (txn_now s)]" s'] that 4 by (auto simp: tally_single ids_used_def known_command_def)
    then show ?thesis unfolding apply_command_def prod.case eval_simps using assms(2-4) 4
      by (intro conjI impI wp_intros E) (auto simp: session_simps command_defs)
  next
    case 5
    then have "wp (returnM (n, cnt)) E s Q F"
      using q [of "[]" s] assms(2)
      by (auto simp: eval_simps tally_single known_command_def ids_used_def logged_def)
    with 5 show ?thesis by (simp add: apply_command_def known_command_def)
  qed
qed

lemma command_log_Cons:
  assumes "command_log E x wid rid u now es ts ms n [c] ws"
    and "command_log E x wid rid u now (es + (if known_command c then 1 else 0))
      (ts + (if c_Type c = ''ScheduleActivity'' then 1 else 0))
      (ms + (if c_Type c = ''StartTimer'' then 1 else 0)) (n + ids_used [c]) cs vs"
  shows "command_log E x wid rid u now es ts ms n (c # cs) (ws @ vs)"
  using assms by (auto simp: known_command_def ids_used_def Let_def split: if_splits)

lemma wp_apply_commands:
  assumes "serial E" and "in_txn s" and "e_uuid E rid = Some u"
    and "\<And>e s'. quiet s s' \<Longrightarrow> F e s'"
    and "\<And>ws s'. command_log E x wid rid u (txn_now s) (event_seq (s_store s)) (task_seq (s_store s))
             (timer_seq (s_store s)) n cs ws \<Longrightarrow>
           logged ws (int (length (filter known_command cs))) (int (count_type ''ScheduleActivity'' cs))
             (int (count_type ''StartTimer'' cs)) s s' \<Longrightarrow>
           Q (n + ids_used cs, add_tally cnt (tally_of cs)) s'"
  shows "wp (apply_commands x wid rid cs (n, cnt)) E s Q F"
  using assms
proof (induction cs arbitrary: s n cnt Q)
  case Nil
  from Nil.prems(5) [of "[]" s] Nil.prems(2) show ?case
    by (cases cnt) (simp add: eval_simps ids_used_def tally_of_def add_tally_def count_type_def logged_def)
next
  case (Cons c cs)
  show ?case
    unfolding apply_commands.simps eval_simps
  proof (rule wp_apply_command [OF Cons.prems(1-4)])
    fix ws s1
    assume c: "command_log E x wid rid u (txn_now s) (event_seq (s_store s)) (task_seq (s_store s))
        (timer_seq (s_store s)) n [c] ws"
      and l: "logged ws (if known_command c then 1 else 0) (if c_Type c = ''ScheduleActivity'' then 1 else 0)
        (if c_Type c = ''StartTimer'' then 1 else 0) s s1"
    show "wp (apply_commands x wid rid cs (n + ids_used [c], add_tally cnt (tally_of [c]))) E s1 Q F"
    proof (rule Cons.IH [OF Cons.prems(1) _ Cons.prems(3)])
      show "in_txn s1" using l by (simp add: logged_def)
      show "F e s'" if "quiet s1 s'" for e s'
        using quiet_trans [OF logged_quiet [OF l] that] Cons.prems(4) by simp
    next
      fix vs s'
      assume "command_log E x wid rid u (txn_now s1) (event_seq (s_store s1)) (task_seq (s_store s1))
          (timer_seq (s_store s1)) (n + ids_used [c]) cs vs"
        and l': "logged vs (int (length (filter known_command cs))) (int (count_type ''ScheduleActivity'' cs))
          (int (count_type ''StartTimer'' cs)) s1 s'"
      then have "command_log E x wid rid u (txn_now s) (event_seq (s_store s)) (task_seq (s_store s))
          (timer_seq (s_store s)) n (c # cs) (ws @ vs)"
        using l by (intro command_log_Cons [OF c]) (simp add: logged_def)
      from Cons.prems(5) [OF this] logged_trans [OF l l']
      show "Q (n + ids_used [c] + ids_used cs,
          add_tally (add_tally cnt (tally_of [c])) (tally_of cs)) s'"
        by (auto simp: count_type_def ids_used_def tally_of_def add_tally_def ac_simps split: if_splits)
    qed
  qed
qed

definition CompleteWorkflowTask_effect ::
  "env \<Rightarrow> sess \<Rightarrow> int \<Rightarrow> string \<Rightarrow> string \<Rightarrow> Command list \<Rightarrow> sess \<Rightarrow> bool" where
  "CompleteWorkflowTask_effect E s i wid rid cs s' \<longleftrightarrow>
     (\<exists>u x. e_uuid E rid = Some u \<and> find_execution wid u (tabs (s_store s)) = Some x \<and>
       (if we_Status x \<noteq> ''Running'' then committed [DeleteTask i] 0 0 0 s s'
        else (\<exists>ws. command_log E x wid rid u (begin_now E s) (event_seq (s_store s)) (task_seq (s_store s))
             (timer_seq (s_store s)) (next_event_id wid u (tabs (s_store s))) cs ws \<and>
           committed (ws @ [DeleteTask i]) (int (length (filter known_command cs)))
             (int (count_type ''ScheduleActivity'' cs)) (int (count_type ''StartTimer'' cs)) s s')))"

definition workflow_running :: "env \<Rightarrow> sess \<Rightarrow> string \<Rightarrow> string \<Rightarrow> bool" where
  "workflow_running E s wid rid \<longleftrightarrow> (\<exists>u x. e_uuid E rid = Some u \<and> find_execution wid u (tabs (s_store s)) = Some x \<and>
     we_Status x = ''Running'')"

lemma wp_command_loop:
  assumes "serial E" and "in_txn s" and "e_uuid E rid \<noteq> None"
    and "\<And>e s'. quiet s s' \<Longrightarrow> F e s'"
    and "\<And>ws s'. command_log E x wid rid (the (e_uuid E rid)) (txn_now s) (event_seq (s_store s))
             (task_seq (s_store s)) (timer_seq (s_store s)) n cs ws \<Longrightarrow>
           logged ws (int (length (filter known_command cs))) (int (count_type ''ScheduleActivity'' cs))
             (int (count_type ''StartTimer'' cs)) s s' \<Longrightarrow>
           Q (n + ids_used cs, add_tally zero_tally (tally_of cs)) s'"
  shows "wp (apply_commands x wid rid cs (n, zero_tally)) E s Q F"
proof (rule wp_apply_commands [where u = "the (e_uuid E rid)"])
  show "e_uuid E rid = Some (the (e_uuid E rid))" using assms(3) by simp
qed (fact assms)+

lemma add_zero_tally [simp]: "add_tally zero_tally (tally_of cs) = tally_of cs"
  by (simp add: add_tally_def zero_tally_def tally_of_def)

lemma CompleteWorkflowTask_spec:
  assumes E: "serial E"
  shows "effect_spec (\<lambda>m. if workflow_running E s wid rid then count_outcomes (tally_of cs) m else m)
    (CompleteWorkflowTask_effect E s i wid rid cs) E s (CompleteWorkflowTask i wid rid cs)"
  unfolding CompleteWorkflowTask_def in_tx_def Let_def effect_spec_def eval_simps fst_conv snd_conv
  by (intro wp_intros wp_command_loop E conjI impI)
    (auto simp: history_simps CompleteWorkflowTask_effect_def workflow_running_def)

section \<open>Timers\<close>

fun fired_log :: "env \<Rightarrow> tables \<Rightarrow> time \<Rightarrow> int \<Rightarrow> int \<Rightarrow> Timer list \<Rightarrow> sql_write list \<Rightarrow> bool" where
  "fired_log E T now es ts [] ws \<longleftrightarrow> ws = []"
| "fired_log E T now es ts (t # tms) ws \<longleftrightarrow>
     (\<exists>u x vs. e_uuid E (tm_RunID t) = Some u \<and> find_execution (tm_WorkflowID t) u T = Some x \<and>
       (let n = next_event_id (tm_WorkflowID t) u T in
       ws = InsertEventRow (event_row (zero_Event\<lparr>ev_WorkflowID := tm_WorkflowID t,
              ev_RunID := tm_RunID t, ev_EventID := n, ev_EventType := ''TimerFired'',
              ev_TimerIndex := tm_TimerIndex t\<rparr>) (es + 1) u now)
          # SetFired (tm_ID t)
          # InsertTaskRow (task_row E (replay_task x (tm_WorkflowID t) (tm_RunID t) n) (ts + 1) u) # vs) \<and>
       fired_log E T now (es + 1) (ts + 1) tms vs)"

lemma wp_fire_timers:
  assumes "serial E" and "in_txn s" and "\<And>e s'. quiet s s' \<Longrightarrow> F e s'"
    and "\<And>ws s'. fired_log E (tabs (s_store s)) (txn_now s) (event_seq (s_store s)) (task_seq (s_store s)) tms ws \<Longrightarrow>
           logged ws (int (length tms)) (int (length tms)) 0 s s' \<Longrightarrow> Q () s'"
  shows "wp (fire_timers tms) E s Q F"
  using assms
proof (induction tms arbitrary: s Q)
  case Nil
  then show ?case by (simp add: eval_simps logged_def)
next
  case (Cons t tms)
  note E = Cons.prems(1)
  have "wp (fire_timer t) E s (\<lambda>_ s1. wp (fire_timers tms) E s1 Q F) F" if "\<And>u x s1.
      e_uuid E (tm_RunID t) = Some u \<Longrightarrow> find_execution (tm_WorkflowID t) u (tabs (s_store s)) = Some x \<Longrightarrow>
      logged [InsertEventRow (event_row (zero_Event\<lparr>ev_WorkflowID := tm_WorkflowID t,
              ev_RunID := tm_RunID t, ev_EventID := next_event_id (tm_WorkflowID t) u (tabs (s_store s)),
              ev_EventType := ''TimerFired'', ev_TimerIndex := tm_TimerIndex t\<rparr>)
              (event_seq (s_store s) + 1) u (txn_now s)),
         SetFired (tm_ID t),
         InsertTaskRow (task_row E (replay_task x (tm_WorkflowID t) (tm_RunID t)
           (next_event_id (tm_WorkflowID t) u (tabs (s_store s)))) (task_seq (s_store s) + 1) u)] 1 1 0 s s1 \<Longrightarrow>
      wp (fire_timers tms) E s1 Q F"
    unfolding fire_timer_def Let_def eval_simps using Cons.prems(2,3) that
    by (intro wp_intros E) (auto simp: history_simps)
  then show ?case unfolding fire_timers.simps eval_simps
  proof this
    fix u x s1
    assume u: "e_uuid E (tm_RunID t) = Some u" and x: "find_execution (tm_WorkflowID t) u (tabs (s_store s)) = Some x"
      and l: "logged [InsertEventRow (event_row (zero_Event\<lparr>ev_WorkflowID := tm_WorkflowID t,
              ev_RunID := tm_RunID t, ev_EventID := next_event_id (tm_WorkflowID t) u (tabs (s_store s)),
              ev_EventType := ''TimerFired'', ev_TimerIndex := tm_TimerIndex t\<rparr>)
              (event_seq (s_store s) + 1) u (txn_now s)),
         SetFired (tm_ID t),
         InsertTaskRow (task_row E (replay_task x (tm_WorkflowID t) (tm_RunID t)
           (next_event_id (tm_WorkflowID t) u (tabs (s_store s)))) (task_seq (s_store s) + 1) u)] 1 1 0 s s1"
    show "wp (fire_timers tms) E s1 Q F"
    proof (rule Cons.IH [OF E])
      show "in_txn s1" using l by (simp add: logged_def)
      show "F e s'" if "quiet s1 s'" for e s'
        using quiet_trans [OF logged_quiet [OF l] that] Cons.prems(3) by simp
      fix vs s'
      assume f: "fired_log E (tabs (s_store s1)) (txn_now s1) (event_seq (s_store s1)) (task_seq (s_store s1)) tms vs"
        and l': "logged vs (int (length tms)) (int (length tms)) 0 s1 s'"
      have "fired_log E (tabs (s_store s)) (txn_now s) (event_seq (s_store s) + 1) (task_seq (s_store s) + 1) tms vs"
        using f l by (simp add: logged_def)
      with logged_trans [OF l l'] u x show "Q () s'"
        by (intro Cons.prems(4)) (auto simp: Let_def)
    qed
  qed
qed

definition due_timers :: "env \<Rightarrow> sess \<Rightarrow> Timer list \<Rightarrow> bool" where
  "due_timers E s tms \<longleftrightarrow>
     (\<exists>n. tms = select_due (e_row_rank E n) (e_row_locked E n) (begin_now E s) (tabs (s_store s)))"

definition ScanTimers_effect :: "env \<Rightarrow> sess \<Rightarrow> Timer list \<Rightarrow> sess \<Rightarrow> bool" where
  "ScanTimers_effect E s tms s' \<longleftrightarrow> due_timers E s tms \<and>
     (\<exists>ws. fired_log E (tabs (s_store s)) (begin_now E s) (event_seq (s_store s)) (task_seq (s_store s)) tms ws \<and>
        committed ws (int (length tms)) (int (length tms)) 0 s s')"

lemma due_timersI [intro]:
  "due_timers E s (select_due (e_row_rank E n) (e_row_locked E n) (begin_now E s) (tabs (s_store s)))"
  by (auto simp: due_timers_def)

lemma wp_ScanTimers:
  assumes E: "serial E"
  shows "wp ScanTimers E s
     (\<lambda>_ s'. \<exists>tms. ScanTimers_effect E s tms s' \<and>
        s_metrics s' = (s_metrics s)\<lparr>TimersFired := TimersFired (s_metrics s) + length tms\<rparr>)
     (\<lambda>_ s'. quiet s s' \<or> (\<exists>tms. ScanTimers_effect E s tms s') \<and> s_metrics s' = s_metrics s)"
  unfolding ScanTimers_def in_tx_def Let_def eval_simps
  by (intro wp_intros wp_fire_timers E)
    (auto simp: history_simps ScanTimers_effect_def intro!: exI due_timersI [unfolded begin_now_def])

section \<open>Signals\<close>

definition signal_event :: "sess \<Rightarrow> string \<Rightarrow> string \<Rightarrow> string \<Rightarrow> bytes option \<Rightarrow> string \<Rightarrow> time \<Rightarrow> sql_write" where
  "signal_event s wid rid name input u now = InsertEventRow (event_row (zero_Event\<lparr>
     ev_WorkflowID := wid, ev_RunID := rid, ev_EventID := next_event_id wid u (tabs (s_store s)),
     ev_EventType := ''SignalReceived'', ev_SignalName := name,
     ev_Data := input\<rparr>) (event_seq (s_store s) + 1) u now)"

definition SignalWorkflow_effect ::
  "env \<Rightarrow> sess \<Rightarrow> string \<Rightarrow> string \<Rightarrow> string \<Rightarrow> bytes option \<Rightarrow> sess \<Rightarrow> bool" where
  "SignalWorkflow_effect E s wid rid name input s' \<longleftrightarrow>
     (\<exists>u x now. e_uuid E rid = Some u \<and> find_execution wid u (tabs (s_store s)) = Some x \<and>
       we_Status x = ''Running'' \<and>
       (if has_workflow_task wid u (tabs (s_store s))
        then committed [signal_event s wid rid name input u now] 1 0 0 s s'
        else committed [signal_event s wid rid name input u now,
               InsertTaskRow (wakeup_row (replay_task x wid rid (next_event_id wid u (tabs (s_store s))))
                  (task_seq (s_store s) + 1) u now)] 1 1 0 s s'))"

lemma SignalWorkflow_effectI:
  assumes "e_uuid E rid = Some u" and "find_execution wid u (tabs (s_store s)) = Some x"
    and "we_Status x = ''Running''"
    and "has_workflow_task wid u (tabs (s_store s)) \<Longrightarrow>
       committed [signal_event s wid rid name input u now] 1 0 0 s s'"
    and "\<not> has_workflow_task wid u (tabs (s_store s)) \<Longrightarrow>
       committed [signal_event s wid rid name input u now,
               InsertTaskRow (wakeup_row (replay_task x wid rid (next_event_id wid u (tabs (s_store s))))
                  (task_seq (s_store s) + 1) u now)] 1 1 0 s s'"
  shows "SignalWorkflow_effect E s wid rid name input s'"
  unfolding SignalWorkflow_effect_def using assms by (intro exI [of _ u] exI [of _ x] exI [of _ now]) auto

text \<open>The run a signal is for: the one named, or the run of the latest execution.\<close>

definition signal_target :: "env \<Rightarrow> sess \<Rightarrow> string \<Rightarrow> string \<Rightarrow> string \<Rightarrow> bool" where
  "signal_target E s wid rid0 rid \<longleftrightarrow> (if rid0 = '''' then
     (\<exists>n x. latest_execution (e_row_rank E n) wid (tabs (s_store s)) = Some x \<and> rid = we_RunID x)
     else rid = rid0)"

lemma wp_signal_run:
  assumes E: "serial E" and "\<And>e s'. quiet s s' \<Longrightarrow> F e s'"
    and q: "\<And>s'. SignalWorkflow_effect E s wid rid name input s' \<Longrightarrow>
      s_metrics s' = (s_metrics s)\<lparr>SignalsDelivered := SignalsDelivered (s_metrics s) + 1\<rparr> \<Longrightarrow> Q () s'"
    and f: "\<And>e s'. SignalWorkflow_effect E s wid rid name input s' \<Longrightarrow> s_metrics s' = s_metrics s \<Longrightarrow> F e s'"
  shows "wp (signal_run wid rid name input) E s Q F"
proof -
  note I = SignalWorkflow_effectI [where now = "e_db_now E (s_tick s)",
    unfolded signal_event_def has_workflow_task_def replay_task_def find_execution_def]
  show ?thesis
    unfolding signal_run_def in_tx_def Let_def eval_simps using assms(2)
    by (intro conjI impI wp_intros E) (auto simp: session_simps intro!: q f I)
qed

lemma SignalWorkflow_effect_store:
  "SignalWorkflow_effect E s1 wid rid name input s' \<Longrightarrow> s_store s1 = s_store s \<Longrightarrow>
     SignalWorkflow_effect E s wid rid name input s'"
  unfolding SignalWorkflow_effect_def signal_event_def committed_def by (simp only:)

lemma wp_SignalWorkflow:
  assumes E: "serial E"
  shows "wp (SignalWorkflow wid rid0 name input) E s
     (\<lambda>_ s'. (\<exists>rid. signal_target E s wid rid0 rid \<and> SignalWorkflow_effect E s wid rid name input s') \<and>
        s_metrics s' = (s_metrics s)\<lparr>SignalsDelivered := SignalsDelivered (s_metrics s) + 1\<rparr>)
     (\<lambda>_ s'. quiet s s' \<or> (\<exists>rid. signal_target E s wid rid0 rid \<and>
        SignalWorkflow_effect E s wid rid name input s') \<and> s_metrics s' = s_metrics s)"
  unfolding SignalWorkflow_def eval_simps
  by (intro wp_intros wp_signal_run E conjI impI)
    (auto simp: session_simps signal_target_def intro: SignalWorkflow_effect_store)

end
