(* ===== verification/WellFormed.thy ===== *)
theory WellFormed
  imports HistoryEffects
begin

text \<open>
  The well-formedness invariant of the database, the contract every engine operation keeps with
  it (locale \<open>engine_operation\<close>), and the proof that each operation of \<open>history\<close> and the task
  operations of \<open>persistence\<close> keep the contract (the interpretations). No key or constraint of the
  schema states these facts: they hold because of the code.
\<close>

section \<open>Well-formed tables\<close>

definition run_key :: "WorkflowExecution \<Rightarrow> string \<times> string" where
  "run_key x = (we_WorkflowID x, we_RunID x)"

definition run_keys :: "tables \<Rightarrow> (string \<times> string) set" where
  "run_keys T = run_key ` set (executions T)"

text \<open>An execution is running and open, or ended and closed.\<close>

definition execution_ok :: "(string \<Rightarrow> string option) \<Rightarrow> WorkflowExecution \<Rightarrow> bool" where
  "execution_ok U x \<longleftrightarrow> U (we_RunID x) = Some (we_RunID x) \<and>
     we_Status x \<in> {''Running'', ''Completed'', ''Failed''} \<and>
     (we_ClosedAt x = None \<longleftrightarrow> we_Status x = ''Running'')"

text \<open>
  A lease has an owner and an expiry or neither; an activity task is on attempt 1, 2 or 3 of 3; a
  workflow task has the attempt counters one of the two statements that insert it gives it.
\<close>

definition task_ok :: "Task \<Rightarrow> bool" where
  "task_ok t \<longleftrightarrow> (t_LeaseOwner t = None \<longleftrightarrow> t_LeaseExpiresAt t = None) \<and>
     (t_TaskType t = ''activity'' \<and> t_MaxAttempts t = 3 \<and> 1 \<le> sint (t_Attempt t) \<and> sint (t_Attempt t) \<le> 3 \<or>
      t_TaskType t = ''workflow'' \<and> (t_Attempt t = 0 \<and> t_MaxAttempts t = 0 \<or> t_Attempt t = 1 \<and> t_MaxAttempts t = 3))"

definition wf_tables :: "(string \<Rightarrow> string option) \<Rightarrow> tables \<Rightarrow> int \<Rightarrow> int \<Rightarrow> int \<Rightarrow> bool" where
  "wf_tables U T es ts ms \<longleftrightarrow>
     distinct (map run_key (executions T)) \<and> distinct (map ev_ID (events T)) \<and>
     distinct (map t_ID (tasks T)) \<and> distinct (map tm_ID (timers T)) \<and>
     (\<forall>x \<in> set (executions T). execution_ok U x) \<and>
     (\<forall>e \<in> set (events T). ev_ID e \<le> es \<and> (ev_WorkflowID e, ev_RunID e) \<in> run_keys T \<and> ev_Data e \<noteq> None) \<and>
     (\<forall>t \<in> set (tasks T). t_ID t \<le> ts \<and> (t_WorkflowID t, t_RunID t) \<in> run_keys T \<and> task_ok t) \<and>
     (\<forall>t \<in> set (timers T). tm_ID t \<le> ms \<and> (tm_WorkflowID t, tm_RunID t) \<in> run_keys T)"

definition wf_store :: "(string \<Rightarrow> string option) \<Rightarrow> store \<Rightarrow> bool" where
  "wf_store U st \<longleftrightarrow> wf_tables U (tabs st) (event_seq st) (task_seq st) (timer_seq st)"

text \<open>
  The writes an operation may commit, from the runs that exist and the values of the sequences:
  rows are inserted for existing runs under fresh identifiers, only a running execution gets a
  status, and only a terminal one.
\<close>

definition running :: "tables \<Rightarrow> string \<Rightarrow> string \<Rightarrow> bool" where
  "running T wid rid \<longleftrightarrow> (\<exists>x \<in> set (executions T). is_execution wid rid x \<and> we_Status x = ''Running'')"

fun legal :: "(string \<Rightarrow> string option) \<Rightarrow> tables \<Rightarrow> (string \<times> string) set \<Rightarrow> int \<Rightarrow> int \<Rightarrow> int \<Rightarrow>
    sql_write list \<Rightarrow> bool" where
  "legal U T K es ts ms [] = True"
| "legal U T K es ts ms (InsertExecutionRow x # ws) =
     (run_key x \<notin> K \<and> execution_ok U x \<and> we_Status x = ''Running'' \<and> legal U T (insert (run_key x) K) es ts ms ws)"
| "legal U T K es ts ms (SetStatus wid rid st now # ws) =
     (st \<in> {''Completed'', ''Failed''} \<and> running T wid rid \<and> legal U T K es ts ms ws)"
| "legal U T K es ts ms (InsertEventRow e # ws) =
     (ev_ID e = es + 1 \<and> (ev_WorkflowID e, ev_RunID e) \<in> K \<and> ev_Data e \<noteq> None \<and> legal U T K (es + 1) ts ms ws)"
| "legal U T K es ts ms (InsertTaskRow t # ws) =
     (t_ID t = ts + 1 \<and> (t_WorkflowID t, t_RunID t) \<in> K \<and> task_ok t \<and> legal U T K es (ts + 1) ms ws)"
| "legal U T K es ts ms (InsertTimerRow t # ws) =
     (tm_ID t = ms + 1 \<and> (tm_WorkflowID t, tm_RunID t) \<in> K \<and> legal U T K es ts (ms + 1) ws)"
| "legal U T K es ts ms (SetLease i ow ex # ws) = legal U T K es ts ms ws"
| "legal U T K es ts ms (DeleteTask i # ws) = legal U T K es ts ms ws"
| "legal U T K es ts ms (SetFired i # ws) = legal U T K es ts ms ws"
| "legal U T K es ts ms (ReclaimLeases now # ws) = legal U T K es ts ms ws"

definition event_rows :: "sql_write list \<Rightarrow> Event list" where
  "event_rows ws = concat (map (\<lambda>w. case w of InsertEventRow e \<Rightarrow> [e] | _ \<Rightarrow> []) ws)"

definition task_rows :: "sql_write list \<Rightarrow> Task list" where
  "task_rows ws = concat (map (\<lambda>w. case w of InsertTaskRow t \<Rightarrow> [t] | _ \<Rightarrow> []) ws)"

definition timer_rows :: "sql_write list \<Rightarrow> Timer list" where
  "timer_rows ws = concat (map (\<lambda>w. case w of InsertTimerRow t \<Rightarrow> [t] | _ \<Rightarrow> []) ws)"

lemma rows_simps [simp]:
  "event_rows [] = []" "task_rows [] = []" "timer_rows [] = []"
  "event_rows (w # ws) = (case w of InsertEventRow e \<Rightarrow> [e] | _ \<Rightarrow> []) @ event_rows ws"
  "task_rows (w # ws) = (case w of InsertTaskRow t \<Rightarrow> [t] | _ \<Rightarrow> []) @ task_rows ws"
  "timer_rows (w # ws) = (case w of InsertTimerRow t \<Rightarrow> [t] | _ \<Rightarrow> []) @ timer_rows ws"
  "event_rows (ws @ vs) = event_rows ws @ event_rows vs"
  "task_rows (ws @ vs) = task_rows ws @ task_rows vs"
  "timer_rows (ws @ vs) = timer_rows ws @ timer_rows vs"
  by (simp_all add: event_rows_def task_rows_def timer_rows_def)

lemma legal_append:
  "legal U T K es ts ms (ws @ vs) \<longleftrightarrow> legal U T K es ts ms ws \<and>
     legal U T (K \<union> run_key ` {x. InsertExecutionRow x \<in> set ws}) (es + int (length (event_rows ws)))
       (ts + int (length (task_rows ws))) (ms + int (length (timer_rows ws))) vs"
proof (induction ws arbitrary: K es ts ms)
  case (Cons w ws)
  show ?case
  proof (cases w)
    case (InsertExecutionRow x)
    have "{y. InsertExecutionRow y = w \<or> InsertExecutionRow y \<in> set ws} = insert x {y. InsertExecutionRow y \<in> set ws}"
      by (auto simp: InsertExecutionRow)
    then show ?thesis using Cons [of "insert (run_key x) K"] InsertExecutionRow by (simp add: Un_commute)
  qed (use Cons in \<open>simp_all add: ac_simps\<close>)
qed simp

lemma key_set_status [simp]: "run_key (set_status st now x) = run_key x"
  by (simp add: set_status_def run_key_def)

text \<open>The rows of a table keep their identifiers under every update.\<close>

lemma key_update [simp]:
  "t_ID \<circ> (\<lambda>t. if P t then t\<lparr>t_LeaseOwner := a, t_LeaseExpiresAt := b\<rparr> else t) = t_ID"
  "t_ID \<circ> (\<lambda>t. if P t then release_lease t else t) = t_ID"
  "tm_ID \<circ> (\<lambda>t. if Q t then t\<lparr>tm_Fired := True\<rparr> else t) = tm_ID"
  "run_key \<circ> (\<lambda>x. if R x then set_status st now x else x) = run_key"
  by (auto simp: release_lease_def)

lemma run_keys_simps [simp]:
  "run_keys (T\<lparr>events := a\<rparr>) = run_keys T" "run_keys (T\<lparr>tasks := b\<rparr>) = run_keys T"
  "run_keys (T\<lparr>timers := c\<rparr>) = run_keys T"
  "run_keys (T\<lparr>executions := executions T @ [x]\<rparr>) = insert (run_key x) (run_keys T)"
  by (auto simp: run_keys_def)

lemma run_keys_set_status [simp]:
  "run_keys (T\<lparr>executions := map (\<lambda>x. if P x then set_status st now x else x) (executions T)\<rparr>) = run_keys T"
  unfolding run_keys_def set_map [symmetric] by (simp del: set_map)

lemma run_keys_write:
  "run_keys (apply_write w T) = run_keys T \<union> (case w of InsertExecutionRow x \<Rightarrow> {run_key x} | _ \<Rightarrow> {})"
  by (cases w) simp_all

lemma execution_ok_set_status:
  "execution_ok U x \<Longrightarrow> st \<in> {''Completed'', ''Failed''} \<Longrightarrow> execution_ok U (set_status st now x)"
  by (auto simp: execution_ok_def set_status_def)

lemma task_ok_lease [simp]:
  "task_ok t \<Longrightarrow> task_ok (t\<lparr>t_LeaseOwner := Some a, t_LeaseExpiresAt := Some b\<rparr>)"
  "task_ok t \<Longrightarrow> task_ok (release_lease t)"
  by (auto simp: task_ok_def release_lease_def)

lemma release_lease_key [simp]:
  "t_ID (release_lease t) = t_ID t" "t_WorkflowID (release_lease t) = t_WorkflowID t"
  "t_RunID (release_lease t) = t_RunID t"
  by (simp_all add: release_lease_def)

text \<open>One legal write keeps the tables well-formed.\<close>

lemma wf_write:
  assumes wf: "wf_tables U T es ts ms" and l: "legal U T0 (run_keys T) es ts ms [w]"
  shows "wf_tables U (apply_write w T) (es + int (length (event_rows [w])))
    (ts + int (length (task_rows [w]))) (ms + int (length (timer_rows [w])))"
proof (cases w)
  case (InsertExecutionRow x)
  with assms show ?thesis by (auto simp: wf_tables_def run_keys_def)
next
  case (SetStatus wid rid st now)
  with assms show ?thesis by (simp add: wf_tables_def) (auto intro: execution_ok_set_status)
next
  case (InsertEventRow e)
  with assms show ?thesis by (fastforce simp: wf_tables_def)
next
  case (InsertTaskRow t)
  with assms show ?thesis by (fastforce simp: wf_tables_def)
next
  case (InsertTimerRow t)
  with assms show ?thesis by (fastforce simp: wf_tables_def)
next
  case (SetLease i ow ex)
  with assms show ?thesis by (auto simp: wf_tables_def)
next
  case (DeleteTask i)
  with assms show ?thesis by (simp add: wf_tables_def distinct_map_filter)
next
  case (SetFired i)
  with assms show ?thesis by (auto simp: wf_tables_def)
next
  case (ReclaimLeases now)
  with assms show ?thesis by (auto simp: wf_tables_def)
qed

lemma wf_log:
  "wf_tables U T es ts ms \<Longrightarrow> legal U T0 (run_keys T) es ts ms ws \<Longrightarrow>
     wf_tables U (apply_log ws T) (es + int (length (event_rows ws)))
       (ts + int (length (task_rows ws))) (ms + int (length (timer_rows ws)))"
proof (induction ws arbitrary: T es ts ms)
  case (Cons w ws)
  from Cons.prems(2) legal_append [of U T0 "run_keys T" es ts ms "[w]" ws]
  have l: "legal U T0 (run_keys T) es ts ms [w]"
    and l': "legal U T0 (run_keys T \<union> run_key ` {x. InsertExecutionRow x \<in> set [w]})
      (es + int (length (event_rows [w]))) (ts + int (length (task_rows [w])))
      (ms + int (length (timer_rows [w]))) ws" by simp_all
  have "run_keys T \<union> run_key ` {x. InsertExecutionRow x \<in> set [w]} = run_keys (apply_write w T)"
    by (cases w) (auto simp: run_keys_write)
  from Cons.IH [OF wf_write [OF Cons.prems(1) l] l' [unfolded this]]
  show ?case by (simp add: ac_simps)
qed simp

lemma wf_mono:
  "wf_tables U T es ts ms \<Longrightarrow> es \<le> es' \<Longrightarrow> ts \<le> ts' \<Longrightarrow> ms \<le> ms' \<Longrightarrow> wf_tables U T es' ts' ms'"
  by (fastforce simp: wf_tables_def)

section \<open>What a log of writes leaves in place\<close>

lemma events_apply_log: "events (apply_log ws T) = events T @ event_rows ws"
proof (induction ws arbitrary: T)
  case (Cons w ws)
  then show ?case by (cases w) simp_all
qed simp

text \<open>The columns of an execution that no statement updates.\<close>

definition identity_of :: "WorkflowExecution \<Rightarrow> string \<times> string \<times> string \<times> string \<times> time" where
  "identity_of x = (we_WorkflowID x, we_RunID x, we_WorkflowType x, we_TaskQueue x, we_StartedAt x)"

lemma identity_set_status [simp]: "identity_of (set_status st now x) = identity_of x"
  by (simp add: identity_of_def set_status_def)

lemma identity_update [simp]: "identity_of \<circ> (\<lambda>x. if R x then set_status st now x else x) = identity_of"
  by auto

lemma identities_apply_log:
  "\<exists>new. map identity_of (executions (apply_log ws T)) = map identity_of (executions T) @ new"
proof (induction ws arbitrary: T)
  case (Cons w ws)
  obtain new where new: "map identity_of (executions (apply_log ws (apply_write w T))) =
      map identity_of (executions (apply_write w T)) @ new" using Cons.IH by blast
  have "\<exists>a. map identity_of (executions (apply_write w T)) = map identity_of (executions T) @ a"
    by (cases w) simp_all
  with new show ?case by auto
qed simp

lemma is_execution_iff: "is_execution wid rid x \<longleftrightarrow> run_key x = (wid, rid)"
  by (auto simp: is_execution_def run_key_def)

lemma terminal_apply_log:
  assumes "legal U T K es ts ms ws" and "x \<in> set (executions T)" and "we_Status x \<noteq> ''Running''"
    and "distinct (map run_key (executions T))" and "x \<in> set (executions T')"
  shows "x \<in> set (executions (apply_log ws T'))"
  using assms
proof (induction ws arbitrary: T' K es ts ms)
  case (Cons w ws)
  have not_running: "\<not> is_execution wid rid x" if "running T wid rid" for wid rid
  proof
    assume x: "is_execution wid rid x"
    from that obtain y where "y \<in> set (executions T)" "run_key y = (wid, rid)" "we_Status y = ''Running''"
      by (auto simp: running_def is_execution_iff)
    moreover from this x have "x = y" using distinct_map_eqD [OF Cons.prems(4,2)] by (simp add: is_execution_iff)
    ultimately show False using Cons.prems(3) by simp
  qed
  have "x \<in> set (executions (apply_write w T'))"
  proof (cases w)
    case (SetStatus wid rid st now)
    with Cons.prems(1) have "running T wid rid" by simp
    from not_running [OF this] Cons.prems(5) show ?thesis unfolding SetStatus by force
  qed (use Cons.prems(5) in simp_all)
  moreover obtain K' es' ts' ms' where "legal U T K' es' ts' ms' ws"
    using Cons.prems(1) by (cases w) auto
  ultimately show ?case using Cons.IH [OF _ Cons.prems(2-4)] by (simp add: apply_log_def)
qed simp

section \<open>The contract of the engine operations\<close>

text \<open>
  The UUID column stores the canonical text of what it parses, so a stored text reads as itself.
\<close>

definition uuid_ok :: "env \<Rightarrow> bool" where
  "uuid_ok E \<longleftrightarrow> (\<forall>t u. e_uuid E t = Some u \<longrightarrow> e_uuid E u = Some u)"

lemma uuid_okD: "uuid_ok E \<Longrightarrow> e_uuid E t = Some u \<Longrightarrow> e_uuid E u = Some u"
  by (simp add: uuid_ok_def)

text \<open>A step of the engine commits nothing, or one legal log in one piece.\<close>

definition commits_legally :: "env \<Rightarrow> sess \<Rightarrow> sess \<Rightarrow> bool" where
  "commits_legally E s s' \<longleftrightarrow> (\<exists>ws. legal (e_uuid E) (tabs (s_store s)) (run_keys (tabs (s_store s)))
       (event_seq (s_store s)) (task_seq (s_store s)) (timer_seq (s_store s)) ws \<and>
     committed ws (int (length (event_rows ws))) (int (length (task_rows ws))) (int (length (timer_rows ws))) s s')"

definition engine_step :: "env \<Rightarrow> sess \<Rightarrow> sess \<Rightarrow> bool" where
  "engine_step E s s' \<longleftrightarrow> tabs (s_store s') = tabs (s_store s) \<and> seqs_le s s' \<or> commits_legally E s s'"

lemma engine_step_cases:
  assumes "engine_step E s s'"
  obtains (unchanged) "tabs (s_store s') = tabs (s_store s)" "seqs_le s s'"
  | (commit) ws where "legal (e_uuid E) (tabs (s_store s)) (run_keys (tabs (s_store s)))
       (event_seq (s_store s)) (task_seq (s_store s)) (timer_seq (s_store s)) ws"
     "tabs (s_store s') = apply_log ws (tabs (s_store s))"
     "committed ws (int (length (event_rows ws))) (int (length (task_rows ws))) (int (length (timer_rows ws))) s s'"
  using assms by (auto simp: engine_step_def commits_legally_def committed_def)

lemma engine_step_wf:
  assumes "engine_step E s s'" and "wf_store (e_uuid E) (s_store s)"
  shows "wf_store (e_uuid E) (s_store s')"
  using assms(1)
proof (cases rule: engine_step_cases)
  case unchanged
  with assms(2) show ?thesis by (auto simp: wf_store_def seqs_le_def intro: wf_mono)
next
  case (commit ws)
  with wf_log [OF assms(2) [unfolded wf_store_def] commit(1)] show ?thesis
    by (simp add: wf_store_def committed_def)
qed

lemma engine_step_events:
  "engine_step E s s' \<Longrightarrow> \<exists>new. events (tabs (s_store s')) = events (tabs (s_store s)) @ new"
  by (erule engine_step_cases) (auto simp: events_apply_log)

lemma engine_step_executions:
  "engine_step E s s' \<Longrightarrow> \<exists>new. map identity_of (executions (tabs (s_store s'))) =
     map identity_of (executions (tabs (s_store s))) @ new"
  by (erule engine_step_cases) (simp_all add: identities_apply_log)

lemma engine_step_terminal:
  assumes "engine_step E s s'" and "wf_store (e_uuid E) (s_store s)"
    and "x \<in> set (executions (tabs (s_store s)))" and "we_Status x \<noteq> ''Running''"
  shows "x \<in> set (executions (tabs (s_store s')))"
  using assms(1)
proof (cases rule: engine_step_cases)
  case (commit ws)
  with assms show ?thesis by (auto simp: wf_store_def wf_tables_def intro: terminal_apply_log)
qed (use assms in simp)

text \<open>The interface the layers above use: an operation that takes one engine step.\<close>

locale engine_operation =
  fixes run :: "'a M"
  assumes step: "serial E \<Longrightarrow> uuid_ok E \<Longrightarrow> wf_store (e_uuid E) (s_store s) \<Longrightarrow> run E s = (r, s') \<Longrightarrow>
    engine_step E s s'"
begin

lemma keeps_wf:
  assumes "serial E" "uuid_ok E" "wf_store (e_uuid E) (s_store s)" "run E s = (r, s')"
  shows "wf_store (e_uuid E) (s_store s')"
  using engine_step_wf [OF step [OF assms] assms(3)] .

lemma keeps_events:
  assumes "serial E" "uuid_ok E" "wf_store (e_uuid E) (s_store s)" "run E s = (r, s')"
  shows "\<exists>new. events (tabs (s_store s')) = events (tabs (s_store s)) @ new"
  using engine_step_events [OF step [OF assms]] .

lemma keeps_executions:
  assumes "serial E" "uuid_ok E" "wf_store (e_uuid E) (s_store s)" "run E s = (r, s')"
  shows "\<exists>new. map identity_of (executions (tabs (s_store s'))) =
     map identity_of (executions (tabs (s_store s))) @ new"
  using engine_step_executions [OF step [OF assms]] .

lemma keeps_terminal:
  assumes "serial E" "uuid_ok E" "wf_store (e_uuid E) (s_store s)" "run E s = (r, s')"
    and "x \<in> set (executions (tabs (s_store s)))" and "we_Status x \<noteq> ''Running''"
  shows "x \<in> set (executions (tabs (s_store s')))"
  using engine_step_terminal [OF step [OF assms(1-4)] assms(3,5,6)] .

end

section \<open>The operations keep the contract\<close>

lemma wp_mono:
  "wp m E s Q F \<Longrightarrow> (\<And>x s'. Q x s' \<Longrightarrow> Q' x s') \<Longrightarrow> (\<And>e s'. F e s' \<Longrightarrow> F' e s') \<Longrightarrow> wp m E s Q' F'"
  by (auto simp: wp_def split: prod.splits sum.splits)

lemma engine_operationI:
  assumes "\<And>E s. serial E \<Longrightarrow> uuid_ok E \<Longrightarrow> wf_store (e_uuid E) (s_store s) \<Longrightarrow>
    wp run E s (\<lambda>_. engine_step E s) (\<lambda>_. engine_step E s)"
  shows "engine_operation run"
proof
  fix E s r s'
  assume "serial E" "uuid_ok E" "wf_store (e_uuid E) (s_store s)" and r: "run E s = (r, s')"
  from wpD [OF assms [OF this(1-3)] r] show "engine_step E s s'" by (simp split: sum.splits)
qed

lemma quiet_step [intro]: "quiet s s' \<Longrightarrow> engine_step E s s'"
  by (simp add: engine_step_def quiet_def)

lemma committed_step:
  assumes "committed ws a b c s s'"
    and "legal (e_uuid E) (tabs (s_store s)) (run_keys (tabs (s_store s)))
       (event_seq (s_store s)) (task_seq (s_store s)) (timer_seq (s_store s)) ws"
    and "a = int (length (event_rows ws))" "b = int (length (task_rows ws))" "c = int (length (timer_rows ws))"
  shows "engine_step E s s'"
  using assms unfolding engine_step_def commits_legally_def by auto

lemma wf_execution:
  assumes "wf_store U st" and "find_execution wid u (tabs st) = Some x"
  shows "(wid, u) \<in> run_keys (tabs st)" "we_WorkflowID x = wid" "we_RunID x = u"
    "x \<in> set (executions (tabs st))" "execution_ok U x" "U u = Some u"
  using assms List_find_Some_iff [of "is_execution wid u" "executions (tabs st)" x]
  by (auto simp: find_execution_def wf_store_def wf_tables_def is_execution_def run_keys_def
      run_key_def execution_ok_def image_iff)

lemma wf_execution_keys:
  "wf_store U st \<Longrightarrow> find_execution wid u (tabs st) = Some x \<Longrightarrow> (wid, u) \<in> run_keys (tabs st) \<and>
     we_WorkflowID x = wid \<and> we_RunID x = u \<and> U u = Some u"
  by (blast dest: wf_execution)

lemma wf_task:
  assumes "wf_store U st" and "find_task i (tabs st) = Some t"
  shows "(t_WorkflowID t, t_RunID t) \<in> run_keys (tabs st)" "task_ok t" "t_ID t = i"
    "t \<in> set (tasks (tabs st))" "U (t_RunID t) = Some (t_RunID t)"
  using assms List_find_Some_iff [of "\<lambda>t. t_ID t = i" "tasks (tabs st)" t]
  by (auto simp: find_task_def wf_store_def wf_tables_def run_keys_def run_key_def execution_ok_def)

lemma StartWorkflow_step:
  assumes "uuid_ok E" and "StartWorkflow_effect E s wid wtype queue input rid s'"
  shows "engine_step E s s'"
  using assms unfolding StartWorkflow_effect_def
  by (clarsimp, elim committed_step)
    (auto simp: new_event_def new_task_def run_key_def run_keys_def is_execution_def execution_ok_def
      task_ok_def zero_Task_def zero_WorkflowExecution_def zero_Event_def dest: uuid_okD)

lemma task_ok_replay [simp]: "task_ok (task_row E (replay_task x wid rid n) i u)"
  by (simp add: task_ok_def replay_task_def zero_Task_def)

lemma task_ok_wakeup [simp]:
  "t_TaskType t = ''workflow'' \<Longrightarrow> task_ok (wakeup_row t i u now)"
  by (simp add: task_ok_def wakeup_row_def)

lemma replay_task_simps [simp]:
  "t_WorkflowID (replay_task x wid rid n) = wid" "t_RunID (replay_task x wid rid n) = rid"
  "t_TaskType (replay_task x wid rid n) = ''workflow''"
  by (simp_all add: replay_task_def)

lemma CompleteActivityTask_step:
  assumes wf: "wf_store (e_uuid E) (s_store s)" and "CompleteActivityTask_effect E s i wid rid result s'"
  shows "engine_step E s s'"
  by (insert assms(2), clarsimp simp: CompleteActivityTask_effect_def)
    (drule wf_execution_keys [OF wf], elim committed_step, auto simp: new_event_def new_task_def)

text \<open>A task that is retried is on attempt 1 or 2 of 3, so the next attempt does not overflow.\<close>

lemma next_attempt:
  assumes "task_ok t" and "sint (t_Attempt t) < sint (t_MaxAttempts t)"
  shows "t_MaxAttempts t = 3" and "sint (t_Attempt t + 1) = sint (t_Attempt t) + 1"
    and "sint (t_Attempt t) \<in> {1, 2}"
proof -
  show m: "t_MaxAttempts t = 3" using assms by (auto simp: task_ok_def)
  show i: "sint (t_Attempt t) \<in> {1, 2}" using assms m by (auto simp: task_ok_def)
  have "t_Attempt t = word_of_int (sint (t_Attempt t))" by simp
  with i have "t_Attempt t = word_of_int 1 \<or> t_Attempt t = word_of_int 2" by (metis insertE singletonD)
  then show "sint (t_Attempt t + 1) = sint (t_Attempt t) + 1" by auto
qed

lemma RetryActivityTask_step:
  assumes wf: "wf_store (e_uuid E) (s_store s)" and t: "find_task i (tabs (s_store s)) = Some t"
    and lt: "sint (t_Attempt t) < sint (t_MaxAttempts t)" and "RetryActivityTask_effect E s i t s'"
  shows "engine_step E s s'"
proof -
  note t' = wf_task [OF wf t]
  show ?thesis using assms(4) next_attempt [OF t'(2) lt] t' unfolding RetryActivityTask_effect_def
    by (clarsimp, elim committed_step)
      (auto simp: new_event_def new_task_def task_ok_def zero_Task_def)
qed

lemma ExhaustActivityTask_step:
  assumes wf: "wf_store (e_uuid E) (s_store s)" and "ExhaustActivityTask_effect E s i wid rid msg t s'"
  shows "engine_step E s s'"
  by (insert assms(2), clarsimp simp: ExhaustActivityTask_effect_def)
    (drule wf_execution_keys [OF wf], elim committed_step, auto simp: new_event_def new_task_def)

lemma SignalWorkflow_step:
  assumes wf: "wf_store (e_uuid E) (s_store s)" and "SignalWorkflow_effect E s wid rid name input s'"
  shows "engine_step E s s'"
  using assms(2) unfolding SignalWorkflow_effect_def
proof (elim exE conjE)
  fix u x now
  assume "find_execution wid u (tabs (s_store s)) = Some x"
    and c: "if has_workflow_task wid u (tabs (s_store s))
        then committed [signal_event s wid rid name input u now] 1 0 0 s s'
        else committed [signal_event s wid rid name input u now,
               InsertTaskRow (wakeup_row (replay_task x wid rid (next_event_id wid u (tabs (s_store s))))
                  (task_seq (s_store s) + 1) u now)] 1 1 0 s s'"
  note wf_execution_keys [OF wf this(1)]
  with c show ?thesis
    by (cases "has_workflow_task wid u (tabs (s_store s))")
      (auto simp: signal_event_def elim!: committed_step)
qed

text \<open>The log of the command loop, and of the timer scan.\<close>

lemma command_log_legal:
  assumes "command_log E x wid rid u now es ts ms n cs ws" and "(wid, u) \<in> K" and "running T wid u"
  shows "legal U T K es ts ms ws \<and> int (length (event_rows ws)) = int (length (filter known_command cs)) \<and>
     int (length (task_rows ws)) = int (count_type ''ScheduleActivity'' cs) \<and>
     int (length (timer_rows ws)) = int (count_type ''StartTimer'' cs)"
  using assms
proof (induction cs arbitrary: es ts ms n ws)
  case (Cons c cs)
  then show ?case
    by (auto simp: Let_def command_event_def activity_task_def command_timer_def known_command_def
        count_type_def task_ok_def zero_Task_def zero_Event_def zero_Timer_def split: if_splits dest!: Cons.IH)
qed (simp add: count_type_def)

lemma fired_log_legal:
  assumes "fired_log E T now es ts tms ws" and "\<forall>x u wid. find_execution wid u T = Some x \<longrightarrow> (wid, u) \<in> K"
  shows "legal U T0 K es ts ms ws \<and> length (event_rows ws) = length tms \<and>
     length (task_rows ws) = length tms \<and> timer_rows ws = []"
  using assms
proof (induction tms arbitrary: es ts ws)
  case (Cons t tms)
  then show ?case by (auto simp: Let_def dest!: Cons.IH)
qed simp

lemma find_execution_running:
  "find_execution wid u T = Some x \<Longrightarrow> we_Status x = ''Running'' \<Longrightarrow> running T wid u"
  unfolding find_execution_def running_def using List_find_Some_iff by metis

lemma CompleteWorkflowTask_step:
  assumes wf: "wf_store (e_uuid E) (s_store s)" and "CompleteWorkflowTask_effect E s i wid rid cs s'"
  shows "engine_step E s s'"
proof -
  obtain u x where x: "find_execution wid u (tabs (s_store s)) = Some x" and
    eff: "if we_Status x \<noteq> ''Running'' then committed [DeleteTask i] 0 0 0 s s'
        else (\<exists>ws. command_log E x wid rid u (begin_now E s) (event_seq (s_store s)) (task_seq (s_store s))
             (timer_seq (s_store s)) (next_event_id wid u (tabs (s_store s))) cs ws \<and>
           committed (ws @ [DeleteTask i]) (int (length (filter known_command cs)))
             (int (count_type ''ScheduleActivity'' cs)) (int (count_type ''StartTimer'' cs)) s s')"
    using assms(2) unfolding CompleteWorkflowTask_effect_def by blast
  show ?thesis
  proof (cases "we_Status x = ''Running''")
    case False
    with eff show ?thesis by (simp, elim committed_step) simp_all
  next
    case True
    with eff obtain ws where ws: "command_log E x wid rid u (begin_now E s) (event_seq (s_store s))
        (task_seq (s_store s)) (timer_seq (s_store s)) (next_event_id wid u (tabs (s_store s))) cs ws"
      and c: "committed (ws @ [DeleteTask i]) (int (length (filter known_command cs)))
             (int (count_type ''ScheduleActivity'' cs)) (int (count_type ''StartTimer'' cs)) s s'" by auto
    from command_log_legal [OF ws wf_execution(1) [OF wf x] find_execution_running [OF x True]]
    show ?thesis by (intro committed_step [OF c]) (auto simp: legal_append)
  qed
qed

lemma ScanTimers_step:
  assumes wf: "wf_store (e_uuid E) (s_store s)" and "ScanTimers_effect E s tms s'"
  shows "engine_step E s s'"
proof -
  from assms(2) obtain ws where f: "fired_log E (tabs (s_store s)) (begin_now E s) (event_seq (s_store s))
      (task_seq (s_store s)) tms ws" and c: "committed ws (int (length tms)) (int (length tms)) 0 s s'"
    unfolding ScanTimers_effect_def by blast
  have "\<forall>x u wid. find_execution wid u (tabs (s_store s)) = Some x \<longrightarrow> (wid, u) \<in> run_keys (tabs (s_store s))"
    using wf_execution(1) [OF wf] by blast
  from fired_log_legal [OF f this] show ?thesis by (intro committed_step [OF c]) auto
qed

lemma PollTask_step: "PollTask_effect E s q ty owner t s' \<Longrightarrow> engine_step E s s'"
  unfolding PollTask_effect_def by (clarsimp, elim committed_step) simp_all

lemma ReclaimExpiredLeases_step:
  "s_store s' = (s_store s)\<lparr>tabs := apply_write (ReclaimLeases now) (tabs (s_store s))\<rparr> \<Longrightarrow> engine_step E s s'"
  by (rule committed_step [of "[ReclaimLeases now]" 0 0 0]) (simp_all add: committed_def)

lemma same_store_step: "s_store s' = s_store s \<Longrightarrow> engine_step E s s'"
  by (simp add: engine_step_def seqs_le_def)

lemmas operation_steps = StartWorkflow_step CompleteWorkflowTask_step CompleteActivityTask_step
  RetryActivityTask_step ExhaustActivityTask_step ScanTimers_step SignalWorkflow_step PollTask_step
  ReclaimExpiredLeases_step

interpretation start: engine_operation "StartWorkflow wid wtype queue input" for wid wtype queue input
  by (rule engine_operationI, rule wp_mono [OF wp_StartWorkflow]) (auto intro: operation_steps)

interpretation complete_workflow: engine_operation "CompleteWorkflowTask i wid rid cs" for i wid rid cs
  by (rule engine_operationI, rule wp_mono [OF CompleteWorkflowTask_spec [unfolded effect_spec_def]])
    (auto intro: operation_steps)

interpretation complete_activity: engine_operation "CompleteActivityTask i wid rid result" for i wid rid result
  by (rule engine_operationI, rule wp_mono [OF CompleteActivityTask_spec [unfolded effect_spec_def]])
    (auto intro: operation_steps)

interpretation fail_activity: engine_operation "FailActivityTask i wid rid msg" for i wid rid msg
  by (rule engine_operationI, rule wp_mono [OF wp_FailActivityTask])
    (auto intro: operation_steps split: if_split_asm)

interpretation scan: engine_operation ScanTimers
  by (rule engine_operationI, rule wp_mono [OF wp_ScanTimers]) (auto intro: operation_steps)

interpretation signal: engine_operation "SignalWorkflow wid rid name input" for wid rid name input
  by (rule engine_operationI, rule wp_mono [OF wp_SignalWorkflow]) (auto intro: operation_steps)

interpretation poll: engine_operation "PollTask queue ttype owner" for queue ttype owner
  by (rule engine_operationI, rule wp_mono [OF wp_PollTask]) (auto intro: operation_steps split: option.splits)

interpretation reclaim: engine_operation ReclaimExpiredLeases
  by (rule engine_operationI, rule wp_mono [OF wp_ReclaimExpiredLeases])
    (auto intro: operation_steps same_store_step simp del: apply_write.simps)

end
