(* ===== verification/Numbering.thy ===== *)
theory Numbering
  imports WellFormed
begin

text \<open>
  The numbering of a run's history. Event IDs are not drawn from a sequence and carry no
  constraint: a method takes the number of events it has just read, plus one. The theory shows
  when that gives every run the IDs 1, 2, 3, ... in the order of insertion, which is what makes
  \<open>ORDER BY event_id\<close> return the history in one order only, and what the exceptions are.
\<close>

definition contiguous :: "Event list \<Rightarrow> bool" where
  "contiguous es \<longleftrightarrow> map ev_EventID es = [1..int (length es)]"

definition dense :: "tables \<Rightarrow> bool" where
  "dense T \<longleftrightarrow> (\<forall>wid rid. contiguous (run_events wid rid T))"

lemma denseD: "dense T \<Longrightarrow> contiguous (run_events wid rid T)"
  by (simp add: dense_def)

text \<open>New events continue the numbering of every run.\<close>

definition continues :: "tables \<Rightarrow> Event list \<Rightarrow> bool" where
  "continues T es \<longleftrightarrow> (\<forall>wid rid. let new = filter (is_event_of wid rid) es in
     map ev_EventID new = [next_event_id wid rid T..next_event_id wid rid T + int (length new) - 1])"

lemma run_events_apply_log:
  "run_events wid rid (apply_log ws T) = run_events wid rid T @ filter (is_event_of wid rid) (event_rows ws)"
  by (simp add: run_events_def events_apply_log)

lemma dense_apply_log:
  assumes "dense T" and "continues T (event_rows ws)"
  shows "dense (apply_log ws T)"
  unfolding dense_def contiguous_def
proof (intro allI)
  fix wid rid
  let ?old = "run_events wid rid T" and ?new = "filter (is_event_of wid rid) (event_rows ws)"
  have "map ev_EventID ?old = [1..int (length ?old)]" using assms(1) by (simp add: dense_def contiguous_def)
  moreover have "map ev_EventID ?new = [int (length ?old) + 1..int (length ?old) + int (length ?new)]"
    using assms(2) unfolding continues_def Let_def next_event_id_def by (metis add_diff_cancel_right' add.commute add.left_commute)
  ultimately show "map ev_EventID (run_events wid rid (apply_log ws T)) =
      [1..int (length (run_events wid rid (apply_log ws T)))]"
    using upto_append_upto [of "length ?old" "length ?new"] by (simp add: run_events_apply_log)
qed

lemma continues_Nil [simp]: "continues T []"
  by (simp add: continues_def)

lemma continues_one: "ev_EventID e = next_event_id (ev_WorkflowID e) (ev_RunID e) T \<Longrightarrow> continues T [e]"
  by (auto simp: continues_def is_event_of_def)

lemma sorted_wrt_contiguous: "contiguous es \<Longrightarrow> sorted_wrt (\<lambda>x y. ev_EventID x < ev_EventID y) es"
  using sorted_wrt_upto [of 1 "int (length es)"] by (simp add: contiguous_def flip: sorted_wrt_map)

text \<open>The history the code reads is then one list, whatever order the rows are stored in.\<close>

lemma select_events_dense:
  "dense T \<Longrightarrow> select_events r wid rid T = run_events wid rid T"
  unfolding select_events_def using sort_key_heap_order [OF sorted_wrt_contiguous [OF denseD]]
  by (simp add: run_events_def)

section \<open>The operations\<close>

text \<open>
  The interface: an engine operation that keeps the numbering dense whenever \<open>pre\<close> holds.
\<close>

locale numbering_operation = engine_operation run for run :: "'a M" +
  fixes pre :: "env \<Rightarrow> sess \<Rightarrow> bool"
  assumes numbers: "serial E \<Longrightarrow> uuid_ok E \<Longrightarrow> wf_store (e_uuid E) (s_store s) \<Longrightarrow> pre E s \<Longrightarrow>
    dense (tabs (s_store s)) \<Longrightarrow> run E s = (r, s') \<Longrightarrow> dense (tabs (s_store s'))"
begin

text \<open>The history of every run is read as the old history with new events behind it.\<close>

lemma history_grows:
  assumes "serial E" "uuid_ok E" "wf_store (e_uuid E) (s_store s)" "pre E s"
    and "dense (tabs (s_store s))" "run E s = (r, s')"
  shows "\<exists>new. select_events k' wid rid (tabs (s_store s')) = select_events k wid rid (tabs (s_store s)) @ new"
proof -
  obtain new where "events (tabs (s_store s')) = events (tabs (s_store s)) @ new"
    using keeps_events [OF assms(1-3,6)] by blast
  then show ?thesis using numbers [OF assms] assms(5) by (simp add: select_events_dense run_events_def)
qed

end

lemma dense_committed: "committed ws a b c s s' \<Longrightarrow> dense (tabs (s_store s)) \<Longrightarrow>
    continues (tabs (s_store s)) (event_rows ws) \<Longrightarrow> dense (tabs (s_store s'))"
  by (simp add: committed_def dense_apply_log)

lemma dense_quiet: "quiet s s' \<Longrightarrow> dense (tabs (s_store s)) \<Longrightarrow> dense (tabs (s_store s'))"
  by (simp add: quiet_def)

lemma numbering_operationI:
  assumes "engine_operation run"
    and "\<And>E s. serial E \<Longrightarrow> uuid_ok E \<Longrightarrow> wf_store (e_uuid E) (s_store s) \<Longrightarrow> pre E s \<Longrightarrow> dense (tabs (s_store s)) \<Longrightarrow>
    wp run E s (\<lambda>_ s'. dense (tabs (s_store s'))) (\<lambda>_ s'. dense (tabs (s_store s')))"
  shows "numbering_operation run pre"
proof (intro numbering_operation.intro assms(1) numbering_operation_axioms.intro)
  fix E s r s'
  assume "serial E" "uuid_ok E" "wf_store (e_uuid E) (s_store s)" "pre E s" "dense (tabs (s_store s))"
    and r: "run E s = (r, s')"
  from wpD [OF assms(2) [OF this(1-5)] r] show "dense (tabs (s_store s'))" by (simp split: sum.splits)
qed

text \<open>No event belongs to a run that does not exist.\<close>

lemma no_events_of_new_run:
  assumes "wf_store U st" and "\<forall>x \<in> set (executions (tabs st)). \<not> is_execution wid u x"
  shows "next_event_id wid u (tabs st) = 1"
proof -
  have "run_events wid u (tabs st) = []"
    using assms unfolding run_events_def wf_store_def wf_tables_def run_keys_def
    by (force simp: filter_empty_conv is_event_of_def is_execution_def run_key_def)
  then show ?thesis by (simp add: next_event_id_def)
qed

lemma StartWorkflow_dense:
  assumes "wf_store U (s_store s)" and "StartWorkflow_effect E s wid wtype queue input rid s'"
    and "dense (tabs (s_store s))"
  shows "dense (tabs (s_store s'))"
  by (insert assms(2), clarsimp simp: StartWorkflow_effect_def)
    (drule no_events_of_new_run [OF assms(1)], elim dense_committed [OF _ assms(3)],
      simp add: new_event_def new_task_def continues_one)

lemma activity_dense:
  assumes "dense (tabs (s_store s))"
  shows "CompleteActivityTask_effect E s i wid rid result s' \<Longrightarrow> dense (tabs (s_store s'))"
    and "RetryActivityTask_effect E s i t s' \<Longrightarrow> dense (tabs (s_store s'))"
    and "ExhaustActivityTask_effect E s i wid rid msg t s' \<Longrightarrow> dense (tabs (s_store s'))"
  unfolding CompleteActivityTask_effect_def RetryActivityTask_effect_def ExhaustActivityTask_effect_def
  by (clarsimp, elim dense_committed [OF _ assms], simp add: new_event_def new_task_def continues_one)+

lemma SignalWorkflow_dense:
  assumes "dense (tabs (s_store s))" and "SignalWorkflow_effect E s wid rid name input s'"
  shows "dense (tabs (s_store s'))"
  using assms(2) unfolding SignalWorkflow_effect_def
  by (auto simp: signal_event_def continues_one split: if_split_asm elim!: dense_committed [OF _ assms(1)])

section \<open>The commands of one workflow task\<close>

text \<open>
  Terminal commands do not advance the event ID, so the numbering relies on the worker's shape of
  the command list: a terminal command is the last one.
\<close>

definition terminal_last :: "Command list \<Rightarrow> bool" where
  "terminal_last cs \<longleftrightarrow> (\<forall>c \<in> set (butlast cs). \<not> terminal_command c)"

lemma terminal_last_simps [simp]:
  "terminal_last []" "terminal_last [c]"
  "cs \<noteq> [] \<Longrightarrow> terminal_last (c # cs) \<longleftrightarrow> \<not> terminal_command c \<and> terminal_last cs"
  by (auto simp: terminal_last_def)

lemma command_event_simps [simp]:
  "ev_WorkflowID (command_event wid rid n c) = wid" "ev_EventID (command_event wid rid n c) = n"
  "ev_RunID (command_event wid rid n c) = rid"
  by (simp_all add: command_event_def)

lemma command_log_numbers:
  assumes "command_log E x wid rid u now es ts ms n cs ws" and "terminal_last cs"
  shows "map ev_EventID (event_rows ws) = [n..n + int (length (event_rows ws)) - 1] \<and>
     (\<forall>e \<in> set (event_rows ws). is_event_of wid u e)"
  using assms
proof (induction cs arbitrary: es ts ms n ws)
  case (Cons c cs)
  show ?case
  proof (cases "cs = []")
    case True
    with Cons.prems(1) show ?thesis by (auto simp: Let_def is_event_of_def split: if_split_asm)
  next
    case False
    with Cons.prems(2) have t: "\<not> terminal_command c" "terminal_last cs" by simp_all
    have head: "[n..n + int k] = n # [n + 1..n + int k]" for k by (simp add: upto_rec1)
    from t Cons.prems(1) show ?thesis
      by (auto simp: Let_def is_event_of_def terminal_command_def head add.commute add.left_commute
          split: if_split_asm dest!: Cons.IH [OF _ t(2)])
  qed
qed simp

lemma continues_run:
  assumes "\<forall>e \<in> set es. is_event_of wid u e"
    and "map ev_EventID es = [next_event_id wid u T..next_event_id wid u T + int (length es) - 1]"
  shows "continues T es"
  unfolding continues_def Let_def
proof (intro allI)
  fix wid' rid'
  have "filter (is_event_of wid' rid') es = (if wid' = wid \<and> rid' = u then es else [])"
    using assms(1) by (auto simp: is_event_of_def filter_empty_conv intro!: filter_True)
  with assms(2) show "map ev_EventID (filter (is_event_of wid' rid') es) =
      [next_event_id wid' rid' T..next_event_id wid' rid' T + int (length (filter (is_event_of wid' rid') es)) - 1]"
    by simp
qed

lemma CompleteWorkflowTask_dense:
  assumes "dense (tabs (s_store s))" and "terminal_last cs"
    and eff: "CompleteWorkflowTask_effect E s i wid rid cs s'"
  shows "dense (tabs (s_store s'))"
  using eff unfolding CompleteWorkflowTask_effect_def
proof (elim exE conjE)
  fix u x
  assume eff: "if we_Status x \<noteq> ''Running'' then committed [DeleteTask i] 0 0 0 s s'
        else (\<exists>ws. command_log E x wid rid u (begin_now E s) (event_seq (s_store s)) (task_seq (s_store s))
             (timer_seq (s_store s)) (next_event_id wid u (tabs (s_store s))) cs ws \<and>
           committed (ws @ [DeleteTask i]) (int (length (filter known_command cs)))
             (int (count_type ''ScheduleActivity'' cs)) (int (count_type ''StartTimer'' cs)) s s')"
  show ?thesis
  proof (cases "we_Status x = ''Running''")
    case False
    with eff show ?thesis by (simp, elim dense_committed [OF _ assms(1)]) simp
  next
    case True
    with eff obtain ws where ws: "command_log E x wid rid u (begin_now E s) (event_seq (s_store s))
        (task_seq (s_store s)) (timer_seq (s_store s)) (next_event_id wid u (tabs (s_store s))) cs ws"
      and c: "committed (ws @ [DeleteTask i]) (int (length (filter known_command cs)))
             (int (count_type ''ScheduleActivity'' cs)) (int (count_type ''StartTimer'' cs)) s s'" by auto
    from command_log_numbers [OF ws assms(2)] show ?thesis
      by (intro dense_committed [OF c assms(1)]) (auto intro: continues_run)
  qed
qed

section \<open>The timers of one scan\<close>

text \<open>
  The scan reads each history outside its transaction, so the numbering relies on no run having
  two due timers at once.
\<close>

definition timer_run :: "Timer \<Rightarrow> string \<times> string" where
  "timer_run t = (tm_WorkflowID t, tm_RunID t)"

definition single_due :: "env \<Rightarrow> sess \<Rightarrow> bool" where
  "single_due E s \<longleftrightarrow> distinct (map timer_run (filter (timer_due (begin_now E s)) (timers (tabs (s_store s)))))"

lemma distinct_filter_conj:
  "distinct (map f (filter P xs)) \<Longrightarrow> distinct (map f (filter (\<lambda>x. P x \<and> Q x) xs))"
  by (induction xs) (auto split: if_splits)

lemma single_due_timers:
  assumes "single_due E s" and "due_timers E s tms"
  shows "distinct (map timer_run tms)" and "set tms \<subseteq> set (timers (tabs (s_store s)))"
proof -
  obtain n where tms: "tms = select_due (e_row_rank E n) (e_row_locked E n) (begin_now E s) (tabs (s_store s))"
    using assms(2) by (auto simp: due_timers_def)
  show "distinct (map timer_run tms)"
    using assms(1) unfolding tms select_due_def take_map [symmetric] single_due_def
    by (intro distinct_take) (simp add: distinct_filter_conj)
  show "set tms \<subseteq> set (timers (tabs (s_store s)))"
    unfolding tms select_due_def by (auto dest!: in_set_takeD)
qed

lemma continues_distinct:
  assumes "distinct (map (\<lambda>e. (ev_WorkflowID e, ev_RunID e)) es)"
    and "\<forall>e \<in> set es. ev_EventID e = next_event_id (ev_WorkflowID e) (ev_RunID e) T"
  shows "continues T es"
  unfolding continues_def Let_def
proof (intro allI)
  fix wid rid
  have "filter (is_event_of wid rid) es = [] \<or> (\<exists>e \<in> set es. is_event_of wid rid e \<and> filter (is_event_of wid rid) es = [e])"
    using assms(1) by (induction es) (auto simp: is_event_of_def filter_empty_conv image_iff)
  with assms(2) show "map ev_EventID (filter (is_event_of wid rid) es) =
      [next_event_id wid rid T..next_event_id wid rid T + int (length (filter (is_event_of wid rid) es)) - 1]"
    by (auto simp: is_event_of_def)
qed

lemma fired_log_events:
  assumes "fired_log E T now es ts tms ws" and "\<forall>t \<in> set tms. e_uuid E (tm_RunID t) = Some (tm_RunID t)"
  shows "map (\<lambda>e. (ev_WorkflowID e, ev_RunID e)) (event_rows ws) = map timer_run tms \<and>
     (\<forall>e \<in> set (event_rows ws). ev_EventID e = next_event_id (ev_WorkflowID e) (ev_RunID e) T)"
  using assms
proof (induction tms arbitrary: es ts ws)
  case (Cons t tms)
  then show ?case by (auto simp: Let_def timer_run_def dest!: Cons.IH)
qed simp

lemma wf_timers:
  "wf_store U st \<Longrightarrow> t \<in> set (timers (tabs st)) \<Longrightarrow> U (tm_RunID t) = Some (tm_RunID t)"
  by (auto simp: wf_store_def wf_tables_def run_keys_def run_key_def execution_ok_def)

lemma wf_run_uuid:
  "wf_store U st \<Longrightarrow> t \<in> set (tasks (tabs st)) \<Longrightarrow> U (t_RunID t) = Some (t_RunID t)"
  by (auto simp: wf_store_def wf_tables_def run_keys_def run_key_def execution_ok_def)

lemma ScanTimers_dense:
  assumes "wf_store (e_uuid E) (s_store s)" and "dense (tabs (s_store s))" and "single_due E s"
    and "ScanTimers_effect E s tms s'"
  shows "dense (tabs (s_store s'))"
proof -
  from assms(4) obtain ws where due: "due_timers E s tms"
    and f: "fired_log E (tabs (s_store s)) (begin_now E s) (event_seq (s_store s)) (task_seq (s_store s)) tms ws"
    and c: "committed ws (int (length tms)) (int (length tms)) 0 s s'"
    unfolding ScanTimers_effect_def by blast
  note d = single_due_timers [OF assms(3) due]
  have "\<forall>t \<in> set tms. e_uuid E (tm_RunID t) = Some (tm_RunID t)" using wf_timers [OF assms(1)] d(2) by blast
  from fired_log_events [OF f this] d(1) show ?thesis
    by (intro dense_committed [OF c assms(2)] continues_distinct) simp_all
qed

lemma lease_dense:
  "PollTask_effect E s q ty owner t s' \<Longrightarrow> dense (tabs (s_store s)) \<Longrightarrow> dense (tabs (s_store s'))"
  "dense T \<Longrightarrow> dense (apply_write (ReclaimLeases now) T)"
  by (auto simp: PollTask_effect_def committed_def dense_def run_events_def)

lemmas operation_dense = StartWorkflow_dense CompleteWorkflowTask_dense activity_dense
  SignalWorkflow_dense ScanTimers_dense lease_dense dense_quiet

section \<open>The operations keep the numbering\<close>

interpretation number_start: numbering_operation "StartWorkflow wid wtype queue input" "\<lambda>_ _. True"
  for wid wtype queue input
  by (rule numbering_operationI [OF start.engine_operation_axioms], rule wp_mono [OF wp_StartWorkflow])
    (auto intro: operation_dense)

interpretation number_workflow: numbering_operation "CompleteWorkflowTask i wid rid cs" "\<lambda>_ _. terminal_last cs"
  for i wid rid cs
  by (rule numbering_operationI [OF complete_workflow.engine_operation_axioms],
      rule wp_mono [OF CompleteWorkflowTask_spec [unfolded effect_spec_def]])
    (auto intro: operation_dense)

interpretation number_activity: numbering_operation "CompleteActivityTask i wid rid result" "\<lambda>_ _. True"
  for i wid rid result
  by (rule numbering_operationI [OF complete_activity.engine_operation_axioms],
      rule wp_mono [OF CompleteActivityTask_spec [unfolded effect_spec_def]])
    (auto intro: operation_dense)

interpretation number_failure: numbering_operation "FailActivityTask i wid rid msg" "\<lambda>_ _. True"
  for i wid rid msg
  by (rule numbering_operationI [OF fail_activity.engine_operation_axioms], rule wp_mono [OF wp_FailActivityTask])
    (auto intro: operation_dense split: if_split_asm)

interpretation number_scan: numbering_operation ScanTimers single_due
  by (rule numbering_operationI [OF scan.engine_operation_axioms], rule wp_mono [OF wp_ScanTimers])
    (auto intro: operation_dense)

interpretation number_signal: numbering_operation "SignalWorkflow wid rid name input" "\<lambda>_ _. True"
  for wid rid name input
  by (rule numbering_operationI [OF signal.engine_operation_axioms], rule wp_mono [OF wp_SignalWorkflow])
    (auto intro: operation_dense)

interpretation number_poll: numbering_operation "PollTask queue ttype owner" "\<lambda>_ _. True" for queue ttype owner
  by (rule numbering_operationI [OF poll.engine_operation_axioms], rule wp_mono [OF wp_PollTask])
    (auto intro: operation_dense split: option.splits)

interpretation number_reclaim: numbering_operation ReclaimExpiredLeases "\<lambda>_ _. True"
  by (rule numbering_operationI [OF reclaim.engine_operation_axioms], rule wp_mono [OF wp_ReclaimExpiredLeases])
    (auto intro: operation_dense simp del: apply_write.simps)

end
