(* ===== verification/Frontend.thy ===== *)
theory Frontend
  imports Numbering
begin

text \<open>
  The gRPC frontend: the messages of \<open>proto/engine/v1\<close>, the conversions between messages and the
  engine's own types, \<open>toStatus\<close>, the seven handlers of \<open>internal/frontend/grpc/handler.go\<close> and
  the logging interceptor. A handler returns a response (\<open>None\<close> for a nil pointer) and a status
  (\<open>None\<close> for success). What the handlers log is output only and is left out.
\<close>

section \<open>Messages\<close>

record StartWorkflowRequest =
  swq_WorkflowId :: string
  swq_WorkflowType :: string
  swq_TaskQueue :: string
  swq_Input :: "bytes option"

record StartWorkflowResponse =
  swr_RunId :: string

record HistoryEvent =
  he_EventId :: int
  he_EventType :: string
  he_ActivityName :: string
  he_ActivityIndex :: i32
  he_Data :: "bytes option"
  he_TimerIndex :: i32
  he_SignalName :: string

record pbCommand =
  pc_Type :: string
  pc_ActivityName :: string
  pc_ActivityIndex :: i32
  pc_TaskQueue :: string
  pc_Input :: "bytes option"
  pc_Data :: "bytes option"
  pc_TimerIndex :: i32
  pc_DurationMs :: i64

record PollWorkflowTaskRequest =
  pwq_TaskQueue :: string
  pwq_LeaseOwner :: string

record PollWorkflowTaskResponse =
  pwr_TaskId :: int
  pwr_WorkflowId :: string
  pwr_RunId :: string
  pwr_WorkflowType :: string
  pwr_History :: "HistoryEvent list"

record PollActivityTaskRequest =
  paq_TaskQueue :: string
  paq_LeaseOwner :: string

record PollActivityTaskResponse =
  par_TaskId :: int
  par_WorkflowId :: string
  par_RunId :: string
  par_ActivityName :: string
  par_Input :: "bytes option"

record RespondWorkflowTaskCompletedRequest =
  rwq_TaskId :: int
  rwq_WorkflowId :: string
  rwq_RunId :: string
  rwq_Commands :: "pbCommand list"

record RespondActivityTaskCompletedRequest =
  rcq_TaskId :: int
  rcq_WorkflowId :: string
  rcq_RunId :: string
  rcq_Result :: "bytes option"

record RespondActivityTaskFailedRequest =
  rfq_TaskId :: int
  rfq_WorkflowId :: string
  rfq_RunId :: string
  rfq_Error :: string

record SignalWorkflowRequest =
  sgq_WorkflowId :: string
  sgq_RunId :: string
  sgq_SignalName :: string
  sgq_Input :: "bytes option"

text \<open>The zero values of the messages that the code builds without setting every field.\<close>

definition zero_pbCommand :: pbCommand where
  "zero_pbCommand = \<lparr>pc_Type = [], pc_ActivityName = [], pc_ActivityIndex = 0, pc_TaskQueue = [],
     pc_Input = None, pc_Data = None, pc_TimerIndex = 0, pc_DurationMs = 0\<rparr>"

definition zero_PollWorkflowTaskResponse :: PollWorkflowTaskResponse where
  "zero_PollWorkflowTaskResponse = \<lparr>pwr_TaskId = 0, pwr_WorkflowId = [], pwr_RunId = [],
     pwr_WorkflowType = [], pwr_History = []\<rparr>"

definition zero_PollActivityTaskResponse :: PollActivityTaskResponse where
  "zero_PollActivityTaskResponse = \<lparr>par_TaskId = 0, par_WorkflowId = [], par_RunId = [],
     par_ActivityName = [], par_Input = None\<rparr>"

section \<open>Errors at the wire\<close>

datatype code = AlreadyExists | FailedPrecondition | NotFound | Internal

datatype Status = Status (status_code: code) (status_message: string)

fun toStatus :: "go_error option \<Rightarrow> Status option" where
  "toStatus None = None"
| "toStatus (Some err) =
     (if errors_Is err ErrWorkflowAlreadyRunning then Some (Status AlreadyExists (error_Error err))
      else if errors_Is err ErrWorkflowNotRunning then Some (Status FailedPrecondition (error_Error err))
      else if errors_Is err ErrNotFound then Some (Status NotFound (error_Error err))
      else Some (Status Internal ''internal error''))"

section \<open>Conversions\<close>

definition unmarshalCommands :: "pbCommand list \<Rightarrow> Command list" where
  "unmarshalCommands commands = map (\<lambda>c.
     \<lparr>c_Type = pc_Type c,
      c_ActivityName = pc_ActivityName c,
      c_TaskQueue = pc_TaskQueue c,
      c_Input = pc_Input c,
      c_ActivityIndex = pc_ActivityIndex c,
      c_TimerIndex = pc_TimerIndex c,
      c_DurationMs = pc_DurationMs c\<rparr>) commands"

definition marshalEvents :: "Event list \<Rightarrow> HistoryEvent list" where
  "marshalEvents evs = map (\<lambda>e.
     \<lparr>he_EventId = ev_EventID e,
      he_EventType = ev_EventType e,
      he_ActivityName = ev_ActivityName e,
      he_ActivityIndex = ev_ActivityIndex e,
      he_Data = ev_Data e,
      he_TimerIndex = ev_TimerIndex e,
      he_SignalName = ev_SignalName e\<rparr>) evs"

section \<open>Handlers\<close>

type_synonym 'r reply = "'r option \<times> Status option"

definition Handler_StartWorkflow :: "StartWorkflowRequest \<Rightarrow> StartWorkflowResponse reply M" where
  "Handler_StartWorkflow req =
     bindM (tryM (StartWorkflow (swq_WorkflowId req) (swq_WorkflowType req) (swq_TaskQueue req) (swq_Input req)))
     (\<lambda>res. case res of
       Inl err \<Rightarrow> returnM (None, toStatus (Some err))
     | Inr runID \<Rightarrow> returnM (Some \<lparr>swr_RunId = runID\<rparr>, None))"

definition count_poll :: "string \<Rightarrow> string \<Rightarrow> unit M" where
  "count_poll ttype result = metricM (\<lambda>m. m\<lparr>TaskPolls := (TaskPolls m)
     ((ttype, result) := TaskPolls m (ttype, result) + 1)\<rparr>)"

definition Handler_PollWorkflowTask :: "PollWorkflowTaskRequest \<Rightarrow> PollWorkflowTaskResponse reply M" where
  "Handler_PollWorkflowTask req =
     bindM (tryM (PollTask (pwq_TaskQueue req) ''workflow'' (pwq_LeaseOwner req))) (\<lambda>res. case res of
       Inl err \<Rightarrow> returnM (Some zero_PollWorkflowTaskResponse, toStatus (Some err))
     | Inr row \<Rightarrow> (case row of
         None \<Rightarrow> bindM (count_poll ''workflow'' ''miss'') (\<lambda>_.
           returnM (Some zero_PollWorkflowTaskResponse, None))
       | Some task \<Rightarrow> bindM (count_poll ''workflow'' ''hit'') (\<lambda>_.
           bindM (tryM (GetEvents (t_WorkflowID task) (t_RunID task))) (\<lambda>res. case res of
             Inl err \<Rightarrow> returnM (None, toStatus (Some err))
           | Inr evs \<Rightarrow> returnM (Some
               \<lparr>pwr_TaskId = t_ID task,
                pwr_WorkflowId = t_WorkflowID task,
                pwr_RunId = t_RunID task,
                pwr_WorkflowType = t_WorkflowType task,
                pwr_History = marshalEvents evs\<rparr>, None)))))"

definition Handler_RespondWorkflowTaskCompleted :: "RespondWorkflowTaskCompletedRequest \<Rightarrow> unit reply M" where
  "Handler_RespondWorkflowTaskCompleted req =
     bindM (tryM (CompleteWorkflowTask (rwq_TaskId req) (rwq_WorkflowId req) (rwq_RunId req)
       (unmarshalCommands (rwq_Commands req)))) (\<lambda>res. case res of
       Inl err \<Rightarrow> returnM (Some (), toStatus (Some err))
     | Inr _ \<Rightarrow> returnM (Some (), None))"

definition Handler_PollActivityTask :: "PollActivityTaskRequest \<Rightarrow> PollActivityTaskResponse reply M" where
  "Handler_PollActivityTask req =
     bindM (tryM (PollTask (paq_TaskQueue req) ''activity'' (paq_LeaseOwner req))) (\<lambda>res. case res of
       Inl err \<Rightarrow> returnM (Some zero_PollActivityTaskResponse, toStatus (Some err))
     | Inr row \<Rightarrow> (case row of
         None \<Rightarrow> bindM (count_poll ''activity'' ''miss'') (\<lambda>_.
           returnM (Some zero_PollActivityTaskResponse, None))
       | Some task \<Rightarrow> bindM (count_poll ''activity'' ''hit'') (\<lambda>_.
           returnM (Some
             \<lparr>par_TaskId = t_ID task,
              par_WorkflowId = t_WorkflowID task,
              par_RunId = t_RunID task,
              par_ActivityName = t_ActivityName task,
              par_Input = t_Input task\<rparr>, None))))"

definition Handler_RespondActivityTaskCompleted :: "RespondActivityTaskCompletedRequest \<Rightarrow> unit reply M" where
  "Handler_RespondActivityTaskCompleted req =
     bindM (tryM (CompleteActivityTask (rcq_TaskId req) (rcq_WorkflowId req) (rcq_RunId req) (rcq_Result req)))
     (\<lambda>res. case res of
       Inl err \<Rightarrow> returnM (Some (), toStatus (Some err))
     | Inr _ \<Rightarrow> returnM (Some (), None))"

definition Handler_RespondActivityTaskFailed :: "RespondActivityTaskFailedRequest \<Rightarrow> unit reply M" where
  "Handler_RespondActivityTaskFailed req =
     bindM (tryM (FailActivityTask (rfq_TaskId req) (rfq_WorkflowId req) (rfq_RunId req) (rfq_Error req)))
     (\<lambda>res. case res of
       Inl err \<Rightarrow> returnM (Some (), toStatus (Some err))
     | Inr _ \<Rightarrow> returnM (Some (), None))"

definition Handler_SignalWorkflow :: "SignalWorkflowRequest \<Rightarrow> unit reply M" where
  "Handler_SignalWorkflow req =
     bindM (tryM (SignalWorkflow (sgq_WorkflowId req) (sgq_RunId req) (sgq_SignalName req) (sgq_Input req)))
     (\<lambda>res. case res of
       Inl err \<Rightarrow> returnM (Some (), toStatus (Some err))
     | Inr _ \<Rightarrow> returnM (Some (), None))"

section \<open>The logging interceptor\<close>

text \<open>
  A logger is the list of attributes \<open>With\<close> has attached to it; a request context is the logger
  stored under \<open>loggerCtxKey\<close>, if any. \<open>strings.LastIndex\<close> is -1 when the separator is absent.
\<close>

type_synonym logger = "(string \<times> string) list"
type_synonym request_context = "logger option"

definition loggerFrom :: "request_context \<Rightarrow> logger \<Rightarrow> logger" where
  "loggerFrom ctx def = (case ctx of Some l \<Rightarrow> l | None \<Rightarrow> def)"

fun LastIndex :: "string \<Rightarrow> char \<Rightarrow> int" where
  "LastIndex [] c = - 1"
| "LastIndex (x # xs) c = (let i = LastIndex xs c in
     if i \<ge> 0 then i + 1 else if x = c then 0 else - 1)"

definition rpc_name :: "string \<Rightarrow> string" where
  "rpc_name fullMethod = drop (nat (LastIndex fullMethod (CHR ''/'') + 1)) fullMethod"

definition LoggingInterceptor ::
  "logger \<Rightarrow> string \<Rightarrow> (request_context \<Rightarrow> 'req \<Rightarrow> 'res) \<Rightarrow> request_context \<Rightarrow> 'req \<Rightarrow> 'res" where
  "LoggingInterceptor logger fullMethod handler ctx req =
     (let rpc = rpc_name fullMethod in handler (Some (logger @ [(''rpc'', rpc)])) req)"

lemma LastIndex_bounds: "- 1 \<le> LastIndex s c \<and> LastIndex s c < int (length s)"
  by (induction s) (auto simp: Let_def)

lemma LastIndex_absent: "LastIndex s c = - 1 \<longleftrightarrow> c \<notin> set s"
proof (induction s)
  case (Cons x xs)
  with LastIndex_bounds [of xs c] show ?case by (auto simp: Let_def)
qed simp

lemma LastIndex_append: "c \<notin> set m \<Longrightarrow> LastIndex (p @ c # m) c = int (length p)"
proof (induction p)
  case Nil
  then show ?case by (simp add: LastIndex_absent [THEN iffD2] Let_def)
qed (simp add: Let_def)

lemma rpc_name_append: "CHR ''/'' \<notin> set m \<Longrightarrow> rpc_name (p @ CHR ''/'' # m) = m"
  by (simp add: rpc_name_def LastIndex_append nat_add_distrib)

lemma rpc_name_plain: "CHR ''/'' \<notin> set m \<Longrightarrow> rpc_name m = m"
  by (simp add: rpc_name_def LastIndex_absent [THEN iffD2])

section \<open>The handlers keep the contract of the engine\<close>

text \<open>What a handler does after its engine call does not touch the store.\<close>

lemma GetEvents_store:
  "serial E \<Longrightarrow> GetEvents wid rid E s = (r, s') \<Longrightarrow> s_store s' = s_store s"
  by (auto simp: GetEvents_def wrap_rows_def db_call_def with_uuid_def split: prod.splits sum.splits option.splits if_splits)

definition store_quiet :: "'a M \<Rightarrow> bool" where
  "store_quiet m \<longleftrightarrow> (\<forall>E s. serial E \<longrightarrow> s_store (snd (m E s)) = s_store s)"

lemma store_quiet_simps [intro, simp]:
  "store_quiet (returnM x)"
  "store_quiet (count_poll a b)"
  "store_quiet (tryM (GetEvents wid rid))"
  by (auto simp: store_quiet_def returnM_def count_poll_def metricM_def tryM_def dest: GetEvents_store
      split: prod.splits)

lemma store_quiet_bind [intro]:
  "store_quiet m \<Longrightarrow> (\<And>x. store_quiet (k x)) \<Longrightarrow> store_quiet (bindM m k)"
  by (auto simp: store_quiet_def bindM_def split: prod.splits sum.splits) (metis snd_conv)+

lemma store_quiet_case [intro]:
  "(\<And>e. store_quiet (f e)) \<Longrightarrow> (\<And>y. store_quiet (g y)) \<Longrightarrow> store_quiet (case x of Inl e \<Rightarrow> f e | Inr y \<Rightarrow> g y)"
  "store_quiet a \<Longrightarrow> (\<And>t. store_quiet (b t)) \<Longrightarrow> store_quiet (case z of None \<Rightarrow> a | Some t \<Rightarrow> b t)"
  by (auto split: sum.splits option.splits)

lemma handler_session:
  assumes "serial E" and "\<And>res. store_quiet (k res)" and "bindM (tryM m) k E s = (r, s')"
  obtains r1 s1 where "m E s = (r1, s1)" and "s_store s' = s_store s1"
proof -
  obtain r1 s1 where m: "m E s = (r1, s1)" by (cases "m E s")
  then have "s_store (snd (k r1 E s1)) = s_store s1" using assms(1,2) by (simp add: store_quiet_def)
  with m assms(3) that show ?thesis by (simp add: bindM_def tryM_def)
qed

lemma engine_step_store:
  "engine_step E s s1 \<Longrightarrow> s_store s2 = s_store s1 \<Longrightarrow> engine_step E s s2"
  by (simp add: engine_step_def seqs_le_def commits_legally_def committed_def)

context engine_operation begin

lemma handled:
  assumes "\<And>res. store_quiet (k res)"
  shows "engine_operation (bindM (tryM run) k)"
proof
  fix E s r s'
  assume E: "serial E" "uuid_ok E" "wf_store (e_uuid E) (s_store s)" and r: "bindM (tryM run) k E s = (r, s')"
  from handler_session [OF E(1) assms r] obtain r1 s1 where "run E s = (r1, s1)" "s_store s' = s_store s1" .
  with step [OF E] show "engine_step E s s'" by (auto intro: engine_step_store)
qed

end

context numbering_operation begin

lemma handled_numbers:
  assumes "\<And>res. store_quiet (k res)"
  shows "numbering_operation (bindM (tryM run) k) pre"
proof (intro numbering_operation.intro handled assms numbering_operation_axioms.intro)
  fix E s r s'
  assume E: "serial E" "uuid_ok E" "wf_store (e_uuid E) (s_store s)" "pre E s" "dense (tabs (s_store s))"
    and r: "bindM (tryM run) k E s = (r, s')"
  from handler_session [OF E(1) assms r] obtain r1 s1 where "run E s = (r1, s1)" "s_store s' = s_store s1" .
  with numbers [OF E] show "dense (tabs (s_store s'))" by simp
qed

end

interpretation rpc_start: numbering_operation "Handler_StartWorkflow req" "\<lambda>_ _. True" for req
  unfolding Handler_StartWorkflow_def by (rule number_start.handled_numbers) auto

interpretation rpc_poll_workflow: numbering_operation "Handler_PollWorkflowTask req" "\<lambda>_ _. True" for req
  unfolding Handler_PollWorkflowTask_def by (rule number_poll.handled_numbers) (intro store_quiet_bind store_quiet_case store_quiet_simps)

interpretation rpc_workflow: numbering_operation "Handler_RespondWorkflowTaskCompleted req"
    "\<lambda>_ _. terminal_last (unmarshalCommands (rwq_Commands req))" for req
  unfolding Handler_RespondWorkflowTaskCompleted_def by (rule number_workflow.handled_numbers) auto

interpretation rpc_poll_activity: numbering_operation "Handler_PollActivityTask req" "\<lambda>_ _. True" for req
  unfolding Handler_PollActivityTask_def by (rule number_poll.handled_numbers) (intro store_quiet_bind store_quiet_case store_quiet_simps)

interpretation rpc_activity: numbering_operation "Handler_RespondActivityTaskCompleted req" "\<lambda>_ _. True" for req
  unfolding Handler_RespondActivityTaskCompleted_def by (rule number_activity.handled_numbers) auto

interpretation rpc_failure: numbering_operation "Handler_RespondActivityTaskFailed req" "\<lambda>_ _. True" for req
  unfolding Handler_RespondActivityTaskFailed_def by (rule number_failure.handled_numbers) auto

interpretation rpc_signal: numbering_operation "Handler_SignalWorkflow req" "\<lambda>_ _. True" for req
  unfolding Handler_SignalWorkflow_def by (rule number_signal.handled_numbers) auto

end
