(* ===== verification/Workflow.thy ===== *)
theory Workflow
  imports Frontend
begin

text \<open>
  The workflow side of the SDK (\<open>sdk/workflow/context.go\<close>): the replay context, the four calls a
  workflow function makes on it, and replay itself.

  A workflow function is ordinary Go code between calls of the SDK. It is modelled by the tree of
  the calls it makes (\<open>'v wf\<close>): each node is one call, with the rest of the function as a
  function of what the call returns, so every deterministic workflow function is a tree, and
  nothing of the code under \<open>sdk\<close> is assumed about it. \<open>'v\<close> is the type of Go values; the
  \<open>encoding/json\<close> package is an argument. \<open>Unmarshal\<close> takes the bytes and the old value of the
  target, and returns the error and the new value.
\<close>

record 'v json =
  json_Marshal :: "'v \<Rightarrow> string + bytes"
  json_Unmarshal :: "bytes \<Rightarrow> 'v \<Rightarrow> string option \<times> 'v"

record Context =
  wc_history :: "HistoryEvent list"
  wc_commands :: "pbCommand list"
  wc_queue :: string
  wc_signalConsumed :: "string \<Rightarrow> nat"
  wc_activityCallCount :: nat
  wc_timerCallCount :: nat

definition New :: "HistoryEvent list \<Rightarrow> string \<Rightarrow> Context" where
  "New history queue = \<lparr>wc_history = history, wc_commands = [], wc_queue = queue,
     wc_signalConsumed = (\<lambda>_. 0), wc_activityCallCount = 0, wc_timerCallCount = 0\<rparr>"

definition Commands :: "Context \<Rightarrow> pbCommand list" where
  "Commands c = wc_commands c"

definition HasPendingActivities :: "Context \<Rightarrow> bool" where
  "HasPendingActivities c =
     (let scheduled = map he_ActivityName (filter (\<lambda>e. he_EventType e = ''ActivityScheduled'') (wc_history c));
          completed = map he_ActivityName (filter (\<lambda>e. he_EventType e = ''ActivityCompleted'') (wc_history c))
      in list_ex (\<lambda>name. name \<notin> set completed) scheduled)"

section \<open>Activities\<close>

record future =
  f_activityName :: string
  f_callIndex :: nat

definition is_scheduled :: "string \<Rightarrow> nat \<Rightarrow> HistoryEvent \<Rightarrow> bool" where
  "is_scheduled name callIndex e \<longleftrightarrow> he_EventType e = ''ActivityScheduled'' \<and>
     he_ActivityName e = name \<and> he_ActivityIndex e = word_of_nat callIndex"

definition schedule_command :: "'v json \<Rightarrow> string \<Rightarrow> string \<Rightarrow> nat \<Rightarrow> 'v \<Rightarrow> pbCommand" where
  "schedule_command js queue name callIndex input =
     (let inputBytes = (case json_Marshal js input of Inl err \<Rightarrow> None | Inr b \<Rightarrow> Some b) in
      zero_pbCommand\<lparr>
        pc_Type := ''ScheduleActivity'',
        pc_TaskQueue := queue,
        pc_ActivityName := name,
        pc_ActivityIndex := word_of_nat callIndex,
        pc_Input := inputBytes\<rparr>)"

definition ExecuteActivity :: "'v json \<Rightarrow> Context \<Rightarrow> string \<Rightarrow> 'v \<Rightarrow> future \<times> Context" where
  "ExecuteActivity js ctx activityName input =
     (let callIndex = wc_activityCallCount ctx;
          ctx1 = ctx\<lparr>wc_activityCallCount := callIndex + 1\<rparr>;
          alreadyScheduled = list_ex (is_scheduled activityName callIndex) (wc_history ctx1);
          ctx2 = (if \<not> alreadyScheduled
                  then ctx1\<lparr>wc_commands := wc_commands ctx1 @
                         [schedule_command js (wc_queue ctx1) activityName callIndex input]\<rparr>
                  else ctx1)
      in (\<lparr>f_activityName = activityName, f_callIndex = callIndex\<rparr>, ctx2))"

text \<open>
  \<open>Get\<close> walks the history; \<open>None\<close> is the panic with \<open>ErrPendingActivity\<close>. The result is the
  error and the value of \<open>out\<close> afterwards (\<open>None\<close> for a nil \<open>out\<close>).
\<close>

fun Get_loop ::
  "'v json \<Rightarrow> string \<Rightarrow> nat \<Rightarrow> 'v option \<Rightarrow> HistoryEvent list \<Rightarrow> (string option \<times> 'v option) option" where
  "Get_loop js name callIndex out [] = None"
| "Get_loop js name callIndex out (e # es) =
     (if he_ActivityName e \<noteq> name then Get_loop js name callIndex out es
      else if he_ActivityIndex e \<noteq> word_of_nat callIndex then Get_loop js name callIndex out es
      else if he_EventType e = ''ActivityCompleted'' then
        (case (out, he_Data e) of
           (Some v, Some (b # bs)) \<Rightarrow> (case json_Unmarshal js (b # bs) v of (err, v') \<Rightarrow> Some (err, Some v'))
         | _ \<Rightarrow> Some (None, out))
      else if he_EventType e = ''ActivityFailed'' then
        Some (Some (case he_Data e of None \<Rightarrow> '''' | Some d \<Rightarrow> d), out)
      else Get_loop js name callIndex out es)"

definition Get :: "'v json \<Rightarrow> Context \<Rightarrow> future \<Rightarrow> 'v option \<Rightarrow> (string option \<times> 'v option) option" where
  "Get js ctx f out = Get_loop js (f_activityName f) (f_callIndex f) out (wc_history ctx)"

section \<open>Timers\<close>

text \<open>\<open>time.Duration.Milliseconds\<close> divides towards zero.\<close>

definition Milliseconds :: "int \<Rightarrow> int" where
  "Milliseconds d = (if d \<ge> 0 then d div 1000000 else - ((- d) div 1000000))"

definition is_timer_event :: "string \<Rightarrow> nat \<Rightarrow> HistoryEvent \<Rightarrow> bool" where
  "is_timer_event ty timerIndex e \<longleftrightarrow> he_EventType e = ty \<and> he_TimerIndex e = word_of_nat timerIndex"

definition timer_command :: "nat \<Rightarrow> int \<Rightarrow> pbCommand" where
  "timer_command timerIndex duration = zero_pbCommand\<lparr>
     pc_Type := ''StartTimer'',
     pc_TimerIndex := word_of_nat timerIndex,
     pc_DurationMs := word_of_int (Milliseconds duration)\<rparr>"

text \<open>The flag says whether \<open>Sleep\<close> returned; otherwise it panicked with \<open>ErrPendingActivity\<close>.\<close>

definition Sleep :: "Context \<Rightarrow> int \<Rightarrow> bool \<times> Context" where
  "Sleep ctx duration =
     (let timerIndex = wc_timerCallCount ctx;
          ctx1 = ctx\<lparr>wc_timerCallCount := timerIndex + 1\<rparr>
      in if list_ex (is_timer_event ''TimerFired'' timerIndex) (wc_history ctx1) then (True, ctx1)
         else if list_ex (is_timer_event ''TimerStarted'' timerIndex) (wc_history ctx1) then (False, ctx1)
         else (False, ctx1\<lparr>wc_commands := wc_commands ctx1 @ [timer_command timerIndex duration]\<rparr>))"

section \<open>Signals\<close>

definition is_signal :: "string \<Rightarrow> HistoryEvent \<Rightarrow> bool" where
  "is_signal name e \<longleftrightarrow> he_EventType e = ''SignalReceived'' \<and> he_SignalName e = name"

text \<open>The loop of \<open>ReceiveSignal\<close>: the signal at position \<open>consumed\<close>, counting from \<open>seen\<close>.\<close>

fun signal_loop :: "string \<Rightarrow> nat \<Rightarrow> nat \<Rightarrow> HistoryEvent list \<Rightarrow> HistoryEvent option" where
  "signal_loop name consumed seen [] = None"
| "signal_loop name consumed seen (e # es) =
     (if is_signal name e then
        if seen = consumed then Some e else signal_loop name consumed (seen + 1) es
      else signal_loop name consumed seen es)"

text \<open>\<open>None\<close> is the panic; an error of \<open>Unmarshal\<close> is ignored, as in the code.\<close>

definition ReceiveSignal ::
  "'v json \<Rightarrow> Context \<Rightarrow> string \<Rightarrow> 'v option \<Rightarrow> ('v option \<times> Context) option" where
  "ReceiveSignal js ctx signalName out =
     (let consumed = wc_signalConsumed ctx signalName in
      case signal_loop signalName consumed 0 (wc_history ctx) of
        None \<Rightarrow> None
      | Some e \<Rightarrow> Some
          (map_option (\<lambda>v. snd (json_Unmarshal js (case he_Data e of None \<Rightarrow> [] | Some d \<Rightarrow> d) v)) out,
           ctx\<lparr>wc_signalConsumed := (wc_signalConsumed ctx)(signalName := consumed + 1)\<rparr>))"

section \<open>Replay\<close>

datatype 'v wf =
    Return "string option"
  | Panic string
  | CallActivity string 'v "future \<Rightarrow> 'v wf"
  | CallGet future "'v option" "string option \<times> 'v option \<Rightarrow> 'v wf"
  | CallSleep int "'v wf"
  | CallReceive string "'v option" "'v option \<Rightarrow> 'v wf"

datatype outcome = Suspended | Returned "string option" | Panicked string

primrec replay :: "'v json \<Rightarrow> 'v wf \<Rightarrow> Context \<Rightarrow> outcome \<times> Context" where
  "replay js (Return err) ctx = (Returned err, ctx)"
| "replay js (Panic r) ctx = (Panicked r, ctx)"
| "replay js (CallActivity name input k) ctx =
     (let (f, ctx') = ExecuteActivity js ctx name input in replay js (k f) ctx')"
| "replay js (CallGet f out k) ctx =
     (case Get js ctx f out of None \<Rightarrow> (Suspended, ctx) | Some r \<Rightarrow> replay js (k r) ctx)"
| "replay js (CallSleep d w) ctx =
     (let (returned, ctx') = Sleep ctx d in if returned then replay js w ctx' else (Suspended, ctx'))"
| "replay js (CallReceive name out k) ctx =
     (case ReceiveSignal js ctx name out of None \<Rightarrow> (Suspended, ctx)
      | Some (v, ctx') \<Rightarrow> replay js (k v) ctx')"

end
