(* ===== verification/Replay.thy ===== *)
theory Replay
  imports Workflow
begin

text \<open>
  Replay is the contract between worker and engine: a workflow function is run again from its
  first line on every workflow task, over a history that has only grown. The lemmas say what a
  call returns, that nothing a run has observed changes when the history grows, that no command
  is issued for what the history already records, and what commands one replay can issue.
\<close>

section \<open>What a call returns\<close>

definition resolves :: "string \<Rightarrow> nat \<Rightarrow> HistoryEvent \<Rightarrow> bool" where
  "resolves name callIndex e \<longleftrightarrow> he_ActivityName e = name \<and> he_ActivityIndex e = word_of_nat callIndex \<and>
     he_EventType e \<in> {''ActivityCompleted'', ''ActivityFailed''}"

definition resolution :: "'v json \<Rightarrow> 'v option \<Rightarrow> HistoryEvent \<Rightarrow> string option \<times> 'v option" where
  "resolution js out e =
     (if he_EventType e = ''ActivityFailed'' then (Some (case he_Data e of None \<Rightarrow> '''' | Some d \<Rightarrow> d), out)
      else case (out, he_Data e) of
           (Some v, Some (b # bs)) \<Rightarrow> (fst (json_Unmarshal js (b # bs) v), Some (snd (json_Unmarshal js (b # bs) v)))
         | _ \<Rightarrow> (None, out))"

text \<open>\<open>Get\<close> returns the first result or failure that the history has for its call.\<close>

lemma Get_loop_find:
  "Get_loop js name i out es = map_option (resolution js out) (List.find (resolves name i) es)"
proof (induction es)
  case (Cons e es)
  then show ?case
    by (cases out; cases "he_Data e"; cases "the (he_Data e)")
      (auto simp: resolves_def resolution_def split: prod.splits)
qed simp

lemma signal_loop_find:
  "signal_loop name (seen + k) seen es =
     (if k < length (filter (is_signal name) es) then Some (filter (is_signal name) es ! k) else None)"
proof (induction es arbitrary: seen k)
  case (Cons e es)
  from Cons.IH [of "seen + 1" "k - 1"] Cons.IH [of seen k] show ?case by (cases k) auto
qed simp

lemma signal_loop_nth:
  "signal_loop name k 0 es =
     (if k < length (filter (is_signal name) es) then Some (filter (is_signal name) es ! k) else None)"
  using signal_loop_find [of name 0 k es] by simp

section \<open>Histories that grow\<close>

text \<open>\<open>d\<close> is a context at the same point as \<open>c\<close> whose history has \<open>new\<close> behind that of \<open>c\<close>.\<close>

definition grown :: "HistoryEvent list \<Rightarrow> Context \<Rightarrow> Context \<Rightarrow> bool" where
  "grown new c d \<longleftrightarrow> wc_history d = wc_history c @ new \<and> wc_signalConsumed d = wc_signalConsumed c \<and>
     wc_activityCallCount d = wc_activityCallCount c \<and> wc_timerCallCount d = wc_timerCallCount c"

lemma grown_New: "grown new (New h q) (New (h @ new) q')"
  by (simp add: grown_def New_def)

lemma ExecuteActivity_grown:
  assumes "grown new c d"
  shows "fst (ExecuteActivity js d n v) = fst (ExecuteActivity js c n v)"
    and "grown new (snd (ExecuteActivity js c n v)) (snd (ExecuteActivity js d n v))"
  using assms by (simp_all add: grown_def ExecuteActivity_def Let_def)

lemma Get_grown:
  "grown new c d \<Longrightarrow> Get js c f out = Some r \<Longrightarrow> Get js d f out = Some r"
  by (auto simp: Get_def grown_def Get_loop_find List_find_append split: option.splits dest: List_find_Some_iff)

lemma Sleep_grown:
  assumes "grown new c d" and "fst (Sleep c t)"
  shows "fst (Sleep d t)" and "grown new (snd (Sleep c t)) (snd (Sleep d t))"
  using assms by (auto simp: grown_def Sleep_def Let_def split: if_splits)

lemma ReceiveSignal_grown:
  assumes "grown new c d" and "ReceiveSignal js c name out = Some (v, c')"
  obtains d' where "ReceiveSignal js d name out = Some (v, d')" and "grown new c' d'"
  using assms by (auto simp: grown_def ReceiveSignal_def Let_def signal_loop_nth nth_append split: option.splits if_splits)

text \<open>
  The observations of a replay: what each call that can suspend returned, in order. The workflow
  function sees nothing else of the history.
\<close>

datatype 'v obs =
    ObsCall future
  | ObsGet future "string option \<times> 'v option"
  | ObsSleep
  | ObsSignal string "'v option"

primrec observations :: "'v json \<Rightarrow> 'v wf \<Rightarrow> Context \<Rightarrow> 'v obs list" where
  "observations js (Return err) ctx = []"
| "observations js (Panic r) ctx = []"
| "observations js (CallActivity name input k) ctx =
     (let (f, ctx') = ExecuteActivity js ctx name input in ObsCall f # observations js (k f) ctx')"
| "observations js (CallGet f out k) ctx =
     (case Get js ctx f out of None \<Rightarrow> [] | Some r \<Rightarrow> ObsGet f r # observations js (k r) ctx)"
| "observations js (CallSleep d w) ctx =
     (let (returned, ctx') = Sleep ctx d in if returned then ObsSleep # observations js w ctx' else [])"
| "observations js (CallReceive name out k) ctx =
     (case ReceiveSignal js ctx name out of None \<Rightarrow> []
      | Some (v, ctx') \<Rightarrow> ObsSignal name v # observations js (k v) ctx')"

lemma observations_grow:
  "grown new c d \<Longrightarrow> \<exists>more. observations js w d = observations js w c @ more"
proof (induction w arbitrary: c d)
  case (CallActivity name input k)
  from CallActivity.IH [OF rangeI ExecuteActivity_grown(2) [OF CallActivity.prems]]
    ExecuteActivity_grown(1) [OF CallActivity.prems, of js name input]
  show ?case by (simp add: case_prod_unfold Let_def)
next
  case (CallGet f out k)
  show ?case
  proof (cases "Get js c f out")
    case (Some r)
    with CallGet.IH [OF rangeI CallGet.prems, of r] Get_grown [OF CallGet.prems Some] show ?thesis by simp
  qed simp
next
  case (CallSleep t w)
  show ?case
  proof (cases "fst (Sleep c t)")
    case True
    from CallSleep.IH [OF Sleep_grown(2) [OF CallSleep.prems True]] Sleep_grown(1) [OF CallSleep.prems True] True
    show ?thesis by (simp add: case_prod_unfold Let_def)
  qed (simp add: case_prod_unfold Let_def)
next
  case (CallReceive name out k)
  show ?case
  proof (cases "ReceiveSignal js c name out")
    case (Some p)
    then obtain v c' where c: "ReceiveSignal js c name out = Some (v, c')" by (cases p) auto
    obtain d' where "ReceiveSignal js d name out = Some (v, d')" "grown new c' d'"
      using ReceiveSignal_grown [OF CallReceive.prems c] by blast
    with CallReceive.IH [OF rangeI, of c' d' v] c show ?thesis by simp
  qed simp
qed simp_all

lemma outcome_grow:
  "grown new c d \<Longrightarrow> fst (replay js w c) \<noteq> Suspended \<Longrightarrow> fst (replay js w d) = fst (replay js w c)"
proof (induction w arbitrary: c d)
  case (CallActivity name input k)
  from CallActivity.IH [OF rangeI ExecuteActivity_grown(2) [OF CallActivity.prems(1)]] CallActivity.prems(2)
    ExecuteActivity_grown(1) [OF CallActivity.prems(1), of js name input]
  show ?case by (simp add: case_prod_unfold Let_def)
next
  case (CallGet f out k)
  then show ?case
    by (auto split: option.splits dest: Get_grown [OF CallGet.prems(1)] intro!: CallGet.IH [OF rangeI CallGet.prems(1)])
next
  case (CallSleep t w)
  from CallSleep.prems(2) have "fst (Sleep c t)" by (simp add: case_prod_unfold Let_def split: if_splits)
  note s = Sleep_grown [OF CallSleep.prems(1) this]
  from CallSleep.IH [OF s(2)] CallSleep.prems(2) s(1) \<open>fst (Sleep c t)\<close>
  show ?case by (simp add: case_prod_unfold Let_def)
next
  case (CallReceive name out k)
  then obtain v c' where c: "ReceiveSignal js c name out = Some (v, c')" by (auto split: option.splits)
  obtain d' where "ReceiveSignal js d name out = Some (v, d')" "grown new c' d'"
    using ReceiveSignal_grown [OF CallReceive.prems(1) c] by blast
  with CallReceive.IH [OF rangeI, of c' d' v] CallReceive.prems(2) c show ?case by simp
qed simp_all

section \<open>The commands of a replay\<close>

text \<open>
  A call adds at most one command. \<open>issued c c'\<close> are the commands a stretch of the replay added.
\<close>

definition issued :: "Context \<Rightarrow> Context \<Rightarrow> pbCommand list" where
  "issued c c' = drop (length (wc_commands c)) (wc_commands c')"

definition extends :: "Context \<Rightarrow> Context \<Rightarrow> bool" where
  "extends c c' \<longleftrightarrow> wc_history c' = wc_history c \<and> wc_queue c' = wc_queue c \<and>
     wc_commands c' = wc_commands c @ issued c c' \<and>
     wc_activityCallCount c \<le> wc_activityCallCount c' \<and> wc_timerCallCount c \<le> wc_timerCallCount c'"

lemma extends_trans:
  assumes "extends a b" and "extends b c"
  shows "extends a c \<and> issued a c = issued a b @ issued b c"
proof -
  obtain xs ys where "wc_commands b = wc_commands a @ xs" "wc_commands c = wc_commands b @ ys"
    using assms unfolding extends_def by blast
  with assms show ?thesis by (simp add: extends_def issued_def)
qed

lemma extends_refl [simp]: "extends c c" "issued c c = []"
  by (simp_all add: extends_def issued_def)

lemma ExecuteActivity_extends: "extends c (snd (ExecuteActivity js c n v))"
  by (simp add: extends_def issued_def ExecuteActivity_def Let_def)

lemma Sleep_extends: "extends c (snd (Sleep c t))"
  by (simp add: extends_def issued_def Sleep_def Let_def)

lemma ReceiveSignal_extends: "ReceiveSignal js c name out = Some (v, c') \<Longrightarrow> extends c c' \<and> issued c c' = []"
  by (auto simp: extends_def issued_def ReceiveSignal_def Let_def split: option.splits)

lemma replay_extends: "extends c (snd (replay js w c))"
proof (induction w arbitrary: c)
  case (CallActivity name input k)
  then show ?case
    using extends_trans [OF ExecuteActivity_extends [of c js name input] CallActivity.IH [OF rangeI]] by (simp add: case_prod_unfold Let_def)
next
  case (CallSleep t w)
  then show ?case using extends_trans [OF Sleep_extends [of c t] CallSleep.IH] Sleep_extends [of c t] by (simp add: case_prod_unfold Let_def)
next
  case (CallReceive name out k)
  show ?case
  proof (cases "ReceiveSignal js c name out")
    case (Some p)
    then obtain v c' where c: "ReceiveSignal js c name out = Some (v, c')" by (cases p) auto
    with extends_trans [OF _ CallReceive.IH [OF rangeI, of c' v]] ReceiveSignal_extends [OF c]
    show ?thesis by simp
  qed simp
next
  case (CallGet f out k)
  then show ?case by (cases "Get js c f out") auto
qed simp_all

text \<open>What the replay issues: the commands of its activities, then at most one timer.\<close>

definition schedule_shape :: "HistoryEvent list \<Rightarrow> string \<Rightarrow> nat \<Rightarrow> pbCommand \<Rightarrow> bool" where
  "schedule_shape h q i c \<longleftrightarrow> pc_Type c = ''ScheduleActivity'' \<and> pc_TaskQueue c = q \<and>
     pc_ActivityIndex c = word_of_nat i \<and> \<not> list_ex (is_scheduled (pc_ActivityName c) i) h"

definition timer_shape :: "HistoryEvent list \<Rightarrow> nat \<Rightarrow> pbCommand \<Rightarrow> bool" where
  "timer_shape h i c \<longleftrightarrow> (\<exists>d. c = timer_command i d) \<and> \<not> list_ex (is_timer_event ''TimerFired'' i) h \<and>
     \<not> list_ex (is_timer_event ''TimerStarted'' i) h"

fun issues :: "HistoryEvent list \<Rightarrow> string \<Rightarrow> nat \<Rightarrow> nat \<Rightarrow> nat \<Rightarrow> nat \<Rightarrow> outcome \<Rightarrow> pbCommand list \<Rightarrow> bool" where
  "issues h q a b s t r [] = True"
| "issues h q a b s t r (c # cs) =
     ((\<exists>i. a \<le> i \<and> i < b \<and> schedule_shape h q i c \<and> issues h q (i + 1) b s t r cs) \<or>
      (\<exists>i. s \<le> i \<and> i < t \<and> timer_shape h i c) \<and> cs = [] \<and> r = Suspended)"

lemma issues_mono: "issues h q a b s t r cs \<Longrightarrow> a' \<le> a \<Longrightarrow> b \<le> b' \<Longrightarrow> s' \<le> s \<Longrightarrow> t \<le> t' \<Longrightarrow> issues h q a' b' s' t' r cs"
proof (induction cs arbitrary: a a')
  case (Cons c cs)
  from Cons.prems(1) consider i where "a \<le> i" "i < b" "schedule_shape h q i c" "issues h q (i + 1) b s t r cs"
    | i where "s \<le> i" "i < t" "timer_shape h i c" "cs = []" "r = Suspended" by auto
  then show ?case
  proof cases
    case (1 i)
    with Cons.prems Cons.IH [of "i + 1" "i + 1"] show ?thesis by (intro issues.simps(2) [THEN iffD2] disjI1 exI [of _ i]) auto
  next
    case (2 i)
    with Cons.prems show ?thesis by auto
  qed
qed simp

lemma ExecuteActivity_issues:
  assumes "issues (wc_history c) (wc_queue c) (wc_activityCallCount c + 1) b s t r cs"
    and "wc_activityCallCount c < b"
  shows "issues (wc_history c) (wc_queue c) (wc_activityCallCount c) b s t r (issued c (snd (ExecuteActivity js c n v)) @ cs)"
  using assms issues_mono [OF assms(1), of "wc_activityCallCount c" b s t]
  by (auto simp: issued_def ExecuteActivity_def Let_def schedule_shape_def schedule_command_def zero_pbCommand_def)

text \<open>The issued commands of a replay, and one lemma per SDK call that can issue some.\<close>

definition issues_well :: "'v json \<Rightarrow> 'v wf \<Rightarrow> Context \<Rightarrow> bool" where
  "issues_well js w c \<longleftrightarrow>
     issues (wc_history c) (wc_queue c) (wc_activityCallCount c) (wc_activityCallCount (snd (replay js w c)))
       (wc_timerCallCount c) (wc_timerCallCount (snd (replay js w c))) (fst (replay js w c))
       (issued c (snd (replay js w c)))"

lemma issues_well_activity:
  assumes "issues_well js (k (fst (ExecuteActivity js c name input))) (snd (ExecuteActivity js c name input))"
  shows "issues_well js (CallActivity name input k) c"
proof -
  let ?f = "fst (ExecuteActivity js c name input)" and ?c = "snd (ExecuteActivity js c name input)"
  let ?d = "snd (replay js (k ?f) ?c)"
  have c: "wc_history ?c = wc_history c" "wc_queue ?c = wc_queue c" "wc_activityCallCount ?c = wc_activityCallCount c + 1"
    "wc_timerCallCount ?c = wc_timerCallCount c" by (simp_all add: ExecuteActivity_def Let_def)
  have "wc_activityCallCount c < wc_activityCallCount ?d"
    using replay_extends [of ?c js "k ?f"] c by (simp add: extends_def)
  then have "issues (wc_history c) (wc_queue c) (wc_activityCallCount c) (wc_activityCallCount ?d)
     (wc_timerCallCount c) (wc_timerCallCount ?d) (fst (replay js (k ?f) ?c)) (issued c ?c @ issued ?c ?d)"
    using ExecuteActivity_issues [where js = js and n = name and v = input, OF assms [unfolded issues_well_def c]] by blast
  then show ?thesis
    using extends_trans [OF ExecuteActivity_extends [of c js name input] replay_extends [of ?c js "k ?f"]]
    by (simp add: issues_well_def case_prod_unfold Let_def)
qed

lemma issues_well_sleep:
  assumes "issues_well js w (snd (Sleep c d))"
  shows "issues_well js (CallSleep d w) c"
proof (cases "fst (Sleep c d)")
  case True
  let ?c = "snd (Sleep c d)"
  from True have c: "wc_history ?c = wc_history c" "wc_queue ?c = wc_queue c" "issued c ?c = []"
    "wc_activityCallCount ?c = wc_activityCallCount c" "wc_timerCallCount ?c = wc_timerCallCount c + 1"
    by (auto simp: Sleep_def Let_def issued_def split: if_splits)
  have "issued c (snd (replay js w ?c)) = issued ?c (snd (replay js w ?c))"
    using extends_trans [OF Sleep_extends [of c d] replay_extends [of ?c js w]] c(3) by simp
  with True issues_mono [OF assms [unfolded issues_well_def]] c show ?thesis
    by (simp add: issues_well_def case_prod_unfold Let_def)
next
  case False
  then show ?thesis
    by (auto simp: issues_well_def Sleep_def Let_def case_prod_unfold issued_def timer_shape_def split: if_splits)
qed

lemma issues_well_receive:
  assumes "\<And>v c'. ReceiveSignal js c name out = Some (v, c') \<Longrightarrow> issues_well js (k v) c'"
  shows "issues_well js (CallReceive name out k) c"
proof (cases "ReceiveSignal js c name out")
  case (Some p)
  then obtain v c' where c: "ReceiveSignal js c name out = Some (v, c')" by (cases p) auto
  then have c': "wc_history c' = wc_history c" "wc_queue c' = wc_queue c"
    "wc_activityCallCount c' = wc_activityCallCount c" "wc_timerCallCount c' = wc_timerCallCount c"
    by (auto simp: ReceiveSignal_def Let_def split: option.splits)
  have "issued c (snd (replay js (k v) c')) = issued c' (snd (replay js (k v) c'))"
    using extends_trans [OF conjunct1 [OF ReceiveSignal_extends [OF c]] replay_extends [of c' js "k v"]]
      ReceiveSignal_extends [OF c] by simp
  with c assms [OF c] c' show ?thesis by (simp add: issues_well_def)
qed (simp add: issues_well_def)

lemma replay_issues_well: "issues_well js w c"
proof (induction w arbitrary: c)
  case (CallActivity name input k)
  then show ?case by (blast intro: issues_well_activity)
next
  case (CallGet f out k)
  then show ?case by (cases "Get js c f out") (simp_all add: issues_well_def)
next
  case (CallSleep d w)
  then show ?case by (blast intro: issues_well_sleep)
next
  case (CallReceive name out k)
  then show ?case by (blast intro: issues_well_receive)
qed (simp_all add: issues_well_def)

lemmas replay_issues = replay_issues_well [unfolded issues_well_def]

section \<open>Commands and the events that record them\<close>

definition records :: "HistoryEvent \<Rightarrow> pbCommand \<Rightarrow> bool" where
  "records e c \<longleftrightarrow>
     pc_Type c = ''ScheduleActivity'' \<and> he_EventType e = ''ActivityScheduled'' \<and>
       he_ActivityName e = pc_ActivityName c \<and> he_ActivityIndex e = pc_ActivityIndex c \<or>
     pc_Type c = ''StartTimer'' \<and> he_EventType e = ''TimerStarted'' \<and> he_TimerIndex e = pc_TimerIndex c"

lemma Commands_issued: "Commands (snd (replay js w (New h q))) = issued (New h q) (snd (replay js w (New h q)))"
  by (simp add: Commands_def issued_def New_def)

lemma New_simps [simp]:
  "wc_history (New h q) = h" "wc_queue (New h q) = q" "wc_activityCallCount (New h q) = 0"
  "wc_timerCallCount (New h q) = 0" "wc_commands (New h q) = []"
  by (simp_all add: New_def)

lemma timer_command_simps [simp]:
  "pc_Type (timer_command i d) = ''StartTimer''" "pc_TimerIndex (timer_command i d) = word_of_nat i"
  by (simp_all add: timer_command_def)

lemma schedule_command_simps [simp]:
  "pc_Type (schedule_command js q n i v) = ''ScheduleActivity''"
  "pc_ActivityName (schedule_command js q n i v) = n"
  "pc_ActivityIndex (schedule_command js q n i v) = word_of_nat i"
  by (simp_all add: schedule_command_def Let_def)

lemma issues_not_recorded:
  "issues h q a b s t r cs \<Longrightarrow> c \<in> set cs \<Longrightarrow> e \<in> set h \<Longrightarrow> \<not> records e c"
proof (induction cs arbitrary: a)
  case (Cons d cs)
  then show ?case
    by (auto simp: records_def schedule_shape_def timer_shape_def is_scheduled_def is_timer_event_def list_ex_iff)
qed simp

lemma issues_types:
  "issues h q a b s t r cs \<Longrightarrow> \<forall>c \<in> set cs. pc_Type c \<in> {''ScheduleActivity'', ''StartTimer''}"
proof (induction cs arbitrary: a)
  case (Cons d cs)
  then show ?case by (auto simp: schedule_shape_def timer_shape_def)
qed simp

text \<open>The positions of the calls behind the commands; they increase along the list.\<close>

lemma issues_indices:
  "issues h q a b s t r cs \<Longrightarrow> \<exists>is. sorted_wrt (<) is \<and> set is \<subseteq> {a..<b} \<and>
     map pc_ActivityIndex (filter (\<lambda>c. pc_Type c = ''ScheduleActivity'') cs) = map word_of_nat is"
proof (induction cs arbitrary: a)
  case (Cons c cs)
  from Cons.prems consider i where "a \<le> i" "i < b" "schedule_shape h q i c" "issues h q (i + 1) b s t r cs"
    | i where "timer_shape h i c" "cs = []" by auto
  then show ?case
  proof cases
    case (1 i)
    from Cons.IH [OF 1(4)] obtain js where "sorted_wrt (<) js" "set js \<subseteq> {i + 1..<b}"
      "map pc_ActivityIndex (filter (\<lambda>c. pc_Type c = ''ScheduleActivity'') cs) = map word_of_nat js" by blast
    with 1 show ?thesis by (intro exI [of _ "i # js"]) (auto simp: schedule_shape_def)
  next
    case (2 i)
    then show ?thesis by (intro exI [of _ "[]"]) (auto simp: timer_shape_def)
  qed
qed (intro exI [of _ "[]"], simp)

lemma word_of_nat_inj: "m < 2 ^ 32 \<Longrightarrow> n < 2 ^ 32 \<Longrightarrow> (word_of_nat m :: 32 word) = word_of_nat n \<longleftrightarrow> m = n"
  by (auto dest!: arg_cong [where f = unat] simp: unat_of_nat)

section \<open>Replay after the commands are recorded\<close>

text \<open>
  Events that only record commands resolve nothing, so a replay over them takes the same path as
  before and has no command left to issue.
\<close>

definition recording :: "HistoryEvent \<Rightarrow> bool" where
  "recording e \<longleftrightarrow> he_EventType e \<in> {''ActivityScheduled'', ''TimerStarted''}"

definition all_recorded :: "HistoryEvent list \<Rightarrow> pbCommand list \<Rightarrow> bool" where
  "all_recorded new cs \<longleftrightarrow> (\<forall>c \<in> set cs. \<exists>e \<in> set new. records e c)"

lemma recording_find: "\<forall>e \<in> set new. recording e \<Longrightarrow> List.find (resolves n i) new = None"
  by (auto simp: recording_def resolves_def)

lemma Get_recording:
  "grown new c d \<Longrightarrow> \<forall>e \<in> set new. recording e \<Longrightarrow> Get js d f out = Get js c f out"
  by (simp add: Get_def grown_def Get_loop_find List_find_append recording_find split: option.splits)

lemma signal_recording: "\<forall>e \<in> set new. recording e \<Longrightarrow> filter (is_signal n) new = []"
  by (auto simp: recording_def is_signal_def filter_empty_conv)

lemma ReceiveSignal_recording:
  "grown new c d \<Longrightarrow> \<forall>e \<in> set new. recording e \<Longrightarrow> ReceiveSignal js c n out = None \<Longrightarrow> ReceiveSignal js d n out = None"
  by (auto simp: ReceiveSignal_def Let_def signal_loop_nth grown_def signal_recording split: if_splits)

lemma Sleep_recording:
  assumes "grown new c d" and "\<forall>e \<in> set new. recording e" and "\<not> fst (Sleep c t)"
    and "all_recorded new (issued c (snd (Sleep c t)))"
  shows "\<not> fst (Sleep d t)" and "issued d (snd (Sleep d t)) = []"
  using assms by (auto simp: Sleep_def Let_def grown_def issued_def all_recorded_def records_def list_ex_iff
      recording_def is_timer_event_def split: if_splits)

lemma ExecuteActivity_recorded:
  assumes "grown new c d" and "all_recorded new (issued c (snd (ExecuteActivity js c n v)))"
  shows "issued d (snd (ExecuteActivity js d n v)) = []"
  using assms by (auto simp: ExecuteActivity_def Let_def grown_def issued_def all_recorded_def records_def list_ex_iff
      is_scheduled_def split: if_splits)

lemma ReceiveSignal_issued: "ReceiveSignal js c name out = Some (v, c') \<Longrightarrow> issued c' x = issued c x"
  by (auto simp: issued_def ReceiveSignal_def Let_def split: option.splits)

text \<open>
  A replay over the history that records its commands, again one lemma per call: the outcome is the
  same and nothing is issued.
\<close>

definition recorded_replay :: "'v json \<Rightarrow> 'v wf \<Rightarrow> HistoryEvent list \<Rightarrow> Context \<Rightarrow> Context \<Rightarrow> bool" where
  "recorded_replay js w new c d \<longleftrightarrow> all_recorded new (issued c (snd (replay js w c))) \<longrightarrow>
     fst (replay js w d) = fst (replay js w c) \<and> issued d (snd (replay js w d)) = []"

lemma recorded_activity:
  assumes "grown new c d" and "recorded_replay js (k (fst (ExecuteActivity js c name input))) new
    (snd (ExecuteActivity js c name input)) (snd (ExecuteActivity js d name input))"
  shows "recorded_replay js (CallActivity name input k) new c d"
  unfolding recorded_replay_def
proof
  let ?f = "fst (ExecuteActivity js c name input)" and ?c = "snd (ExecuteActivity js c name input)"
  assume all: "all_recorded new (issued c (snd (replay js (CallActivity name input k) c)))"
  note g = ExecuteActivity_grown [OF assms(1), where js = js and n = name and v = input]
  have split: "issued x (snd (replay js (k ?f) (snd (ExecuteActivity js x name input)))) =
      issued x (snd (ExecuteActivity js x name input)) @
      issued (snd (ExecuteActivity js x name input)) (snd (replay js (k ?f) (snd (ExecuteActivity js x name input))))" for x
    using extends_trans [OF ExecuteActivity_extends [of x js name input] replay_extends [of _ js "k ?f"]] by blast
  from all have r: "all_recorded new (issued c ?c)" "all_recorded new (issued ?c (snd (replay js (k ?f) ?c)))"
    by (auto simp: case_prod_unfold Let_def split all_recorded_def)
  from assms(2) r(2) ExecuteActivity_recorded [OF assms(1) r(1)] g(1)
  show "fst (replay js (CallActivity name input k) d) = fst (replay js (CallActivity name input k) c) \<and>
      issued d (snd (replay js (CallActivity name input k) d)) = []"
    by (simp add: recorded_replay_def case_prod_unfold Let_def split)
qed

lemma recorded_sleep:
  assumes "grown new c d" and "\<forall>e \<in> set new. recording e"
    and "fst (Sleep c t) \<Longrightarrow> recorded_replay js w new (snd (Sleep c t)) (snd (Sleep d t))"
  shows "recorded_replay js (CallSleep t w) new c d"
  unfolding recorded_replay_def
proof
  let ?c = "snd (Sleep c t)" and ?d = "snd (Sleep d t)"
  assume all: "all_recorded new (issued c (snd (replay js (CallSleep t w) c)))"
  show "fst (replay js (CallSleep t w) d) = fst (replay js (CallSleep t w) c) \<and>
      issued d (snd (replay js (CallSleep t w) d)) = []"
  proof (cases "fst (Sleep c t)")
    case True
    note g = Sleep_grown [OF assms(1) True]
    have "issued c x = issued ?c x" "issued d x = issued ?d x" for x
      using True g(1) by (auto simp: Sleep_def Let_def issued_def split: if_splits)
    with assms(3) [OF True] all True g(1) show ?thesis by (simp add: recorded_replay_def case_prod_unfold Let_def)
  next
    case False
    with all have "all_recorded new (issued c ?c)" by (simp add: case_prod_unfold Let_def)
    from Sleep_recording [OF assms(1,2) False this] False show ?thesis by (simp add: case_prod_unfold Let_def)
  qed
qed

lemma recorded_receive:
  assumes "grown new c d" and "\<forall>e \<in> set new. recording e"
    and "\<And>v c' d'. grown new c' d' \<Longrightarrow> recorded_replay js (k v) new c' d'"
  shows "recorded_replay js (CallReceive name out k) new c d"
proof (cases "ReceiveSignal js c name out")
  case None
  with ReceiveSignal_recording [OF assms(1,2) None] show ?thesis by (simp add: recorded_replay_def)
next
  case (Some p)
  then obtain v c' where c: "ReceiveSignal js c name out = Some (v, c')" by (cases p) auto
  obtain d' where d: "ReceiveSignal js d name out = Some (v, d')" and g: "grown new c' d'"
    using ReceiveSignal_grown [OF assms(1) c] by blast
  from assms(3) [OF g] c d show ?thesis
    by (simp add: recorded_replay_def ReceiveSignal_issued [OF c] ReceiveSignal_issued [OF d])
qed

lemma replay_recorded_always:
  assumes "\<forall>e \<in> set new. recording e"
  shows "grown new c d \<Longrightarrow> recorded_replay js w new c d"
proof (induction w arbitrary: c d)
  case (CallActivity name input k)
  show ?case
    by (rule recorded_activity [OF CallActivity.prems CallActivity.IH [OF rangeI ExecuteActivity_grown(2) [OF CallActivity.prems]]])
next
  case (CallGet f out k)
  with Get_recording [OF CallGet.prems assms, of js f out] show ?case
    by (cases "Get js c f out") (simp_all add: recorded_replay_def)
next
  case (CallSleep t w)
  show ?case by (rule recorded_sleep [OF CallSleep.prems assms CallSleep.IH [OF Sleep_grown(2) [OF CallSleep.prems]]])
next
  case (CallReceive name out k)
  show ?case by (rule recorded_receive [OF CallReceive.prems assms CallReceive.IH [OF rangeI]])
qed (simp_all add: recorded_replay_def)

lemma replay_recorded:
  assumes "grown new c d" and "\<forall>e \<in> set new. recording e" and "all_recorded new (issued c (snd (replay js w c)))"
  shows "fst (replay js w d) = fst (replay js w c) \<and> issued d (snd (replay js w d)) = []"
  using replay_recorded_always [OF assms(2,1), of js w] assms(3) by (simp add: recorded_replay_def)

end
