(* ===== verification/Worker.thy ===== *)
theory Worker
  imports Replay
begin

text \<open>
  The worker and the client of the SDK (\<open>sdk/worker.go\<close>, \<open>sdk/client.go\<close>). The generated gRPC
  client is a record of functions on the state \<open>'s\<close> of whatever is behind the connection;
  \<open>connect\<close> puts the engine's own handlers there. The workflow and activity functions a program
  registers, and \<open>encoding/json\<close>, are arguments.
\<close>

section \<open>The client\<close>

record 's engine_client =
  rpc_StartWorkflow :: "StartWorkflowRequest \<Rightarrow> 's \<Rightarrow> (Status + StartWorkflowResponse) \<times> 's"
  rpc_PollWorkflowTask :: "PollWorkflowTaskRequest \<Rightarrow> 's \<Rightarrow> (Status + PollWorkflowTaskResponse) \<times> 's"
  rpc_RespondWorkflowTaskCompleted :: "RespondWorkflowTaskCompletedRequest \<Rightarrow> 's \<Rightarrow> (Status + unit) \<times> 's"
  rpc_PollActivityTask :: "PollActivityTaskRequest \<Rightarrow> 's \<Rightarrow> (Status + PollActivityTaskResponse) \<times> 's"
  rpc_RespondActivityTaskCompleted :: "RespondActivityTaskCompletedRequest \<Rightarrow> 's \<Rightarrow> (Status + unit) \<times> 's"
  rpc_RespondActivityTaskFailed :: "RespondActivityTaskFailedRequest \<Rightarrow> 's \<Rightarrow> (Status + unit) \<times> 's"
  rpc_SignalWorkflow :: "SignalWorkflowRequest \<Rightarrow> 's \<Rightarrow> (Status + unit) \<times> 's"

definition Client_StartNewWorkflow ::
  "'s engine_client \<Rightarrow> string \<Rightarrow> string \<Rightarrow> string \<Rightarrow> bytes option \<Rightarrow> 's \<Rightarrow> (Status + string) \<times> 's" where
  "Client_StartNewWorkflow c workflowID workflowType taskQueue input s =
     (case rpc_StartWorkflow c
        \<lparr>swq_WorkflowId = workflowID,
         swq_WorkflowType = workflowType,
         swq_TaskQueue = taskQueue,
         swq_Input = input\<rparr> s of
        (Inl err, s') \<Rightarrow> (Inl err, s')
      | (Inr resp, s') \<Rightarrow> (Inr (swr_RunId resp), s'))"

definition Client_PollWorkflowTask ::
  "'s engine_client \<Rightarrow> string \<Rightarrow> string \<Rightarrow> 's \<Rightarrow> (Status + PollWorkflowTaskResponse) \<times> 's" where
  "Client_PollWorkflowTask c queue leaseOwner =
     rpc_PollWorkflowTask c \<lparr>pwq_TaskQueue = queue, pwq_LeaseOwner = leaseOwner\<rparr>"

definition Client_RespondWorkflowTaskCompleted ::
  "'s engine_client \<Rightarrow> int \<Rightarrow> string \<Rightarrow> string \<Rightarrow> pbCommand list \<Rightarrow> 's \<Rightarrow> (Status + unit) \<times> 's" where
  "Client_RespondWorkflowTaskCompleted c taskID workflowID runID commands =
     rpc_RespondWorkflowTaskCompleted c
       \<lparr>rwq_TaskId = taskID, rwq_WorkflowId = workflowID, rwq_RunId = runID, rwq_Commands = commands\<rparr>"

definition Client_PollActivityTask ::
  "'s engine_client \<Rightarrow> string \<Rightarrow> string \<Rightarrow> 's \<Rightarrow> (Status + PollActivityTaskResponse) \<times> 's" where
  "Client_PollActivityTask c queue leaseOwner =
     rpc_PollActivityTask c \<lparr>paq_TaskQueue = queue, paq_LeaseOwner = leaseOwner\<rparr>"

definition Client_RespondActivityTaskCompleted ::
  "'s engine_client \<Rightarrow> int \<Rightarrow> string \<Rightarrow> string \<Rightarrow> bytes option \<Rightarrow> 's \<Rightarrow> (Status + unit) \<times> 's" where
  "Client_RespondActivityTaskCompleted c taskID workflowID runID result =
     rpc_RespondActivityTaskCompleted c
       \<lparr>rcq_TaskId = taskID, rcq_WorkflowId = workflowID, rcq_RunId = runID, rcq_Result = result\<rparr>"

definition Client_RespondActivityTaskFailed ::
  "'s engine_client \<Rightarrow> int \<Rightarrow> string \<Rightarrow> string \<Rightarrow> string \<Rightarrow> 's \<Rightarrow> (Status + unit) \<times> 's" where
  "Client_RespondActivityTaskFailed c taskID workflowID runID errMsg =
     rpc_RespondActivityTaskFailed c
       \<lparr>rfq_TaskId = taskID, rfq_WorkflowId = workflowID, rfq_RunId = runID, rfq_Error = errMsg\<rparr>"

definition Client_SignalWorkflow ::
  "'s engine_client \<Rightarrow> string \<Rightarrow> string \<Rightarrow> string \<Rightarrow> bytes option \<Rightarrow> 's \<Rightarrow> (Status + unit) \<times> 's" where
  "Client_SignalWorkflow c workflowID runID signalName input =
     rpc_SignalWorkflow c
       \<lparr>sgq_WorkflowId = workflowID, sgq_RunId = runID, sgq_SignalName = signalName, sgq_Input = input\<rparr>"

text \<open>A gRPC client sees the status of a failed call and the response of a successful one.\<close>

definition call :: "('q \<Rightarrow> 'r reply M) \<Rightarrow> env \<Rightarrow> 'r \<Rightarrow> 'q \<Rightarrow> sess \<Rightarrow> (Status + 'r) \<times> sess" where
  "call handler E zero req s = (case handler req E s of
       (Inl _, s') \<Rightarrow> (Inl (Status Internal ''''), s')
     | (Inr (resp, Some st), s') \<Rightarrow> (Inl st, s')
     | (Inr (resp, None), s') \<Rightarrow> (Inr (case resp of None \<Rightarrow> zero | Some r \<Rightarrow> r), s'))"

definition connect :: "env \<Rightarrow> sess engine_client" where
  "connect E = \<lparr>
     rpc_StartWorkflow = call Handler_StartWorkflow E \<lparr>swr_RunId = []\<rparr>,
     rpc_PollWorkflowTask = call Handler_PollWorkflowTask E zero_PollWorkflowTaskResponse,
     rpc_RespondWorkflowTaskCompleted = call Handler_RespondWorkflowTaskCompleted E (),
     rpc_PollActivityTask = call Handler_PollActivityTask E zero_PollActivityTaskResponse,
     rpc_RespondActivityTaskCompleted = call Handler_RespondActivityTaskCompleted E (),
     rpc_RespondActivityTaskFailed = call Handler_RespondActivityTaskFailed E (),
     rpc_SignalWorkflow = call Handler_SignalWorkflow E ()\<rparr>"

section \<open>Registration\<close>

text \<open>
  A registered function comes with the zero value of its input type. A workflow function is a
  tree of SDK calls for each input. An activity function is any code: it acts on the world \<open>'w\<close>,
  and panics or returns no, one or two results, the second of them an error.
\<close>

datatype 'v results = NoResult | OneResult 'v | TwoResults 'v "string option"

datatype 'v activity_return = ActivityPanic string | ActivityReturn "'v results"

type_synonym 'v workflow_fn = "'v \<times> ('v \<Rightarrow> 'v wf)"
type_synonym ('v, 'w) activity_fn = "'v \<times> ('v \<Rightarrow> 'w \<Rightarrow> 'v activity_return \<times> 'w)"

record ('v, 'w) Worker =
  wk_id :: string
  wk_queue :: string
  wk_workflowFunctions :: "string \<Rightarrow> 'v workflow_fn option"
  wk_activityFunctions :: "string \<Rightarrow> ('v, 'w) activity_fn option"

definition NewWorker :: "string \<Rightarrow> string \<Rightarrow> ('v, 'w) Worker" where
  "NewWorker uuid queue = \<lparr>wk_id = uuid, wk_queue = queue, wk_workflowFunctions = Map.empty,
     wk_activityFunctions = Map.empty\<rparr>"

fun strings_Split :: "string \<Rightarrow> char \<Rightarrow> string list" where
  "strings_Split [] c = [[]]"
| "strings_Split (x # xs) c =
     (if x = c then [] # strings_Split xs c
      else case strings_Split xs c of [] \<Rightarrow> [[x]] | w # ws \<Rightarrow> (x # w) # ws)"

definition function_name :: "string \<Rightarrow> string" where
  "function_name fullName = (let words = strings_Split fullName (CHR ''.'') in words ! (length words - 1))"

text \<open>An argument of \<open>Register\<close>: not a function, or a function with its full name; a panic is \<open>None\<close>.\<close>

datatype 'f argument = NotFunc | Func string 'f

fun RegisterWorkflow :: "('v, 'w) Worker \<Rightarrow> 'v workflow_fn argument \<Rightarrow> ('v, 'w) Worker option" where
  "RegisterWorkflow w NotFunc = None"
| "RegisterWorkflow w (Func fullName fn) =
     Some (w\<lparr>wk_workflowFunctions := (wk_workflowFunctions w)(function_name fullName \<mapsto> fn)\<rparr>)"

fun RegisterActivity :: "('v, 'w) Worker \<Rightarrow> ('v, 'w) activity_fn argument \<Rightarrow> ('v, 'w) Worker option" where
  "RegisterActivity w NotFunc = None"
| "RegisterActivity w (Func fullName fn) =
     Some (w\<lparr>wk_activityFunctions := (wk_activityFunctions w)(function_name fullName \<mapsto> fn)\<rparr>)"

section \<open>Workflow tasks\<close>

text \<open>What the worker does with a workflow task; \<open>Crash\<close> is a panic that is raised again.\<close>

datatype workflow_action =
    NoResponse
  | Respond RespondWorkflowTaskCompletedRequest
  | Crash string

definition started_input :: "HistoryEvent list \<Rightarrow> bytes" where
  "started_input history = (case List.find (\<lambda>e. he_EventType e = ''WorkflowStarted'') history of
     None \<Rightarrow> [] | Some e \<Rightarrow> (case he_Data e of None \<Rightarrow> [] | Some d \<Rightarrow> d))"

definition decode_input :: "'v json \<Rightarrow> bytes \<Rightarrow> 'v \<Rightarrow> string + 'v" where
  "decode_input js b zero = (if length b > 0 then
       (case json_Unmarshal js b zero of (Some err, _) \<Rightarrow> Inl err | (None, v) \<Rightarrow> Inr v)
     else Inr zero)"

definition executeWorkflowTask ::
  "'v json \<Rightarrow> ('v, 'w) Worker \<Rightarrow> PollWorkflowTaskResponse \<Rightarrow> workflow_action" where
  "executeWorkflowTask js w task =
     (case wk_workflowFunctions w (pwr_WorkflowType task) of
        None \<Rightarrow> NoResponse
      | Some (zero, body) \<Rightarrow>
          (case decode_input js (started_input (pwr_History task)) zero of
             Inl err \<Rightarrow> NoResponse
           | Inr input \<Rightarrow>
               (let (out, wfCtx) = replay js (body input) (New (pwr_History task) (wk_queue w));
                    commands = Commands wfCtx;
                    respond = (\<lambda>cs. Respond
                      \<lparr>rwq_TaskId = pwr_TaskId task,
                       rwq_WorkflowId = pwr_WorkflowId task,
                       rwq_RunId = pwr_RunId task,
                       rwq_Commands = cs\<rparr>)
                in case out of
                     Panicked r \<Rightarrow> Crash r
                   | Suspended \<Rightarrow> respond commands
                   | Returned (Some err) \<Rightarrow> respond (commands @
                       [zero_pbCommand\<lparr>pc_Type := ''FailWorkflow'', pc_Input := Some err\<rparr>])
                   | Returned None \<Rightarrow> respond (commands @
                       [zero_pbCommand\<lparr>pc_Type := ''CompleteWorkflow''\<rparr>]))))"

datatype loop_end = Slept | Worked | Crashed string

definition pollWorkflowTasks_step ::
  "'v json \<Rightarrow> 's engine_client \<Rightarrow> ('v, 'w) Worker \<Rightarrow> 's \<Rightarrow> loop_end \<times> 's" where
  "pollWorkflowTasks_step js c w s =
     (case Client_PollWorkflowTask c (wk_queue w) (wk_id w) s of
        (Inl err, s') \<Rightarrow> (Slept, s')
      | (Inr resp, s') \<Rightarrow>
          if pwr_TaskId resp = 0 then (Slept, s')
          else (case executeWorkflowTask js w resp of
                  NoResponse \<Rightarrow> (Worked, s')
                | Respond req \<Rightarrow> (Worked, snd (rpc_RespondWorkflowTaskCompleted c req s'))
                | Crash r \<Rightarrow> (Crashed r, s')))"

section \<open>Activity tasks\<close>

datatype activity_action =
    NoReport
  | reportActivitySuccess bytes
  | reportActivityFailure string
  | IndexPanic

definition executeActivityTask ::
  "'v json \<Rightarrow> ('v, 'w) Worker \<Rightarrow> PollActivityTaskResponse \<Rightarrow> 'w \<Rightarrow> activity_action \<times> 'w" where
  "executeActivityTask js w task world =
     (case wk_activityFunctions w (par_ActivityName task) of
        None \<Rightarrow> (NoReport, world)
      | Some (zero, fn) \<Rightarrow>
          (case decode_input js (case par_Input task of None \<Rightarrow> [] | Some b \<Rightarrow> b) zero of
             Inl err \<Rightarrow> (reportActivityFailure
               (''unmarshal activity input ('' @ par_ActivityName task @ ''): '' @ err), world)
           | Inr input \<Rightarrow>
               (case fn input world of
                  (ActivityPanic r, world') \<Rightarrow>
                    (reportActivityFailure (''activity panicked: '' @ r), world')
                | (ActivityReturn results, world') \<Rightarrow>
                    ((case results of
                        NoResult \<Rightarrow> IndexPanic
                      | TwoResults v (Some err) \<Rightarrow> reportActivityFailure err
                      | TwoResults v None \<Rightarrow> (case json_Marshal js v of
                          Inl err \<Rightarrow> reportActivityFailure (''marshal activity result: '' @ err)
                        | Inr b \<Rightarrow> reportActivitySuccess b)
                      | OneResult v \<Rightarrow> (case json_Marshal js v of
                          Inl err \<Rightarrow> reportActivityFailure (''marshal activity result: '' @ err)
                        | Inr b \<Rightarrow> reportActivitySuccess b)), world'))))"

definition pollActivityTasks_step ::
  "'v json \<Rightarrow> 's engine_client \<Rightarrow> ('v, 'w) Worker \<Rightarrow> 's \<times> 'w \<Rightarrow> loop_end \<times> 's \<times> 'w" where
  "pollActivityTasks_step js c w = (\<lambda>(s, world).
     case Client_PollActivityTask c (wk_queue w) (wk_id w) s of
        (Inl err, s') \<Rightarrow> (Slept, s', world)
      | (Inr resp, s') \<Rightarrow>
          if par_TaskId resp = 0 then (Slept, s', world)
          else (case executeActivityTask js w resp world of
                  (NoReport, world') \<Rightarrow> (Worked, s', world')
                | (reportActivitySuccess result, world') \<Rightarrow> (Worked,
                    snd (Client_RespondActivityTaskCompleted c (par_TaskId resp) (par_WorkflowId resp)
                      (par_RunId resp) (Some result) s'), world')
                | (reportActivityFailure errMsg, world') \<Rightarrow> (Worked,
                    snd (Client_RespondActivityTaskFailed c (par_TaskId resp) (par_WorkflowId resp)
                      (par_RunId resp) errMsg s'), world')
                | (IndexPanic, world') \<Rightarrow> (Crashed ''index out of range'', s', world')))"

section \<open>Facts about registration and answers\<close>

lemma strings_Split_nonempty: "strings_Split s c \<noteq> []"
  by (induction s) (auto split: list.splits)

lemma last_strings_Split: "c \<notin> set m \<Longrightarrow> last (strings_Split (p @ c # m) c) = m"
proof (induction p)
  case Nil
  then have "strings_Split m c = [m]" by (induction m) auto
  then show ?case by simp
next
  case (Cons x p)
  then have l: "last (strings_Split (p @ c # m) c) = m" by simp
  have "length (strings_Split (p @ c # m) c) \<ge> 2"
  proof (induction p)
    case Nil
    then show ?case using strings_Split_nonempty [of m c] by (cases "strings_Split m c") auto
  qed (auto split: list.splits)
  with l show ?case by (auto split: list.splits)
qed

lemma function_name_last: "function_name s = last (strings_Split s (CHR ''.''))"
  by (simp add: function_name_def Let_def last_conv_nth strings_Split_nonempty)

lemma function_name_append: "CHR ''.'' \<notin> set m \<Longrightarrow> function_name (p @ CHR ''.'' # m) = m"
  by (simp add: function_name_last last_strings_Split)

lemma executeWorkflowTask_Respond:
  assumes "executeWorkflowTask js w task = Respond req"
  obtains zero body v out c where "wk_workflowFunctions w (pwr_WorkflowType task) = Some (zero, body)"
    and "decode_input js (started_input (pwr_History task)) zero = Inr v"
    and "replay js (body v) (New (pwr_History task) (wk_queue w)) = (out, c)"
    and "rwq_TaskId req = pwr_TaskId task" "rwq_WorkflowId req = pwr_WorkflowId task" "rwq_RunId req = pwr_RunId task"
    and "(out = Suspended \<and> rwq_Commands req = Commands c) \<or>
      (\<exists>last. out \<noteq> Suspended \<and> rwq_Commands req = Commands c @ [last] \<and>
        pc_Type last \<in> {''FailWorkflow'', ''CompleteWorkflow''})"
  using assms that unfolding executeWorkflowTask_def
  by (auto simp: Let_def zero_pbCommand_def split: option.splits sum.splits prod.splits outcome.splits)

lemma replay_command_types:
  "replay js w (New h q) = (out, c) \<Longrightarrow> \<forall>d \<in> set (Commands c). pc_Type d \<in> {''ScheduleActivity'', ''StartTimer''}"
  using issues_types [OF replay_issues [of "New h q" js w]] by (simp add: Commands_def issued_def)

lemma unmarshalCommands_simps [simp]:
  "unmarshalCommands [] = []" "unmarshalCommands (xs @ ys) = unmarshalCommands xs @ unmarshalCommands ys"
  by (simp_all add: unmarshalCommands_def)

lemma unmarshal_nonterminal:
  "\<forall>d \<in> set ds. pc_Type d \<in> {''ScheduleActivity'', ''StartTimer''} \<Longrightarrow>
     \<forall>c \<in> set (unmarshalCommands ds). \<not> terminal_command c \<and> known_command c"
  by (auto simp: unmarshalCommands_def terminal_command_def known_command_def)

text \<open>The worker's answers have the shape the numbering of the history relies on.\<close>

lemma worker_terminal_last:
  assumes "executeWorkflowTask js w task = Respond req"
  shows "terminal_last (unmarshalCommands (rwq_Commands req))"
  using assms
proof (cases rule: executeWorkflowTask_Respond)
  case (1 zero body v out c)
  note n = unmarshal_nonterminal [OF replay_command_types [OF 1(3)]]
  from 1(7) show ?thesis
  proof (elim disjE exE conjE)
    assume "rwq_Commands req = Commands c"
    with n show ?thesis by (auto simp: terminal_last_def dest: in_set_butlastD)
  next
    fix l assume "rwq_Commands req = Commands c @ [l]"
    moreover have "butlast (unmarshalCommands (Commands c @ [l])) = unmarshalCommands (Commands c)"
      by (simp add: unmarshalCommands_def)
    ultimately show ?thesis using n by (simp add: terminal_last_def del: unmarshalCommands_simps)
  qed
qed

section \<open>What the engine records of an answer\<close>

definition row_of :: "string \<Rightarrow> string \<Rightarrow> string \<Rightarrow> time \<Rightarrow> Event \<Rightarrow> Command \<Rightarrow> bool" where
  "row_of wid rid u now e c \<longleftrightarrow> (\<exists>m i. e = event_row (command_event wid rid m c) i u now)"

lemma row_of_event_row [simp]: "row_of wid rid u now (event_row (command_event wid rid m c) i u now) c"
  by (auto simp: row_of_def)

lemma row_of_run: "row_of wid rid u now e c \<Longrightarrow> is_event_of wid u e"
  by (auto simp: row_of_def is_event_of_def)

lemma command_log_rows:
  "command_log E x wid rid u now es ts ms n cs ws \<Longrightarrow>
     list_all2 (row_of wid rid u now) (event_rows ws) (filter known_command cs)"
proof (induction cs arbitrary: es ts ms n ws)
  case (Cons c cs)
  then show ?case by (auto simp: Let_def known_command_def split: if_split_asm dest!: Cons.IH)
qed simp

lemma marshalled_row_records:
  assumes "pc_Type d \<in> {''ScheduleActivity'', ''StartTimer''}"
    and "row_of wid rid u now e (hd (unmarshalCommands [d]))"
  shows "records (hd (marshalEvents [e])) d \<and> recording (hd (marshalEvents [e]))"
  using assms unfolding row_of_def
  by (elim exE, hypsubst) (auto simp: records_def recording_def unmarshalCommands_def marshalEvents_def
    command_event_def zero_Event_def)

lemma marshalEvents_simps [simp]:
  "marshalEvents [] = []" "marshalEvents (xs @ ys) = marshalEvents xs @ marshalEvents ys"
  by (simp_all add: marshalEvents_def)

lemma rows_record:
  assumes "list_all2 (row_of wid rid u now) es (unmarshalCommands ds)"
    and "\<forall>d \<in> set ds. pc_Type d \<in> {''ScheduleActivity'', ''StartTimer''}"
  shows "all_recorded (marshalEvents es) ds \<and> (\<forall>e \<in> set (marshalEvents es). recording e)"
  using assms
proof (induction ds arbitrary: es)
  case (Cons d ds)
  from Cons.prems(1) obtain e es' where es: "es = e # es'"
    and r: "row_of wid rid u now e (hd (unmarshalCommands [d]))"
    and t: "list_all2 (row_of wid rid u now) es' (unmarshalCommands ds)"
    by (auto simp: unmarshalCommands_def list_all2_Cons2)
  from marshalled_row_records [OF _ r] Cons.prems(2)
  have "records (hd (marshalEvents [e])) d \<and> recording (hd (marshalEvents [e]))" by simp
  with Cons.IH [OF t] Cons.prems(2) es show ?case by (auto simp: all_recorded_def marshalEvents_def)
qed (simp add: all_recorded_def unmarshalCommands_def)

text \<open>
  A successful answer to a workflow task of a running execution leaves the history with one new
  event per command.
\<close>

lemma CompleteWorkflowTask_history:
  assumes eff: "CompleteWorkflowTask_effect E s i wid rid (unmarshalCommands ds) s'"
    and u: "e_uuid E rid = Some u" and run: "workflow_running E s wid rid"
    and ds: "\<forall>d \<in> set ds. pc_Type d \<in> {''ScheduleActivity'', ''StartTimer''}"
  obtains new where "run_events wid u (tabs (s_store s')) = run_events wid u (tabs (s_store s)) @ new"
    and "all_recorded (marshalEvents new) ds" and "\<forall>e \<in> set (marshalEvents new). recording e"
proof -
  from eff u run obtain x ws where
    log: "command_log E x wid rid u (begin_now E s) (event_seq (s_store s)) (task_seq (s_store s))
        (timer_seq (s_store s)) (next_event_id wid u (tabs (s_store s))) (unmarshalCommands ds) ws"
    and c: "tabs (s_store s') = apply_log (ws @ [DeleteTask i]) (tabs (s_store s))"
    by (auto simp: CompleteWorkflowTask_effect_def workflow_running_def committed_def)
  have "filter known_command (unmarshalCommands ds) = unmarshalCommands ds"
    using unmarshal_nonterminal [OF ds] by (intro filter_True) blast
  with command_log_rows [OF log] have rows:
    "list_all2 (row_of wid rid u (begin_now E s)) (event_rows ws)
       (unmarshalCommands ds)" by simp
  then have "\<forall>e \<in> set (event_rows ws). is_event_of wid u e"
    by (metis list_all2_conv_all_nth in_set_conv_nth row_of_run)
  then have "filter (is_event_of wid u) (event_rows ws) = event_rows ws" by simp
  with c have "run_events wid u (tabs (s_store s')) = run_events wid u (tabs (s_store s)) @ event_rows ws"
    by (simp add: run_events_apply_log del: apply_log_simps(3))
  with rows_record [OF rows ds] that show ?thesis by blast
qed

end
