(* ===== verification/Engine.thy ===== *)
theory Engine
  imports Worker
begin

text \<open>
  The engine process (\<open>cmd/engine/main.go\<close>): the bodies of its two background loops, and the
  system they form with the seven RPC handlers, as a step relation with its reachable states. A
  step is one request or one tick, run to its end; the environment of each step is arbitrary
  (faults, clocks, random numbers, row order), except that no other transaction commits while
  the step runs.
\<close>

section \<open>The background loops\<close>

definition reclaimLoop_tick :: "unit M" where
  "reclaimLoop_tick = bindM (tryM ReclaimExpiredLeases) (\<lambda>res. case res of
     Inl err \<Rightarrow> returnM ()
   | Inr n \<Rightarrow> metricM (\<lambda>m. m\<lparr>LeasesReclaimed := LeasesReclaimed m + nat n\<rparr>))"

definition scanTimers_tick :: "unit M" where
  "scanTimers_tick = bindM (tryM ScanTimers) (\<lambda>res. returnM ())"

lemma store_quiet_metric [simp, intro]: "store_quiet (metricM f)"
  by (simp add: store_quiet_def metricM_def)

interpretation tick_reclaim: numbering_operation reclaimLoop_tick "\<lambda>_ _. True"
  unfolding reclaimLoop_tick_def by (rule number_reclaim.handled_numbers) auto

interpretation tick_timers: numbering_operation scanTimers_tick single_due
  unfolding scanTimers_tick_def by (rule number_scan.handled_numbers) auto

section \<open>The system\<close>

datatype request =
    RStart StartWorkflowRequest
  | RPollWorkflow PollWorkflowTaskRequest
  | RRespondWorkflow RespondWorkflowTaskCompletedRequest
  | RPollActivity PollActivityTaskRequest
  | RRespondActivity RespondActivityTaskCompletedRequest
  | RFailActivity RespondActivityTaskFailedRequest
  | RSignal SignalWorkflowRequest
  | TickReclaim
  | TickTimers

fun serve :: "request \<Rightarrow> env \<Rightarrow> sess \<Rightarrow> sess" where
  "serve (RStart req) E s = snd (Handler_StartWorkflow req E s)"
| "serve (RPollWorkflow req) E s = snd (Handler_PollWorkflowTask req E s)"
| "serve (RRespondWorkflow req) E s = snd (Handler_RespondWorkflowTaskCompleted req E s)"
| "serve (RPollActivity req) E s = snd (Handler_PollActivityTask req E s)"
| "serve (RRespondActivity req) E s = snd (Handler_RespondActivityTaskCompleted req E s)"
| "serve (RFailActivity req) E s = snd (Handler_RespondActivityTaskFailed req E s)"
| "serve (RSignal req) E s = snd (Handler_SignalWorkflow req E s)"
| "serve TickReclaim E s = snd (reclaimLoop_tick E s)"
| "serve TickTimers E s = snd (scanTimers_tick E s)"

text \<open>What the numbering needs of a request: the shape of the commands, and one due timer per run.\<close>

fun numbering_ok :: "env \<Rightarrow> sess \<Rightarrow> request \<Rightarrow> bool" where
  "numbering_ok E s (RRespondWorkflow req) = terminal_last (unmarshalCommands (rwq_Commands req))"
| "numbering_ok E s TickTimers = single_due E s"
| "numbering_ok E s q = True"

context engine_operation begin

lemma step_snd:
  assumes "serial E" "uuid_ok E" "wf_store (e_uuid E) (s_store s)"
  shows "engine_step E s (snd (run E s))"
  using step [OF assms, of "fst (run E s)" "snd (run E s)"] by simp

end

context numbering_operation begin

lemma numbers_snd:
  assumes "serial E" "uuid_ok E" "wf_store (e_uuid E) (s_store s)" "pre E s" "dense (tabs (s_store s))"
  shows "dense (tabs (s_store (snd (run E s))))"
  using numbers [OF assms, of "fst (run E s)" "snd (run E s)"] by simp

end

lemmas request_steps = rpc_start.step_snd rpc_poll_workflow.step_snd rpc_workflow.step_snd
  rpc_poll_activity.step_snd rpc_activity.step_snd rpc_failure.step_snd rpc_signal.step_snd
  tick_reclaim.step_snd tick_timers.step_snd

lemmas request_numbers = rpc_start.numbers_snd rpc_poll_workflow.numbers_snd rpc_workflow.numbers_snd
  rpc_poll_activity.numbers_snd rpc_activity.numbers_snd rpc_failure.numbers_snd rpc_signal.numbers_snd
  tick_reclaim.numbers_snd tick_timers.numbers_snd

lemma serve_step:
  assumes "serial E" "uuid_ok E" "wf_store (e_uuid E) (s_store s)"
  shows "engine_step E s (serve q E s)"
  using assms by (cases q) (simp_all add: request_steps)

lemma serve_dense:
  assumes "serial E" "uuid_ok E" "wf_store (e_uuid E) (s_store s)" "numbering_ok E s q"
    and "dense (tabs (s_store s))"
  shows "dense (tabs (s_store (serve q E s)))"
  using assms by (cases q) (simp_all add: request_numbers)

inductive step :: "(string \<Rightarrow> string option) \<Rightarrow> (env \<Rightarrow> sess \<Rightarrow> request \<Rightarrow> bool) \<Rightarrow> sess \<Rightarrow> sess \<Rightarrow> bool"
  for U ok where
  step: "serial E \<Longrightarrow> uuid_ok E \<Longrightarrow> e_uuid E = U \<Longrightarrow> ok E s q \<Longrightarrow> step U ok s (serve q E s)"

text \<open>
  The states of the engine on a database that was empty at first, over any number of processes: one
  may end at any time, by a signal or a crash, and the next one finds the tables as they were
  committed. A crash within a step leaves the tables of a step whose database calls fail from there
  on.
\<close>

inductive reachable :: "(string \<Rightarrow> string option) \<Rightarrow> (env \<Rightarrow> sess \<Rightarrow> request \<Rightarrow> bool) \<Rightarrow> sess \<Rightarrow> bool"
  for U ok where
  init: "s_store s = init_store \<Longrightarrow> reachable U ok s"
| more: "reachable U ok s \<Longrightarrow> step U ok s s' \<Longrightarrow> reachable U ok s'"
| restart: "reachable U ok s \<Longrightarrow> s_store s' = s_store s \<Longrightarrow> reachable U ok s'"

inductive_cases stepE: "step U ok s s'"

lemma init_wf: "wf_store U init_store"
  by (simp add: wf_store_def wf_tables_def init_store_def)

lemma reachable_wf: "reachable U ok s \<Longrightarrow> wf_store U (s_store s)"
proof (induction rule: reachable.induct)
  case (more s s')
  from more.hyps(2) obtain E q where "serial E" "uuid_ok E" "e_uuid E = U" "s' = serve q E s"
    by (auto elim: stepE)
  with engine_step_wf [OF serve_step] more.IH show ?case by metis
qed (simp_all add: init_wf)

lemma reachable_dense:
  assumes "reachable U ok s" and "\<And>E s q. ok E s q \<Longrightarrow> numbering_ok E s q"
  shows "dense (tabs (s_store s))"
  using assms(1)
proof (induction rule: reachable.induct)
  case (init s)
  then show ?case by (simp add: init_store_def dense_def run_events_def contiguous_def)
next
  case (more s s')
  from more.hyps(2) obtain E q where "serial E" "uuid_ok E" "e_uuid E = U" "ok E s q" "s' = serve q E s"
    by (auto elim: stepE)
  with serve_dense [OF _ _ _ assms(2)] more.IH reachable_wf [OF more.hyps(1)] show ?case by metis
qed simp

end
