(* ===== verification/LogTables.thy ===== *)
theory LogTables
  imports Engine
begin

text \<open>
  What the two logs of variable length, that of a command list and that of a timer scan, do to
  each table.
\<close>

section \<open>The log of a command list\<close>

definition terminal_status :: "Command \<Rightarrow> string" where
  "terminal_status c = (if c_Type c = ''CompleteWorkflow'' then ''Completed'' else ''Failed'')"

definition close_execution :: "string \<Rightarrow> string \<Rightarrow> time \<Rightarrow> string \<Rightarrow> WorkflowExecution list \<Rightarrow> WorkflowExecution list" where
  "close_execution wid u now st = map (\<lambda>x. if is_execution wid u x then set_status st now x else x)"

definition task_of :: "env \<Rightarrow> WorkflowExecution \<Rightarrow> string \<Rightarrow> string \<Rightarrow> Task \<Rightarrow> Command \<Rightarrow> bool" where
  "task_of E x wid u t c \<longleftrightarrow> t_TaskType t = ''activity'' \<and> t_WorkflowID t = wid \<and> t_RunID t = u \<and>
     t_WorkflowType t = we_WorkflowType x \<and> t_TaskQueue t = c_TaskQueue c \<and>
     t_ActivityName t = c_ActivityName c \<and> t_ActivityIndex t = c_ActivityIndex c \<and> t_Input t = c_Input c \<and>
     t_Attempt t = 1 \<and> t_MaxAttempts t = 3 \<and> t_VisibilityTime t = e_store_time E zero_time \<and>
     t_LeaseOwner t = None \<and> t_LeaseExpiresAt t = None"

definition timer_of :: "env \<Rightarrow> string \<Rightarrow> string \<Rightarrow> Timer \<Rightarrow> Command \<Rightarrow> bool" where
  "timer_of E wid u t c \<longleftrightarrow> tm_WorkflowID t = wid \<and> tm_RunID t = u \<and> tm_TimerIndex t = c_TimerIndex c \<and>
     \<not> tm_Fired t \<and> (\<exists>k. tm_FireAt t = e_store_time E (e_go_now E k + duration_of_ms (c_DurationMs c)))"

lemma task_of_row: "task_of E x wid u (task_row E (activity_task x wid rid m c) j u) c"
  by (simp add: task_of_def activity_task_def zero_Task_def)

lemma timer_of_row: "timer_of E wid u (timer_row E (command_timer wid rid (e_go_now E k) c) j u) c"
  by (auto simp: timer_of_def command_timer_def zero_Timer_def)

lemma command_log_tables:
  assumes "command_log E x wid rid u now es ts ms n cs ws"
  shows "(\<forall>T. tasks (apply_log ws T) = tasks T @ task_rows ws \<and> timers (apply_log ws T) = timers T @ timer_rows ws \<and>
    executions (apply_log ws T) =
      fold (close_execution wid u now) (map terminal_status (filter terminal_command cs)) (executions T)) \<and>
    list_all2 (task_of E x wid u) (task_rows ws) (filter (\<lambda>c. c_Type c = ''ScheduleActivity'') cs) \<and>
    list_all2 (timer_of E wid u) (timer_rows ws) (filter (\<lambda>c. c_Type c = ''StartTimer'') cs)"
  using assms
proof (induction cs arbitrary: es ts ms n ws)
  case (Cons c cs)
  then show ?case
    by (auto simp: Let_def terminal_command_def terminal_status_def close_execution_def task_of_row timer_of_row
      split: if_split_asm dest!: Cons.IH)
qed simp

text \<open>The timers that a workflow task of a running execution leaves.\<close>

lemma CompleteWorkflowTask_new_timers:
  assumes "serial E" and "CompleteWorkflowTask i wid rid cs E s = (Inr (), s')"
    and "e_uuid E rid = Some u" and "find_execution wid u (tabs (s_store s)) = Some x" and "we_Status x = ''Running''"
  shows "\<exists>ms. timers (tabs (s_store s')) = timers (tabs (s_store s)) @ ms \<and>
     list_all2 (timer_of E wid u) ms (filter (\<lambda>c. c_Type c = ''StartTimer'') cs)"
proof -
  from wpD [OF CompleteWorkflowTask_spec [unfolded effect_spec_def, OF assms(1)] assms(2)]
  have "CompleteWorkflowTask_effect E s i wid rid cs s'" by simp
  with assms(3-5) obtain ws where "command_log E x wid rid u (begin_now E s) (event_seq (s_store s)) (task_seq (s_store s))
      (timer_seq (s_store s)) (next_event_id wid u (tabs (s_store s))) cs ws"
    and T': "tabs (s_store s') = apply_write (DeleteTask i) (apply_log ws (tabs (s_store s)))"
    unfolding CompleteWorkflowTask_effect_def by (auto simp: committed_def)
  from command_log_tables [OF this(1)] show ?thesis unfolding T' by auto
qed

section \<open>The log of a timer scan\<close>

definition fired_event :: "tables \<Rightarrow> Event \<Rightarrow> Timer \<Rightarrow> bool" where
  "fired_event T e t \<longleftrightarrow> is_event_of (tm_WorkflowID t) (tm_RunID t) e \<and> ev_EventType e = ''TimerFired'' \<and>
     ev_TimerIndex e = tm_TimerIndex t \<and> ev_EventID e = next_event_id (tm_WorkflowID t) (tm_RunID t) T"

definition wakes :: "Task \<Rightarrow> string \<Rightarrow> string \<Rightarrow> bool" where
  "wakes w wid u \<longleftrightarrow> t_TaskType w = ''workflow'' \<and> t_WorkflowID w = wid \<and> t_RunID w = u \<and> t_LeaseOwner w = None"

definition mark_fired :: "int set \<Rightarrow> Timer \<Rightarrow> Timer" where
  "mark_fired ids t = (if tm_ID t \<in> ids then t\<lparr>tm_Fired := True\<rparr> else t)"

lemma mark_fired_insert: "(if tm_ID t = i \<and> \<not> tm_Fired t then t\<lparr>tm_Fired := True\<rparr> else t) = mark_fired {i} t"
  by (cases t) (simp add: mark_fired_def)

lemma mark_fired_compose: "mark_fired A (mark_fired B t) = mark_fired (A \<union> B) t"
  by (simp add: mark_fired_def)

lemma fired_log_tables:
  assumes "fired_log E T now es ts tms ws" and "\<forall>t \<in> set tms. e_uuid E (tm_RunID t) = Some (tm_RunID t)"
  shows "(\<forall>T0. executions (apply_log ws T0) = executions T0 \<and> tasks (apply_log ws T0) = tasks T0 @ task_rows ws \<and>
      timers (apply_log ws T0) = map (mark_fired (tm_ID ` set tms)) (timers T0)) \<and>
    list_all2 (fired_event T) (event_rows ws) tms \<and>
    list_all2 (\<lambda>w t. wakes w (tm_WorkflowID t) (tm_RunID t)) (task_rows ws) tms"
  using assms
proof (induction tms arbitrary: es ts ws)
  case Nil
  then show ?case by (simp add: mark_fired_def)
next
  case (Cons t tms)
  then show ?case
    by (auto simp: Let_def mark_fired_insert mark_fired_compose fired_event_def wakes_def is_event_of_def
        replay_task_def zero_Task_def zero_Event_def dest!: Cons.IH)
qed

lemma due_timers_select:
  assumes "due_timers E s tms" and "t \<in> set tms"
  shows "t \<in> set (timers (tabs (s_store s)))" and "timer_due (begin_now E s) t"
  using assms by (auto simp: due_timers_def select_due_def dest!: in_set_takeD)


lemma due_timers_distinct:
  assumes "distinct (map tm_ID (timers (tabs (s_store s))))" and "due_timers E s tms"
  shows "distinct (map tm_ID tms)"
  using assms by (auto simp: due_timers_def select_due_def distinct_map_filter take_map [symmetric])

end
