(* ===== verification/Invariants.thy ===== *)
theory Invariants
  imports LogTables
begin

text \<open>
  Invariants of the reachable states, from what each request commits: the effect of a request on
  the store (\<open>request_effect\<close>), the interface of an invariant (locale \<open>request_invariant\<close>), and
  the numbering of the histories as its first instance.
\<close>

section \<open>The effect of a request\<close>

fun request_effect :: "request \<Rightarrow> env \<Rightarrow> sess \<Rightarrow> sess \<Rightarrow> bool" where
  "request_effect (RStart req) E s s' \<longleftrightarrow> (\<exists>rid. StartWorkflow_effect E s (swq_WorkflowId req)
     (swq_WorkflowType req) (swq_TaskQueue req) (swq_Input req) rid s')"
| "request_effect (RPollWorkflow req) E s s' \<longleftrightarrow> (\<exists>t. PollTask_effect E s (pwq_TaskQueue req) ''workflow''
     (pwq_LeaseOwner req) t s')"
| "request_effect (RRespondWorkflow req) E s s' \<longleftrightarrow> CompleteWorkflowTask_effect E s (rwq_TaskId req)
     (rwq_WorkflowId req) (rwq_RunId req) (unmarshalCommands (rwq_Commands req)) s'"
| "request_effect (RPollActivity req) E s s' \<longleftrightarrow> (\<exists>t. PollTask_effect E s (paq_TaskQueue req) ''activity''
     (paq_LeaseOwner req) t s')"
| "request_effect (RRespondActivity req) E s s' \<longleftrightarrow> CompleteActivityTask_effect E s (rcq_TaskId req)
     (rcq_WorkflowId req) (rcq_RunId req) (rcq_Result req) s'"
| "request_effect (RFailActivity req) E s s' \<longleftrightarrow> (\<exists>t. find_task (rfq_TaskId req) (tabs (s_store s)) = Some t \<and>
     (if sint (t_Attempt t) < sint (t_MaxAttempts t) then RetryActivityTask_effect E s (rfq_TaskId req) t s'
      else ExhaustActivityTask_effect E s (rfq_TaskId req) (rfq_WorkflowId req) (rfq_RunId req) (rfq_Error req) t s'))"
| "request_effect (RSignal req) E s s' \<longleftrightarrow> (\<exists>rid. signal_target E s (sgq_WorkflowId req) (sgq_RunId req) rid \<and>
     SignalWorkflow_effect E s (sgq_WorkflowId req) rid (sgq_SignalName req) (sgq_Input req) s')"
| "request_effect TickReclaim E s s' \<longleftrightarrow> committed [ReclaimLeases (begin_now E s)] 0 0 0 s s'"
| "request_effect TickTimers E s s' \<longleftrightarrow> (\<exists>tms. ScanTimers_effect E s tms s')"

lemmas effect_defs = StartWorkflow_effect_def PollTask_effect_def CompleteWorkflowTask_effect_def
  CompleteActivityTask_effect_def RetryActivityTask_effect_def ExhaustActivityTask_effect_def
  SignalWorkflow_effect_def ScanTimers_effect_def

lemma request_effect_store:
  "request_effect q E s s1 \<Longrightarrow> s_store s' = s_store s1 \<Longrightarrow> request_effect q E s s'"
  by (cases q) (simp_all only: request_effect.simps effect_defs committed_def)

definition served :: "request \<Rightarrow> env \<Rightarrow> sess \<Rightarrow> sess \<Rightarrow> bool" where
  "served q E s s' \<longleftrightarrow> tabs (s_store s') = tabs (s_store s) \<and> seqs_le s s' \<or> request_effect q E s s'"

lemma served_quiet: "quiet s s' \<Longrightarrow> served q E s s'"
  by (simp add: served_def quiet_def)

lemma served_handler:
  assumes "serial E" and "\<And>res. store_quiet (k res)"
    and m: "wp m E s (\<lambda>_. served q E s) (\<lambda>_. served q E s)"
  shows "served q E s (snd (bindM (tryM m) k E s))"
proof -
  obtain r s' where r: "bindM (tryM m) k E s = (r, s')" by (cases "bindM (tryM m) k E s")
  obtain r1 s1 where m1: "m E s = (r1, s1)" and st: "s_store s' = s_store s1"
    using handler_session [OF assms(1,2) r] .
  from wpD [OF m m1] have "served q E s s1" by (simp split: sum.splits)
  with st r show ?thesis using request_effect_store [of q E s s1 s'] by (auto simp: served_def seqs_le_def)
qed

lemma serve_served:
  assumes E: "serial E"
  shows "served q E s (serve q E s)"
proof (cases q)
  case (RStart req)
  show ?thesis unfolding RStart serve.simps Handler_StartWorkflow_def
    by (rule served_handler [OF E]) (auto intro!: wp_mono [OF wp_StartWorkflow [OF E]] simp: served_def quiet_def)
next
  case (RPollWorkflow req)
  show ?thesis unfolding RPollWorkflow serve.simps Handler_PollWorkflowTask_def
    by (rule served_handler [OF E], intro store_quiet_bind store_quiet_case store_quiet_simps)
      (auto intro!: wp_mono [OF wp_PollTask [OF E]] simp: served_def quiet_def split: option.splits)
next
  case (RRespondWorkflow req)
  show ?thesis unfolding RRespondWorkflow serve.simps Handler_RespondWorkflowTaskCompleted_def
    by (rule served_handler [OF E])
      (auto intro!: wp_mono [OF CompleteWorkflowTask_spec [OF E, unfolded effect_spec_def]] simp: served_def quiet_def)
next
  case (RPollActivity req)
  show ?thesis unfolding RPollActivity serve.simps Handler_PollActivityTask_def
    by (rule served_handler [OF E], intro store_quiet_bind store_quiet_case store_quiet_simps)
      (auto intro!: wp_mono [OF wp_PollTask [OF E]] simp: served_def quiet_def split: option.splits)
next
  case (RRespondActivity req)
  show ?thesis unfolding RRespondActivity serve.simps Handler_RespondActivityTaskCompleted_def
    by (rule served_handler [OF E])
      (auto intro!: wp_mono [OF CompleteActivityTask_spec [OF E, unfolded effect_spec_def]] simp: served_def quiet_def)
next
  case (RFailActivity req)
  show ?thesis unfolding RFailActivity serve.simps Handler_RespondActivityTaskFailed_def
    by (rule served_handler [OF E])
      (auto intro!: wp_mono [OF wp_FailActivityTask [OF E]] simp: served_def quiet_def split: if_split_asm)
next
  case (RSignal req)
  show ?thesis unfolding RSignal serve.simps Handler_SignalWorkflow_def
    by (rule served_handler [OF E])
      (auto intro!: wp_mono [OF wp_SignalWorkflow [OF E]] simp: served_def quiet_def)
next
  case TickReclaim
  show ?thesis unfolding TickReclaim serve.simps reclaimLoop_tick_def
    by (rule served_handler [OF E])
      (auto intro!: wp_mono [OF wp_ReclaimExpiredLeases [OF E]] simp: served_def seqs_le_def committed_def begin_now_def simp del: apply_write.simps)
next
  case TickTimers
  show ?thesis unfolding TickTimers serve.simps scanTimers_tick_def
    by (rule served_handler [OF E])
      (auto intro!: wp_mono [OF wp_ScanTimers [OF E]] simp: served_def quiet_def)
qed

section \<open>The interface of an invariant\<close>

text \<open>
  An invariant \<open>inv\<close> of the tables that every request keeps, as long as the request is one the
  clients of the engine make (\<open>ok\<close>).
\<close>

locale request_invariant =
  fixes ok :: "env \<Rightarrow> sess \<Rightarrow> request \<Rightarrow> bool"
    and inv :: "tables \<Rightarrow> bool"
  assumes inv_init: "inv (tabs init_store)"
    and inv_effect: "serial E \<Longrightarrow> uuid_ok E \<Longrightarrow> wf_store (e_uuid E) (s_store s) \<Longrightarrow> ok E s q \<Longrightarrow>
      inv (tabs (s_store s)) \<Longrightarrow> request_effect q E s s' \<Longrightarrow> inv (tabs (s_store s'))"
begin

lemma inv_serve:
  assumes "serial E" "uuid_ok E" "wf_store (e_uuid E) (s_store s)" "ok E s q" "inv (tabs (s_store s))"
  shows "inv (tabs (s_store (serve q E s)))"
  using serve_served [OF assms(1), of q s] inv_effect [OF assms] assms(5) by (auto simp: served_def)

lemma inv_reachable:
  assumes "reachable U ok' s" and "\<And>E s q. ok' E s q \<Longrightarrow> ok E s q"
  shows "inv (tabs (s_store s))"
  using assms(1)
proof (induction rule: reachable.induct)
  case (init s)
  then show ?case using inv_init by simp
next
  case (more s s')
  from more.hyps(2) obtain E q where "serial E" "uuid_ok E" "e_uuid E = U" "ok' E s q" "s' = serve q E s"
    by (auto elim: stepE)
  with inv_serve assms(2) more.IH reachable_wf [OF more.hyps(1)] show ?case by metis
qed simp

end

interpretation numbering: request_invariant numbering_ok dense
proof
  show "dense (tabs init_store)"
    by (simp add: init_store_def dense_def run_events_def contiguous_def)
next
  fix E :: env and s s' q
  assume "serial E" and wf: "wf_store (e_uuid E) (s_store s)" and ok: "numbering_ok E s q"
    and d: "dense (tabs (s_store s))" and eff: "request_effect q E s s'"
  show "dense (tabs (s_store s'))"
  proof (cases q)
    case TickReclaim
    with eff have "committed [ReclaimLeases (begin_now E s)] 0 0 0 s s'" by simp
    from dense_committed [OF this d] show ?thesis by simp
  qed (use eff ok d in \<open>auto intro: StartWorkflow_dense [OF wf] ScanTimers_dense [OF wf] operation_dense split: if_split_asm\<close>)
qed

end
