(* ===== verification/Samples.thy ===== *)
theory Samples
  imports Invariants
begin

text \<open>
  A concrete environment and a few concrete sessions, reached by running the engine on it, for
  the theorems that show a property's hypotheses can hold.
\<close>

definition sample_env :: env where
  "sample_env = \<lparr>e_fault = (\<lambda>_. NoFault), e_driver_text = (\<lambda>_. ''broken pipe''), e_row_stage = (\<lambda>_. AtQuery), e_interfere = (\<lambda>_ st. st),
     e_db_now = (\<lambda>n. 1000 + int n), e_go_now = (\<lambda>n. 1000 + int n),
     e_new_uuid = (\<lambda>n. replicate (n + 1) (CHR ''u'')), e_rand = (\<lambda>_. 1 / 2), e_row_rank = (\<lambda>_ k. k),
     e_row_locked = (\<lambda>_ _. False), e_uuid = (\<lambda>t. if t = '''' then None else Some t),
     e_store_time = (\<lambda>t. t)\<rparr>"

text \<open>The same environment, with the call number \<open>n\<close> failing in the way \<open>f\<close>, or at a later time.\<close>

definition failing_env :: "fault \<Rightarrow> nat \<Rightarrow> env" where
  "failing_env f n = sample_env\<lparr>e_fault := (\<lambda>m. if m = n then f else NoFault)\<rparr>"

definition late_env :: "time \<Rightarrow> env" where
  "late_env t = sample_env\<lparr>e_db_now := (\<lambda>n. t + int n), e_go_now := (\<lambda>n. t + int n)\<rparr>"

definition sample_init :: sess where
  "sample_init = \<lparr>s_store = init_store, s_metrics = zero_metrics, s_tick = 0, s_txn = None\<rparr>"

definition schedule :: "string \<Rightarrow> i32 \<Rightarrow> Command" where
  "schedule name i = zero_Command\<lparr>c_Type := ''ScheduleActivity'', c_ActivityName := name, c_ActivityIndex := i,
     c_TaskQueue := ''q'', c_Input := Some ''1''\<rparr>"

definition start_timer :: "i32 \<Rightarrow> i64 \<Rightarrow> Command" where
  "start_timer i ms = zero_Command\<lparr>c_Type := ''StartTimer'', c_TimerIndex := i, c_DurationMs := ms\<rparr>"

definition sample_start :: StartWorkflowRequest where
  "sample_start = \<lparr>swq_WorkflowId = ''w'', swq_WorkflowType = ''T'', swq_TaskQueue = ''q'', swq_Input = Some ''7''\<rparr>"

text \<open>The run of the samples; its ID is the UUID drawn by the third call.\<close>

definition sample_run :: string where
  "sample_run = ''uuu''"

definition sample_started :: sess where
  "sample_started = serve (RStart sample_start) sample_env sample_init"

definition sample_scheduled :: sess where
  "sample_scheduled = snd (CompleteWorkflowTask 1 ''w'' sample_run [schedule ''A'' 0] sample_env sample_started)"

definition sample_ended :: sess where
  "sample_ended = snd (CompleteWorkflowTask 1 ''w'' sample_run
     [zero_Command\<lparr>c_Type := ''CompleteWorkflow''\<rparr>] sample_env sample_started)"

definition sample_sleeping :: sess where
  "sample_sleeping = snd (CompleteWorkflowTask 1 ''w'' sample_run [start_timer 0 5] sample_env sample_started)"

lemma sample_env_ok [simp]:
  "serial sample_env" "uuid_ok sample_env" "serial (failing_env f n)" "uuid_ok (failing_env f n)"
  "serial (late_env t)" "uuid_ok (late_env t)"
  by (auto simp: serial_def uuid_ok_def sample_env_def failing_env_def late_env_def split: if_splits)

lemma sample_uuid [simp]: "e_uuid (late_env t) = e_uuid sample_env" "e_uuid (failing_env f n) = e_uuid sample_env"
  by (simp_all add: late_env_def failing_env_def)

lemma sample_init_empty [simp]: "tabs (s_store sample_init) = \<lparr>executions = [], events = [], tasks = [], timers = []\<rparr>"
  by (simp add: sample_init_def init_store_def)

text \<open>The result of a run, from its value.\<close>

lemma ran: "fst p = r \<Longrightarrow> p = (r, snd p)"
  by auto

lemma sample_init_reachable: "reachable U ok sample_init"
  by (rule reachable.init) (simp add: sample_init_def)

lemma sample_started_step: "ok sample_env sample_init (RStart sample_start) \<Longrightarrow>
    step (e_uuid sample_env) ok sample_init sample_started"
  unfolding sample_started_def by (rule step.step) simp_all

lemma sample_started_reachable: "ok sample_env sample_init (RStart sample_start) \<Longrightarrow>
    reachable (e_uuid sample_env) ok sample_started"
  using reachable.more [OF sample_init_reachable sample_started_step] .

lemma sample_wf: "wf_store (e_uuid sample_env) (s_store sample_started)"
  using reachable_wf [OF sample_started_reachable [of "\<lambda>_ _ _. True"]] by simp

lemma sample_dense: "dense (tabs (s_store sample_started))"
  using reachable_dense [OF sample_started_reachable [of numbering_ok]] by simp

lemma sample_after_wf:
  "wf_store (e_uuid sample_env) (s_store sample_scheduled)"
  "wf_store (e_uuid sample_env) (s_store sample_ended)"
  "wf_store (e_uuid sample_env) (s_store sample_sleeping)"
  unfolding sample_scheduled_def sample_ended_def sample_sleeping_def
  by (rule engine_step_wf [OF complete_workflow.step_snd]; simp add: sample_wf)+

text \<open>
  Evaluation of one operation on the sample environment by rewriting, for the runs that draw a
  retry delay (whose value the result does not depend on).
\<close>

lemmas run_simps = in_tx_def BeginTx_def bindM_def wrapM_def tryM_def db_call_def tx_call_def
  deferring_Rollback_def GetTask_def CompleteTask_def InsertTask_def netxtRetryDelay_def
  rand_Float64_def time_Now_def metricM_def Commit_def with_uuid_def returnM_def log_write_def
  call_step_def nextval_task_def sample_env_def Let_def

lemma sample_scheduled_task:
  "find_task 2 (tabs (s_store sample_scheduled)) = Some \<lparr>t_ID = 2, t_TaskQueue = ''q'',
     t_TaskType = ''activity'', t_WorkflowType = ''T'', t_WorkflowID = ''w'', t_RunID = sample_run,
     t_ScheduledEventID = 2, t_Input = Some ''1'', t_ActivityName = ''A'', t_ActivityIndex = 0,
     t_Attempt = 1, t_MaxAttempts = 3, t_VisibilityTime = zero_time, t_LeaseOwner = None,
     t_LeaseExpiresAt = None\<rparr>"
  by code_simp

lemma sample_failure_runs:
  "fst (FailActivityTask 2 ''w'' sample_run ''boom'' sample_env sample_scheduled) = Inr ()"
  using sample_scheduled_task unfolding find_task_def
  by (simp add: FailActivityTask_def run_simps sample_run_def)


definition sample_two :: sess where
  "sample_two = snd (CompleteWorkflowTask 1 ''w'' sample_run [schedule ''A'' 0, schedule ''B'' 1] sample_env sample_started)"

definition sample_polled :: sess where
  "sample_polled = snd (PollTask ''q'' ''activity'' ''me'' sample_env sample_two)"

lemma sample_two_wf:
  "wf_store (e_uuid sample_env) (s_store sample_two)" "wf_store (e_uuid sample_env) (s_store sample_polled)"
proof -
  show "wf_store (e_uuid sample_env) (s_store sample_two)"
    unfolding sample_two_def by (rule engine_step_wf [OF complete_workflow.step_snd]; simp add: sample_wf)
  then show "wf_store (e_uuid sample_env) (s_store sample_polled)"
    unfolding sample_polled_def by (intro engine_step_wf [OF poll.step_snd]) simp_all
qed

lemma polled_task:
  assumes "map_sum id (map_option t_ID) r = Inr (Some i)"
  obtains t where "r = Inr (Some t)" and "t_ID t = i"
  using assms by (cases r) auto

end
