(* ===== verification/HistoryProperties.thy ===== *)
theory HistoryProperties
  imports Samples
begin

text \<open>
  The functional behaviour of the operations of \<open>history\<close> and \<open>persistence\<close>, on success and on
  error, each with a run on the sample environment that shows its hypotheses hold somewhere.
\<close>

section \<open>Starting a workflow\<close>

text \<open>
  C34: a successful \<open>StartWorkflow\<close> found no running latest execution of the
  workflow ID, and has appended, in one commit, one running execution under a run ID that was not
  in use, the event \<open>WorkflowStarted\<close> with ID 1 and the input as data (an empty one for nil), and
  one unleased workflow task that is visible at once, from the zero time on (as the database keeps
  it); it returns the run ID and counts one started workflow.
\<close>

theorem StartWorkflow_success:
  assumes "serial E" and "StartWorkflow wid wtype queue input E s = (Inr rid, s')"
  shows "\<exists>u. e_uuid E rid = Some u \<and> latest_not_running E wid (tabs (s_store s)) \<and>
    find_execution wid u (tabs (s_store s)) = None \<and>
    executions (tabs (s_store s')) = executions (tabs (s_store s)) @
      [\<lparr>we_WorkflowID = wid, we_RunID = u, we_WorkflowType = wtype, we_TaskQueue = queue,
        we_Status = ''Running'', we_StartedAt = e_db_now E (s_tick s), we_ClosedAt = None\<rparr>] \<and>
    (\<exists>e. events (tabs (s_store s')) = events (tabs (s_store s)) @ [e] \<and> is_event_of wid u e \<and>
      ev_EventID e = 1 \<and> ev_EventType e = ''WorkflowStarted'' \<and>
      ev_Data e = Some (case input of None \<Rightarrow> [] | Some d \<Rightarrow> d)) \<and>
    (\<exists>t. tasks (tabs (s_store s')) = tasks (tabs (s_store s)) @ [t] \<and> t_WorkflowID t = wid \<and>
      t_RunID t = u \<and> t_TaskType t = ''workflow'' \<and> t_TaskQueue t = queue \<and> t_WorkflowType t = wtype \<and>
      t_LeaseOwner t = None \<and> t_VisibilityTime t = e_store_time E zero_time) \<and>
    timers (tabs (s_store s')) = timers (tabs (s_store s)) \<and>
    s_metrics s' = (s_metrics s)\<lparr>WorkflowsStarted := WorkflowsStarted (s_metrics s) + 1\<rparr>"
  using wpD [OF wp_StartWorkflow [OF assms(1)] assms(2)] StartWorkflow_rows [of E s wid wtype queue input rid s'] by auto

theorem StartWorkflow_success_witness:
  "length (executions (tabs (s_store (snd (StartWorkflow ''w'' ''T'' ''q'' None sample_env sample_init))))) = 1"
proof -
  have "StartWorkflow ''w'' ''T'' ''q'' None sample_env sample_init =
      (Inr ''uuu'', snd (StartWorkflow ''w'' ''T'' ''q'' None sample_env sample_init))"
    by (rule ran) code_simp
  from StartWorkflow_success [OF sample_env_ok(1) this] show ?thesis by auto
qed

text \<open>
  C35: while the latest execution of a workflow ID is running, \<open>StartWorkflow\<close>
  changes no table and no counter, whatever fails, and reports \<open>ErrWorkflowAlreadyRunning\<close> when
  no call fails.
\<close>

theorem StartWorkflow_refused:
  assumes "serial E" and "\<And>r. \<exists>x. latest_execution r wid (tabs (s_store s)) = Some x \<and> we_Status x = ''Running''"
  shows "\<exists>err s'. StartWorkflow wid wtype queue input E s = (Inl err, s') \<and>
    tabs (s_store s') = tabs (s_store s) \<and> s_metrics s' = s_metrics s \<and>
    (fault_free E \<longrightarrow> errors_Is err ErrWorkflowAlreadyRunning)"
proof -
  have no: "\<not> latest_not_running E wid (tabs (s_store s))"
    unfolding latest_not_running_def using assms(2) by fastforce
  obtain r s' where r: "StartWorkflow wid wtype queue input E s = (r, s')" by fastforce
  from wpD [OF wp_StartWorkflow [OF assms(1)] r] no
  obtain err where e: "r = Inl err" and q: "quiet s s'"
    by (auto simp: StartWorkflow_effect_def split: sum.splits)
  have "errors_Is err ErrWorkflowAlreadyRunning" if "fault_free E"
  proof -
    obtain x where x: "latest_execution (e_row_rank E (Suc (s_tick s))) wid (tabs (s_store s)) = Some x"
      and run: "we_Status x = ''Running''" using assms(2) by blast
    from r that x run assms(1) show ?thesis
      by (auto simp: e StartWorkflow_def in_tx_def BeginTx_def bindM_def wrapM_def tryM_def db_call_def
        fault_free_def serial_def call_step_def GetLatestExecution_def deferring_Rollback_def returnM_def raiseM_def)
  qed
  with r e q show ?thesis by (auto simp: quiet_def)
qed

theorem StartWorkflow_refused_witness:
  "\<exists>err s'. StartWorkflow ''w'' ''T'' ''q'' None sample_env sample_started = (Inl err, s') \<and>
     errors_Is err ErrWorkflowAlreadyRunning"
proof -
  have x: "executions (tabs (s_store sample_started)) =
      [\<lparr>we_WorkflowID = ''w'', we_RunID = ''uuu'', we_WorkflowType = ''T'', we_TaskQueue = ''q'',
        we_Status = ''Running'', we_StartedAt = 1000, we_ClosedAt = None\<rparr>]" by code_simp
  have "\<exists>x. latest_execution r ''w'' (tabs (s_store sample_started)) = Some x \<and> we_Status x = ''Running''" for r
    by (simp add: latest_execution_def x)
  moreover have "fault_free sample_env" by (simp add: fault_free_def sample_env_def)
  ultimately show ?thesis using StartWorkflow_refused [OF sample_env_ok(1)] by fastforce
qed

section \<open>Completing a workflow task\<close>

text \<open>
  C21: a successful \<open>CompleteWorkflowTask\<close> of a running execution has,
  in one commit, appended one event per known command in the order of the commands, one
  activity task on attempt 1 of 3 per \<open>ScheduleActivity\<close>, one unfired timer per \<open>StartTimer\<close> due at
  the Go clock plus the duration, closed the execution for each terminal command, and removed the
  workflow task; the counters move by the number of commands of each type. For an execution that
  is not running it has removed the task and done nothing else.
\<close>

theorem CompleteWorkflowTask_success:
  assumes "serial E" and "CompleteWorkflowTask i wid rid cs E s = (Inr (), s')"
  defines "T \<equiv> tabs (s_store s)" and "T' \<equiv> tabs (s_store s')"
  shows "\<exists>u x. e_uuid E rid = Some u \<and> find_execution wid u T = Some x \<and>
    (if we_Status x \<noteq> ''Running'' then
       T' = T\<lparr>tasks := filter (\<lambda>t. t_ID t \<noteq> i) (tasks T)\<rparr> \<and> s_metrics s' = s_metrics s
     else
       (\<exists>es. events T' = events T @ es \<and> list_all2 (row_of wid rid u (e_db_now E (s_tick s))) es (filter known_command cs)) \<and>
       (\<exists>ts. tasks T' = filter (\<lambda>t. t_ID t \<noteq> i) (tasks T @ ts) \<and>
          list_all2 (task_of E x wid u) ts (filter (\<lambda>c. c_Type c = ''ScheduleActivity'') cs)) \<and>
       (\<exists>ms. timers T' = timers T @ ms \<and>
          list_all2 (timer_of E wid u) ms (filter (\<lambda>c. c_Type c = ''StartTimer'') cs)) \<and>
       executions T' = fold (close_execution wid u (e_db_now E (s_tick s)))
         (map terminal_status (filter terminal_command cs)) (executions T) \<and>
       s_metrics s' = count_outcomes (tally_of cs) (s_metrics s))"
proof -
  from wpD [OF CompleteWorkflowTask_spec [unfolded effect_spec_def, OF assms(1)] assms(2)]
  have eff: "CompleteWorkflowTask_effect E s i wid rid cs s'"
    and m: "s_metrics s' = (if workflow_running E s wid rid then count_outcomes (tally_of cs) (s_metrics s) else s_metrics s)"
    by simp_all
  from eff obtain u x where u: "e_uuid E rid = Some u" and x: "find_execution wid u T = Some x"
    and c: "if we_Status x \<noteq> ''Running'' then committed [DeleteTask i] 0 0 0 s s'
        else (\<exists>ws. command_log E x wid rid u (begin_now E s) (event_seq (s_store s)) (task_seq (s_store s))
             (timer_seq (s_store s)) (next_event_id wid u T) cs ws \<and>
           committed (ws @ [DeleteTask i]) (int (length (filter known_command cs)))
             (int (count_type ''ScheduleActivity'' cs)) (int (count_type ''StartTimer'' cs)) s s')"
    unfolding CompleteWorkflowTask_effect_def T_def by blast
  have run: "workflow_running E s wid rid \<longleftrightarrow> we_Status x = ''Running''"
    using u x by (auto simp: workflow_running_def T_def)
  show ?thesis
  proof (cases "we_Status x = ''Running''")
    case False
    with c u x m run show ?thesis by (auto simp: committed_def T'_def T_def)
  next
    case True
    with c obtain ws where log: "command_log E x wid rid u (begin_now E s) (event_seq (s_store s))
        (task_seq (s_store s)) (timer_seq (s_store s)) (next_event_id wid u T) cs ws"
      and T': "T' = apply_write (DeleteTask i) (apply_log ws T)"
      by (auto simp: committed_def T_def T'_def)
    note tables = command_log_tables [OF log]
    with True u x m run command_log_rows [OF log] T' show ?thesis
      by (intro exI [of _ u] exI [of _ x]) (auto simp: begin_now_def events_apply_log)
  qed
qed

theorem CompleteWorkflowTask_success_witness:
  "fst (CompleteWorkflowTask 1 ''w'' sample_run [schedule ''A'' 0, start_timer 0 5] sample_env sample_started) = Inr () \<and>
   (\<exists>u x. e_uuid sample_env sample_run = Some u \<and> find_execution ''w'' u (tabs (s_store sample_started)) = Some x)"
proof (rule conjI)
  show r: "fst (CompleteWorkflowTask 1 ''w'' sample_run [schedule ''A'' 0, start_timer 0 5] sample_env sample_started) = Inr ()"
    by code_simp
  from CompleteWorkflowTask_success [OF sample_env_ok(1) ran [OF r]]
  show "\<exists>u x. e_uuid sample_env sample_run = Some u \<and> find_execution ''w'' u (tabs (s_store sample_started)) = Some x"
    by blast
qed

end
