(* ===== verification/ActivityProperties.thy ===== *)
theory ActivityProperties
  imports Samples
begin

text \<open>
  The functional behaviour of the activity and timer operations of \<open>history\<close>: completion,
  failure with and without attempts left, the retry delay and the timer scan.
\<close>

section \<open>Activity tasks\<close>

text \<open>
  C23: a successful \<open>CompleteActivityTask\<close> has found the task and the
  execution and, in one commit, appended the event \<open>ActivityCompleted\<close> with the next event ID, the
  name and index of the task and the result (an empty one for nil), removed the task, and put one
  visible workflow task for the run in its task queue, so that the run replays.
\<close>

theorem CompleteActivityTask_success:
  assumes "serial E" and "wf_store (e_uuid E) (s_store s)"
    and "CompleteActivityTask i wid rid result E s = (Inr (), s')"
  defines "T \<equiv> tabs (s_store s)" and "T' \<equiv> tabs (s_store s')"
  shows "\<exists>t x u. find_task i T = Some t \<and> e_uuid E rid = Some u \<and> find_execution wid u T = Some x \<and>
    executions T' = executions T \<and> timers T' = timers T \<and>
    (\<exists>e. events T' = events T @ [e] \<and> is_event_of wid u e \<and> ev_EventID e = next_event_id wid u T \<and>
      ev_EventType e = ''ActivityCompleted'' \<and> ev_ActivityName e = t_ActivityName t \<and>
      ev_ActivityIndex e = t_ActivityIndex t \<and> ev_Data e = Some (case result of None \<Rightarrow> [] | Some d \<Rightarrow> d)) \<and>
    (\<exists>w. tasks T' = filter (\<lambda>t. t_ID t \<noteq> i) (tasks T) @ [w] \<and> t_TaskType w = ''workflow'' \<and>
      t_WorkflowID w = wid \<and> t_RunID w = u \<and> t_TaskQueue w = we_TaskQueue x \<and>
      t_WorkflowType w = we_WorkflowType x \<and> t_LeaseOwner w = None \<and>
      t_VisibilityTime w = e_store_time E zero_time)"
proof -
  from wpD [OF CompleteActivityTask_spec [unfolded effect_spec_def, OF assms(1)] assms(3)]
  have "CompleteActivityTask_effect E s i wid rid result s'" by simp
  then obtain t :: Task and x u v where *: "find_task i T = Some t" "e_uuid E rid = Some u"
      "find_execution wid u T = Some x" "e_uuid E (we_RunID x) = Some v"
    and c: "committed
         [new_event E s u (zero_Event\<lparr>ev_WorkflowID := wid, ev_RunID := rid,
            ev_EventID := next_event_id wid u T, ev_EventType := ''ActivityCompleted'',
            ev_ActivityName := t_ActivityName t, ev_ActivityIndex := t_ActivityIndex t,
            ev_Data := result\<rparr>),
          DeleteTask i,
          new_task E s v (replay_task x (we_WorkflowID x) (we_RunID x) (next_event_id wid u T))] 1 1 0 s s'"
    unfolding CompleteActivityTask_effect_def T_def by blast
  note k = wf_execution_keys [OF assms(2) *(3) [unfolded T_def]]
  with *(4) have v: "v = u" by simp
  have d: "task_seq (s_store s) + 1 \<noteq> i"
    using wf_task(3,4) [OF assms(2) *(1) [unfolded T_def]] assms(2) by (auto simp: wf_store_def wf_tables_def)
  from c * k v d show ?thesis
    by (intro exI [of _ t] exI [of _ x] exI [of _ u])
      (auto simp: committed_def T'_def T_def new_event_def new_task_def replay_task_def zero_Event_def
        zero_Task_def is_event_of_def)
qed

theorem CompleteActivityTask_success_witness:
  "fst (CompleteActivityTask 2 ''w'' sample_run (Some ''ok'') sample_env sample_scheduled) = Inr () \<and>
   (\<exists>t. find_task 2 (tabs (s_store sample_scheduled)) = Some t)"
proof (rule conjI)
  show r: "fst (CompleteActivityTask 2 ''w'' sample_run (Some ''ok'') sample_env sample_scheduled) = Inr ()" by code_simp
  from CompleteActivityTask_success [OF sample_env_ok(1) sample_after_wf(1) ran [OF r]]
  show "\<exists>t. find_task 2 (tabs (s_store sample_scheduled)) = Some t" by blast
qed

text \<open>
  A failure with attempts left puts back the task for the same call; the last one ends the activity.
\<close>

definition retried_task :: "env \<Rightarrow> sess \<Rightarrow> Task \<Rightarrow> nat \<Rightarrow> nat \<Rightarrow> Task" where
  "retried_task E s t j k = t\<lparr>t_ID := task_seq (s_store s) + 1, t_TaskType := ''activity'',
     t_Attempt := t_Attempt t + 1, t_LeaseOwner := None, t_LeaseExpiresAt := None,
     t_VisibilityTime := e_store_time E (e_go_now E j +
       retry_delay round64 DefaultRetryPolicy (t_Attempt t) (e_rand E k))\<rparr>"

lemma FailActivityTask_retries:
  assumes "serial E" and "wf_store (e_uuid E) (s_store s)"
    and "FailActivityTask i wid rid errMsg E s = (Inr (), s')"
    and "find_task i (tabs (s_store s)) = Some t" and "sint (t_Attempt t) < sint (t_MaxAttempts t)"
  defines "T \<equiv> tabs (s_store s)" and "T' \<equiv> tabs (s_store s')"
  shows "executions T' = executions T" "timers T' = timers T" "events T' = events T"
    "\<exists>j k. tasks T' = filter (\<lambda>t. t_ID t \<noteq> i) (tasks T) @ [retried_task E s t j k]"
    "s_metrics s' = (s_metrics s)\<lparr>ActivityRetries := ActivityRetries (s_metrics s) + 1\<rparr>"
proof -
  from wpD [OF wp_FailActivityTask [OF assms(1)] assms(3)] assms(4,5)
  have r: "RetryActivityTask_effect E s i t s'"
    and m: "s_metrics s' = (s_metrics s)\<lparr>ActivityRetries := ActivityRetries (s_metrics s) + 1\<rparr>" by auto
  from r wf_task(5) [OF assms(2,4)] obtain j k where c: "committed
       [DeleteTask i,
        new_task E s (t_RunID t) (zero_Task\<lparr>t_TaskQueue := t_TaskQueue t, t_TaskType := ''activity'',
          t_WorkflowType := t_WorkflowType t, t_WorkflowID := t_WorkflowID t, t_RunID := t_RunID t,
          t_ScheduledEventID := t_ScheduledEventID t, t_ActivityName := t_ActivityName t,
          t_ActivityIndex := t_ActivityIndex t, t_Input := t_Input t, t_Attempt := t_Attempt t + 1,
          t_MaxAttempts := t_MaxAttempts t,
          t_VisibilityTime := e_go_now E j + retry_delay round64 DefaultRetryPolicy (t_Attempt t) (e_rand E k)\<rparr>)]
       0 1 0 s s'"
    unfolding RetryActivityTask_effect_def by auto
  then have "tasks T' = filter (\<lambda>t. t_ID t \<noteq> i) (tasks T) @ [retried_task E s t j k]"
    by (cases t) (simp add: retried_task_def committed_def T_def T'_def new_task_def task_row_def zero_Task_def)
  with c m show "executions T' = executions T" "timers T' = timers T" "events T' = events T"
    "\<exists>j k. tasks T' = filter (\<lambda>t. t_ID t \<noteq> i) (tasks T) @ [retried_task E s t j k]"
    "s_metrics s' = (s_metrics s)\<lparr>ActivityRetries := ActivityRetries (s_metrics s) + 1\<rparr>"
    by (auto simp: committed_def T_def T'_def new_task_def)
qed

lemma FailActivityTask_exhausts:
  assumes "serial E" and "FailActivityTask i wid rid errMsg E s = (Inr (), s')"
    and "find_task i (tabs (s_store s)) = Some t" and "\<not> sint (t_Attempt t) < sint (t_MaxAttempts t)"
  obtains u x where "e_uuid E rid = Some u" "find_execution wid u (tabs (s_store s)) = Some x"
    "committed
       [new_event E s u (zero_Event\<lparr>ev_WorkflowID := wid, ev_RunID := rid,
          ev_EventID := next_event_id wid u (tabs (s_store s)), ev_EventType := ''ActivityFailed'',
          ev_ActivityName := t_ActivityName t, ev_ActivityIndex := t_ActivityIndex t,
          ev_Data := Some errMsg\<rparr>),
        DeleteTask i,
        new_task E s u (replay_task x wid rid (next_event_id wid u (tabs (s_store s))))] 1 1 0 s s'"
    "s_metrics s' = (s_metrics s)\<lparr>ActivitiesFinished := (ActivitiesFinished (s_metrics s))
       (''failed'' := ActivitiesFinished (s_metrics s) ''failed'' + 1)\<rparr>"
  using wpD [OF wp_FailActivityTask [OF assms(1)] assms(2)] assms(3,4) that
  unfolding ExhaustActivityTask_effect_def by auto

text \<open>
  C22: a successful \<open>FailActivityTask\<close> of a task with attempts left replaces
  the task by one for the same call on the next attempt, invisible until the retry delay has
  passed, and writes no event; on the last attempt it appends \<open>ActivityFailed\<close> with the error text
  and puts a workflow task for the run instead. One counter moves, by one.
\<close>

theorem FailActivityTask_success:
  assumes "serial E" and "wf_store (e_uuid E) (s_store s)"
    and "FailActivityTask i wid rid errMsg E s = (Inr (), s')"
  defines "T \<equiv> tabs (s_store s)" and "T' \<equiv> tabs (s_store s')"
  shows "\<exists>t. find_task i T = Some t \<and> executions T' = executions T \<and> timers T' = timers T \<and>
    (if sint (t_Attempt t) < sint (t_MaxAttempts t) then
       events T' = events T \<and>
       (\<exists>j k. tasks T' = filter (\<lambda>t. t_ID t \<noteq> i) (tasks T) @
         [t\<lparr>t_ID := task_seq (s_store s) + 1, t_TaskType := ''activity'', t_Attempt := t_Attempt t + 1,
            t_LeaseOwner := None, t_LeaseExpiresAt := None,
            t_VisibilityTime := e_store_time E (e_go_now E j +
              retry_delay round64 DefaultRetryPolicy (t_Attempt t) (e_rand E k))\<rparr>]) \<and>
       s_metrics s' = (s_metrics s)\<lparr>ActivityRetries := ActivityRetries (s_metrics s) + 1\<rparr>
     else \<exists>u x. e_uuid E rid = Some u \<and> find_execution wid u T = Some x \<and>
       (\<exists>e. events T' = events T @ [e] \<and> is_event_of wid u e \<and> ev_EventID e = next_event_id wid u T \<and>
         ev_EventType e = ''ActivityFailed'' \<and> ev_ActivityName e = t_ActivityName t \<and>
         ev_ActivityIndex e = t_ActivityIndex t \<and> ev_Data e = Some errMsg) \<and>
       (\<exists>w. tasks T' = filter (\<lambda>t. t_ID t \<noteq> i) (tasks T) @ [w] \<and> t_TaskType w = ''workflow'' \<and>
         t_WorkflowID w = wid \<and> t_RunID w = u \<and> t_TaskQueue w = we_TaskQueue x \<and>
         t_WorkflowType w = we_WorkflowType x \<and> t_LeaseOwner w = None) \<and>
       s_metrics s' = (s_metrics s)\<lparr>ActivitiesFinished := (ActivitiesFinished (s_metrics s))
         (''failed'' := ActivitiesFinished (s_metrics s) ''failed'' + 1)\<rparr>)"
proof -
  from wpD [OF wp_FailActivityTask [OF assms(1)] assms(3)] obtain t where t: "find_task i T = Some t"
    by (auto simp: T_def)
  note t' = t [unfolded T_def]
  have d: "task_seq (s_store s) + 1 \<noteq> i" using wf_task(3,4) [OF assms(2) t'] assms(2) by (auto simp: wf_store_def wf_tables_def)
  show ?thesis
  proof (cases "sint (t_Attempt t) < sint (t_MaxAttempts t)")
    case True
    from FailActivityTask_retries [OF assms(1-3) t' True] t True show ?thesis
      by (intro exI [of _ t]) (simp add: T_def T'_def retried_task_def)
  next
    case False
    from FailActivityTask_exhausts [OF assms(1,3) t' False] obtain u x where
      *: "e_uuid E rid = Some u" "find_execution wid u T = Some x" and
      c: "committed
       [new_event E s u (zero_Event\<lparr>ev_WorkflowID := wid, ev_RunID := rid,
          ev_EventID := next_event_id wid u T, ev_EventType := ''ActivityFailed'',
          ev_ActivityName := t_ActivityName t, ev_ActivityIndex := t_ActivityIndex t,
          ev_Data := Some errMsg\<rparr>),
        DeleteTask i,
        new_task E s u (replay_task x wid rid (next_event_id wid u T))] 1 1 0 s s'" and
      m: "s_metrics s' = (s_metrics s)\<lparr>ActivitiesFinished := (ActivitiesFinished (s_metrics s))
       (''failed'' := ActivitiesFinished (s_metrics s) ''failed'' + 1)\<rparr>"
      unfolding T_def by blast
    with t False d show ?thesis
      by (intro exI [of _ t])
        (auto simp: committed_def T'_def T_def new_event_def new_task_def replay_task_def zero_Event_def
          zero_Task_def is_event_of_def)
  qed
qed

theorem FailActivityTask_success_witness:
  "fst (FailActivityTask 2 ''w'' sample_run ''boom'' sample_env sample_scheduled) = Inr () \<and>
   (\<exists>t. find_task 2 (tabs (s_store sample_scheduled)) = Some t)"
proof (rule conjI)
  show r: "fst (FailActivityTask 2 ''w'' sample_run ''boom'' sample_env sample_scheduled) = Inr ()"
    by (rule sample_failure_runs)
  from FailActivityTask_success [OF sample_env_ok(1) sample_after_wf(1) ran [OF r]]
  show "\<exists>t. find_task 2 (tabs (s_store sample_scheduled)) = Some t" by blast
qed

section \<open>The delay before a retry\<close>

lemma retry_window:
  assumes "attempt = of_nat n + 1" and "n < 16" and "0 \<le> r" "r < 1"
  defines "backoff \<equiv> min (10 ^ 9 * 2 ^ n) (60 * 10 ^ 9 :: int)"
  shows "backoff div 2 \<le> retry_delay round64 DefaultRetryPolicy attempt r \<and>
    retry_delay round64 DefaultRetryPolicy attempt r \<le> backoff"
proof -
  have even: "2 * (backoff div 2) = backoff" by (simp add: backoff_def min_def)
  have "retry_backoff round64 DefaultRetryPolicy attempt = of_int (2 * (backoff div 2))"
    unfolding even using float64.default_backoff [OF assms(1,2)] by (simp only: backoff_def)
  moreover have "0 \<le> backoff" "backoff \<le> 60 * 10 ^ 9" by (auto simp: backoff_def)
  then have "0 \<le> backoff div 2" "backoff div 2 \<le> 2 ^ 52" by auto
  ultimately have "backoff div 2 \<le> retry_delay round64 DefaultRetryPolicy attempt r"
    "retry_delay round64 DefaultRetryPolicy attempt r \<le> 2 * (backoff div 2)"
    using float64.delay_bounds [OF assms(3,4)] by blast+
  with even show ?thesis by simp
qed

lemma retried_attempt:
  assumes "task_ok t" and "sint (t_Attempt t) < sint (t_MaxAttempts t)"
  obtains n where "t_Attempt t = of_nat n + 1" and "n \<le> 1"
proof -
  have "sint (3 :: i32) = 3" by simp
  with assms have "sint (t_Attempt t) = 1 \<or> sint (t_Attempt t) = 2" by (auto simp: task_ok_def)
  moreover have "w = of_int (sint w)" for w :: i32 by simp
  ultimately have "t_Attempt t = 1 \<or> t_Attempt t = 2" by (metis of_int_1 of_int_numeral)
  then show ?thesis using that [of 0] that [of 1] by auto
qed

text \<open>
  C20: the delay before a retry is bounded and doubles with the attempt. A task
  that \<open>FailActivityTask\<close> puts back on attempt \<open>n + 1\<close> becomes visible between half of
  \<open>2 ^ (n - 1)\<close> seconds and the whole of it after the clock's reading, in the default policy of one
  second, coefficient 2 and the cap of one minute, whatever the jitter's random draw and with the
  float64 arithmetic of the code.
\<close>

theorem retry_backoff_window:
  assumes "serial E" and "wf_store (e_uuid E) (s_store s)"
    and "FailActivityTask i wid rid errMsg E s = (Inr (), s')"
    and "find_task i (tabs (s_store s)) = Some t" and "sint (t_Attempt t) < sint (t_MaxAttempts t)"
    and jitter: "\<And>k. 0 \<le> e_rand E k \<and> e_rand E k < 1"
  shows "\<exists>r now d. last (tasks (tabs (s_store s'))) = r \<and> t_Attempt r = t_Attempt t + 1 \<and>
    t_VisibilityTime r = e_store_time E (now + d) \<and> now \<in> range (e_go_now E) \<and>
    10 ^ 9 * 2 ^ (nat (sint (t_Attempt t)) - 1) \<le> 2 * d \<and> d \<le> 10 ^ 9 * 2 ^ (nat (sint (t_Attempt t)) - 1)"
proof -
  obtain n where n: "t_Attempt t = of_nat n + 1" "n \<le> 1"
    using retried_attempt [OF wf_task(2) [OF assms(2,4)] assms(5)] by blast
  have "(w :: i32) = of_nat n + 1 \<Longrightarrow> sint w = int n + 1" for w using n(2) by (auto simp: le_Suc_eq)
  from this [OF n(1)] have b: "nat (sint (t_Attempt t)) - 1 = n" by simp
  have c: "min (10 ^ 9 * 2 ^ n) (60 * 10 ^ 9 :: int) = 10 ^ 9 * 2 ^ n" "2 * (10 ^ 9 * 2 ^ n div 2) = (10 ^ 9 * 2 ^ n :: int)"
    using n(2) by (auto simp: le_Suc_eq)
  from FailActivityTask_retries(4) [OF assms(1-5)] obtain j k where
    r: "last (tasks (tabs (s_store s'))) = retried_task E s t j k" by auto
  define d where "d = retry_delay round64 DefaultRetryPolicy (t_Attempt t) (e_rand E k)"
  from retry_window [OF n(1) _ conjunct1 [OF jitter] conjunct2 [OF jitter], of k] n(2)
  have "10 ^ 9 * 2 ^ n \<le> 2 * d" "d \<le> 10 ^ 9 * 2 ^ n" unfolding c(1) d_def using c(2) by linarith+
  then show ?thesis unfolding r b
    by (intro exI [of _ "retried_task E s t j k"] exI [of _ "e_go_now E j"] exI [of _ d])
      (simp add: retried_task_def d_def)
qed


theorem retry_backoff_window_witness:
  "fst (FailActivityTask 2 ''w'' sample_run ''boom'' sample_env sample_scheduled) = Inr () \<and>
   (\<exists>now d. t_VisibilityTime (last (tasks (tabs (s_store
        (snd (FailActivityTask 2 ''w'' sample_run ''boom'' sample_env sample_scheduled)))))) = now + d \<and>
      10 ^ 9 \<le> 2 * d \<and> d \<le> 10 ^ 9)"
proof (rule conjI)
  show r: "fst (FailActivityTask 2 ''w'' sample_run ''boom'' sample_env sample_scheduled) = Inr ()"
    by (rule sample_failure_runs)
  have jitter: "0 \<le> e_rand sample_env k \<and> e_rand sample_env k < 1" for k by (simp add: sample_env_def)
  have time: "e_store_time sample_env t = t" for t by (simp add: sample_env_def)
  show "\<exists>now d. t_VisibilityTime (last (tasks (tabs (s_store
        (snd (FailActivityTask 2 ''w'' sample_run ''boom'' sample_env sample_scheduled)))))) = now + d \<and>
      10 ^ 9 \<le> 2 * d \<and> d \<le> 10 ^ 9"
    using retry_backoff_window [OF sample_env_ok(1) sample_after_wf(1) ran [OF r] sample_scheduled_task _ jitter]
    unfolding time by auto
qed

end
