(* ===== verification/Atomicity.thy ===== *)
theory Atomicity
  imports History
begin

text \<open>
  Atomicity under interference: other transactions may commit before any database call of an
  operation. What the operation itself does to the committed tables happens at one point, in its
  COMMIT, or not at all; and unless the reply to the COMMIT is lost, it does not happen when an error
  is reported, and no counter moves then.
\<close>

section \<open>What others do meanwhile\<close>

text \<open>
  One step of the store that is not a write of the operation: a value drawn from a sequence, which is not
  rolled back, or a commit of others.
\<close>

definition drift_step :: "env \<Rightarrow> store \<Rightarrow> store \<Rightarrow> bool" where
  "drift_step E st st' \<longleftrightarrow> (tabs st' = tabs st \<and> event_seq st \<le> event_seq st' \<and>
     task_seq st \<le> task_seq st' \<and> timer_seq st \<le> timer_seq st') \<or> (\<exists>n. st' = e_interfere E n st)"

definition drift :: "env \<Rightarrow> store \<Rightarrow> store \<Rightarrow> bool" where
  "drift E = (drift_step E)\<^sup>*\<^sup>*"

lemma drift_refl [simp, intro]: "drift E st st"
  by (simp add: drift_def)

lemma drift_trans [trans]: "drift E st st' \<Longrightarrow> drift E st' st'' \<Longrightarrow> drift E st st''"
  by (simp add: drift_def)

lemma drift_interfere [simp, intro]: "drift E st (e_interfere E n st)"
  unfolding drift_def by (rule r_into_rtranclp) (auto simp: drift_step_def)

lemma drift_seqs:
  "tabs st' = tabs st \<Longrightarrow> event_seq st \<le> event_seq st' \<Longrightarrow> task_seq st \<le> task_seq st' \<Longrightarrow> timer_seq st \<le> timer_seq st' \<Longrightarrow>
     drift E st st'"
  unfolding drift_def by (rule r_into_rtranclp) (simp add: drift_step_def)

text \<open>Without others, only the sequences move.\<close>

lemma drift_serial:
  assumes "drift E st st'" and "serial E"
  shows "tabs st' = tabs st \<and> event_seq st \<le> event_seq st' \<and> task_seq st \<le> task_seq st' \<and> timer_seq st \<le> timer_seq st'"
  using assms(1) unfolding drift_def
  by (induction rule: rtranclp_induct) (use assms(2) in \<open>auto simp: drift_step_def serial_def\<close>)

section \<open>Computations that write nothing\<close>

definition silent :: "'a M \<Rightarrow> bool" where
  "silent m \<longleftrightarrow> (\<forall>E s. drift E (s_store s) (s_store (snd (m E s))) \<and> s_metrics (snd (m E s)) = s_metrics s)"

lemma silentD: "silent m \<Longrightarrow> m E s = (r, s') \<Longrightarrow> drift E (s_store s) (s_store s') \<and> s_metrics s' = s_metrics s"
  unfolding silent_def by (metis snd_conv)

lemma silentI:
  "(\<And>E s r s'. m E s = (r, s') \<Longrightarrow> drift E (s_store s) (s_store s') \<and> s_metrics s' = s_metrics s) \<Longrightarrow> silent m"
  unfolding silent_def by (metis prod.collapse)

lemma silent_pure [simp, intro]:
  "silent (returnM x)" "silent (raiseM e)" "silent time_Now" "silent uuid_New" "silent rand_Float64"
  by (simp_all add: silent_def returnM_def raiseM_def time_Now_def uuid_New_def rand_Float64_def)

lemma silent_wrap [intro]: "silent m \<Longrightarrow> silent (wrapM t m)"
  by (rule silentI) (auto simp: wrapM_def split: prod.splits sum.splits dest: silentD)

lemma silent_wrap_rows [intro]: "silent m \<Longrightarrow> silent (wrap_rows a b c m)"
  by (rule silentI) (auto simp: wrap_rows_def split: prod.splits sum.splits dest: silentD)

lemma silent_try [intro]: "silent m \<Longrightarrow> silent (tryM m)"
  by (rule silentI) (auto simp: tryM_def split: prod.splits dest: silentD)

lemma silent_bind [intro]:
  assumes "silent m" and "\<And>x. silent (k x)"
  shows "silent (bindM m k)"
proof (rule silentI)
  fix E s r s'
  assume b: "bindM m k E s = (r, s')"
  obtain r1 s1 where m: "m E s = (r1, s1)" by fastforce
  note m' = silentD [OF assms(1) m]
  show "drift E (s_store s) (s_store s') \<and> s_metrics s' = s_metrics s"
  proof (cases r1)
    case (Inr x)
    with b m have "k x E s1 = (r, s')" by (simp add: bindM_def)
    from silentD [OF assms(2) this] m' show ?thesis using drift_trans by auto
  qed (use b m m' in \<open>simp add: bindM_def\<close>)
qed

lemma silent_db_call [intro]:
  assumes "\<And>n. silent (body n)"
  shows "silent (db_call body)"
proof (rule silentI)
  fix E s r s'
  assume c: "db_call body E s = (r, s')"
  have i: "drift E (s_store s) (s_store (call_step E s))" "s_metrics (call_step E s) = s_metrics s"
    by (simp_all add: call_step_def)
  show "drift E (s_store s) (s_store s') \<and> s_metrics s' = s_metrics s"
  proof (cases "e_fault E (s_tick s) = NoFault")
    case True
    with c have "body (s_tick s) E (call_step E s) = (r, s')" by (simp add: db_call_def)
    from silentD [OF assms this] i show ?thesis using drift_trans by auto
  qed (use c i in \<open>auto simp: db_call_def\<close>)
qed

lemma silent_tx_call [intro]:
  assumes "\<And>n tx. silent (body n tx)"
  shows "silent (tx_call body)"
  unfolding tx_call_def
proof (rule silent_db_call, rule silentI)
  fix n E s r s'
  assume "(case s_txn s of None \<Rightarrow> (Inl (driver_error E n), s) | Some tx \<Rightarrow> body n tx E s) = (r, s')"
  then show "drift E (s_store s) (s_store s') \<and> s_metrics s' = s_metrics s"
    using silentD [OF assms] by (auto split: option.splits)
qed

lemma silent_uuid [intro]: "(\<And>u. silent (k u)) \<Longrightarrow> silent (with_uuid t n k)"
  by (rule silentI) (auto simp: with_uuid_def split: option.splits dest: silentD)

text \<open>The bodies of the statements: a read, a write to the transaction's log, a value of a sequence.\<close>

lemma silent_bodies [simp, intro]:
  "silent (\<lambda>E s. (f E s, s))"
  "silent (\<lambda>E s. (f E s, log_write (w E s) tx s))"
  "silent (\<lambda>E s. (f E s, s\<lparr>s_txn := g E s\<rparr>))"
  by (simp_all add: silent_def log_write_def)

lemma silent_nextval [simp, intro]:
  "silent (\<lambda>E s. case nextval_event s of (i, s') \<Rightarrow> (f i E s, log_write (w i E s) tx s'))"
  "silent (\<lambda>E s. case nextval_task s of (i, s') \<Rightarrow> (f i E s, log_write (w i E s) tx s'))"
  "silent (\<lambda>E s. case nextval_timer s of (i, s') \<Rightarrow> (f i E s, log_write (w i E s) tx s'))"
  by (auto simp: silent_def log_write_def nextval_event_def nextval_task_def nextval_timer_def Let_def intro: drift_seqs)

lemma silent_if [intro]:
  "silent m \<Longrightarrow> silent m' \<Longrightarrow> silent (if b then m else m')"
  "silent m \<Longrightarrow> silent m' \<Longrightarrow> silent (\<lambda>E s. if P E s then m E s else m' E s)"
  by (simp_all add: silent_def)

lemma silent_case [intro]:
  "(\<And>e. silent (f e)) \<Longrightarrow> (\<And>y. silent (g y)) \<Longrightarrow> silent (case x of Inl e \<Rightarrow> f e | Inr y \<Rightarrow> g y)"
  "silent a \<Longrightarrow> (\<And>t. silent (b t)) \<Longrightarrow> silent (case z of None \<Rightarrow> a | Some t \<Rightarrow> b t)"
  "(\<And>a b. silent (h a b)) \<Longrightarrow> silent (case p of (a, b) \<Rightarrow> h a b)"
  by (auto split: sum.splits option.splits prod.splits)

lemma silent_statements [simp, intro]:
  "silent BeginTx" "silent (InsertWorkflowExecution w)" "silent (GetWorkflowExecution wid rid)"
  "silent (GetLatestExecution wid)" "silent (UpdateWorkflowStatus wid rid st)" "silent (InsertEvent e)"
  "silent (GetEvents wid rid)" "silent (InsertTask t)" "silent (GetTask i)" "silent (CompleteTask i)"
  "silent (InsertTimer tm)" "silent GetDueTimers" "silent (MarkTimerFired i)" "silent (InsertWorkflowTaskIfNotExists t)"
  unfolding BeginTx_def InsertWorkflowExecution_def GetWorkflowExecution_def GetLatestExecution_def
    UpdateWorkflowStatus_def InsertEvent_def GetEvents_def InsertTask_def GetTask_def CompleteTask_def
    InsertTimer_def GetDueTimers_def MarkTimerFired_def InsertWorkflowTaskIfNotExists_def Let_def
  by (intro silent_wrap silent_wrap_rows silent_bind silent_db_call silent_tx_call silent_uuid silent_bodies
    silent_nextval silent_pure silent_if silent_case)+


section \<open>Computations that write at one point\<close>

text \<open>
  Between two drifts the operation's writes are applied, all of them at once; or there is one drift only,
  and no counter has moved. An error means the latter, if the replies to COMMITs arrive.
\<close>

definition acknowledged :: "env \<Rightarrow> bool" where
  "acknowledged E \<longleftrightarrow> (\<forall>n. e_fault E n \<noteq> LostReply)"

definition wrote_nothing :: "env \<Rightarrow> sess \<Rightarrow> sess \<Rightarrow> bool" where
  "wrote_nothing E s s' \<longleftrightarrow> drift E (s_store s) (s_store s') \<and> s_metrics s' = s_metrics s"

definition wrote_once :: "env \<Rightarrow> sess \<Rightarrow> sess \<Rightarrow> bool" where
  "wrote_once E s s' \<longleftrightarrow> (\<exists>st ws. drift E (s_store s) st \<and>
     drift E (st\<lparr>tabs := apply_log ws (tabs st)\<rparr>) (s_store s'))"

definition atomic :: "'a M \<Rightarrow> bool" where
  "atomic m \<longleftrightarrow> (\<forall>E s r s'. m E s = (r, s') \<longrightarrow> (case r of
       Inl err \<Rightarrow> wrote_nothing E s s' \<or> \<not> acknowledged E \<and> wrote_once E s s' \<and> s_metrics s' = s_metrics s
     | Inr x \<Rightarrow> wrote_nothing E s s' \<or> wrote_once E s s'))"

lemma atomicD:
  "atomic m \<Longrightarrow> m E s = (Inl err, s') \<Longrightarrow> wrote_nothing E s s' \<or> \<not> acknowledged E \<and> wrote_once E s s' \<and> s_metrics s' = s_metrics s"
  "atomic m \<Longrightarrow> m E s = (Inr x, s') \<Longrightarrow> wrote_nothing E s s' \<or> wrote_once E s s'"
  unfolding atomic_def by (metis sum.case(1), metis sum.case(2))

lemma atomicI:
  assumes "\<And>E s err s'. m E s = (Inl err, s') \<Longrightarrow> wrote_nothing E s s' \<or> \<not> acknowledged E \<and> wrote_once E s s' \<and> s_metrics s' = s_metrics s"
    and "\<And>E s x s'. m E s = (Inr x, s') \<Longrightarrow> wrote_nothing E s s' \<or> wrote_once E s s'"
  shows "atomic m"
  unfolding atomic_def using assms by (auto split: sum.splits)

lemma wrote_after_nothing:
  "wrote_nothing E s s1 \<Longrightarrow> wrote_nothing E s1 s' \<Longrightarrow> wrote_nothing E s s'"
  "wrote_nothing E s s1 \<Longrightarrow> wrote_once E s1 s' \<Longrightarrow> wrote_once E s s'"
  unfolding wrote_nothing_def wrote_once_def using drift_trans by (metis, metis)

lemma atomic_silent: "silent m \<Longrightarrow> atomic m"
  by (rule atomicI) (auto simp: wrote_nothing_def dest: silentD)

lemma atomic_bind:
  assumes "silent m" and "\<And>x. atomic (k x)"
  shows "atomic (bindM m k)"
proof (rule atomicI)
  fix E s err s'
  assume b: "bindM m k E s = (Inl err, s')"
  obtain r1 s1 where m: "m E s = (r1, s1)" by fastforce
  with silentD [OF assms(1) m] have q: "wrote_nothing E s s1" by (simp add: wrote_nothing_def)
  show "wrote_nothing E s s' \<or> \<not> acknowledged E \<and> wrote_once E s s' \<and> s_metrics s' = s_metrics s"
  proof (cases r1)
    case (Inr x)
    with b m have "k x E s1 = (Inl err, s')" by (simp add: bindM_def)
    from atomicD(1) [OF assms(2) this] q wrote_after_nothing [OF q] show ?thesis by (auto simp: wrote_nothing_def)
  qed (use b m q in \<open>simp add: bindM_def\<close>)
next
  fix E s y s'
  assume b: "bindM m k E s = (Inr y, s')"
  then obtain x s1 where m: "m E s = (Inr x, s1)" "k x E s1 = (Inr y, s')"
    by (auto simp: bindM_def split: prod.splits sum.splits)
  from silentD [OF assms(1) m(1)] have q: "wrote_nothing E s s1" by (simp add: wrote_nothing_def)
  from atomicD(2) [OF assms(2) m(2)] wrote_after_nothing [OF q] show "wrote_nothing E s s' \<or> wrote_once E s s'" by blast
qed

text \<open>A COMMIT, and what may follow it: nothing that fails or touches the store.\<close>

definition settles :: "'a M \<Rightarrow> bool" where
  "settles m \<longleftrightarrow> (\<forall>E s. \<exists>x s'. m E s = (Inr x, s') \<and> s_store s' = s_store s)"

lemma settles_simps [simp, intro]:
  "settles (returnM x)" "settles (metricM f)"
  by (simp_all add: settles_def returnM_def metricM_def)

lemma settles_bind [intro]: "settles m \<Longrightarrow> (\<And>x. settles (k x)) \<Longrightarrow> settles (bindM m k)"
  unfolding settles_def bindM_def by (metis (no_types, lifting) prod.case sum.case(2))

lemma Commit_outcome:
  assumes "Commit E s = (r, s')"
  shows "s_metrics s' = s_metrics s \<and> (case r of
      Inl err \<Rightarrow> wrote_nothing E s s' \<or> \<not> acknowledged E \<and> wrote_once E s s'
    | Inr u \<Rightarrow> wrote_once E s s')"
proof -
  let ?s1 = "call_step E s"
  have d: "drift E (s_store s) (s_store ?s1)" and m: "s_metrics ?s1 = s_metrics s" by (simp_all add: call_step_def)
  have once: "wrote_once E s (?s1\<lparr>s_store := (s_store ?s1)\<lparr>tabs := tx_view tx ?s1\<rparr>, s_txn := None\<rparr>)" for tx
    unfolding wrote_once_def tx_view_def by (intro exI [of _ "s_store ?s1"] exI [of _ "tx_log tx"]) (simp add: d)
  have none: "wrote_nothing E s ?s1" "wrote_nothing E s (?s1\<lparr>s_txn := None\<rparr>)" using d m by (simp_all add: wrote_nothing_def)
  show ?thesis
  proof (cases "s_txn ?s1")
    case None
    with assms none m show ?thesis by (auto simp: Commit_def Let_def)
  next
    case (Some tx)
    with assms none once [of tx] m show ?thesis
      by (cases "e_fault E (s_tick s)") (auto simp: Commit_def Let_def acknowledged_def)
  qed
qed

lemma atomic_Commit: "atomic Commit"
  by (rule atomicI) (auto dest: Commit_outcome)

lemma wrap_Inl: "wrapM t m E s = (Inl err, s') \<longleftrightarrow> (\<exists>e. err = Errorf t e \<and> m E s = (Inl e, s'))"
  and wrap_Inr: "wrapM t m E s = (Inr x, s') \<longleftrightarrow> m E s = (Inr x, s')"
  by (auto simp: wrapM_def split: prod.splits sum.splits)

lemma atomic_wrap: "atomic m \<Longrightarrow> atomic (wrapM t m)"
  by (rule atomicI) (auto simp: wrap_Inl wrap_Inr dest: atomicD)

lemma atomic_Commit_then:
  assumes "\<And>x. settles (k x)"
  shows "atomic (bindM (wrapM t Commit) k)"
proof (rule atomicI)
  fix E s err s'
  assume "bindM (wrapM t Commit) k E s = (Inl err, s')"
  then have "wrapM t Commit E s = (Inl err, s')"
    using assms unfolding settles_def bindM_def by (auto split: prod.splits sum.splits) (metis Inl_Inr_False prod.inject)+
  with atomicD(1) [OF atomic_wrap [OF atomic_Commit]]
  show "wrote_nothing E s s' \<or> \<not> acknowledged E \<and> wrote_once E s s' \<and> s_metrics s' = s_metrics s" by blast
next
  fix E s x s'
  assume "bindM (wrapM t Commit) k E s = (Inr x, s')"
  then obtain u s1 where c: "Commit E s = (Inr u, s1)" "k u E s1 = (Inr x, s')"
    by (auto simp: bindM_def wrap_Inr split: prod.splits sum.splits)
  with assms [of u] have "s_store s' = s_store s1" unfolding settles_def by (metis prod.inject)
  with Commit_outcome [OF c(1)] show "wrote_nothing E s s' \<or> wrote_once E s s'" by (simp add: wrote_once_def)
qed

lemma atomic_deferring: "atomic m \<Longrightarrow> atomic (deferring_Rollback m)"
proof (rule atomicI)
  fix E s err s' assume a: "atomic m" "deferring_Rollback m E s = (Inl err, s')"
  then obtain s1 where "m E s = (Inl err, s1)" "s' = s1\<lparr>s_txn := None\<rparr>" by (auto simp: deferring_Rollback_def split: prod.splits)
  with atomicD(1) [OF a(1)] show "wrote_nothing E s s' \<or> \<not> acknowledged E \<and> wrote_once E s s' \<and> s_metrics s' = s_metrics s"
    by (fastforce simp: wrote_nothing_def wrote_once_def)
next
  fix E s x s' assume a: "atomic m" "deferring_Rollback m E s = (Inr x, s')"
  then obtain s1 where "m E s = (Inr x, s1)" "s' = s1\<lparr>s_txn := None\<rparr>" by (auto simp: deferring_Rollback_def split: prod.splits)
  with atomicD(2) [OF a(1)] show "wrote_nothing E s s' \<or> wrote_once E s s'"
    by (fastforce simp: wrote_nothing_def wrote_once_def)
qed

lemma atomic_in_tx: "atomic m \<Longrightarrow> atomic (in_tx m)"
  unfolding in_tx_def by (intro atomic_bind atomic_deferring silent_wrap silent_statements)

lemma atomic_if: "atomic m \<Longrightarrow> atomic m' \<Longrightarrow> atomic (if b then m else m')"
  by simp

lemma atomic_case:
  "atomic a \<Longrightarrow> (\<And>t. atomic (b t)) \<Longrightarrow> atomic (case z of None \<Rightarrow> a | Some t \<Rightarrow> b t)"
  "(\<And>a b. atomic (h a b)) \<Longrightarrow> atomic (case p of (a, b) \<Rightarrow> h a b)"
  by (auto split: option.splits prod.splits)

section \<open>The operations\<close>

lemma silent_apply_commands: "silent (apply_commands x wid rid cs st)"
proof (induction cs arbitrary: st)
  case (Cons c cs)
  have "silent (apply_command x wid rid c st)"
    unfolding apply_command_def by (intro silent_case silent_if silent_bind silent_wrap silent_statements silent_pure)
  with Cons show ?case by (simp add: silent_bind)
qed simp

lemma silent_fire_timers: "silent (fire_timers ts)"
proof (induction ts)
  case (Cons t ts)
  have "silent (fire_timer t)" unfolding fire_timer_def Let_def by (intro silent_bind silent_wrap silent_statements)
  with Cons show ?case by (simp add: silent_bind)
qed simp

lemmas atomic_rules = atomic_in_tx atomic_Commit_then atomic_Commit atomic_if atomic_case atomic_bind
lemmas silent_rules = silent_bind silent_wrap silent_statements silent_pure silent_if silent_case silent_try
  silent_apply_commands silent_fire_timers

lemma atomic_signal_run: "atomic (signal_run wid rid name input)"
  unfolding signal_run_def Let_def
  by (intro atomic_in_tx atomic_bind atomic_if atomic_Commit_then atomic_silent silent_rules settles_simps)

lemma atomic_operations:
  "atomic (StartWorkflow wid ty q input)"
  "atomic (CompleteWorkflowTask i wid rid cs)"
  "atomic (CompleteActivityTask i wid rid result)"
  "atomic (FailActivityTask i wid rid msg)"
  "atomic ScanTimers"
  "atomic (SignalWorkflow wid rid name input)"
  "atomic (PollTask q ty owner)"
  unfolding StartWorkflow_def CompleteWorkflowTask_def CompleteActivityTask_def FailActivityTask_def ScanTimers_def
    SignalWorkflow_def PollTask_def netxtRetryDelay_def Let_def
  by (intro atomic_in_tx atomic_Commit_then atomic_Commit atomic_if atomic_case atomic_signal_run atomic_bind
    silent_rules settles_simps settles_bind silent_tx_call silent_bodies atomic_silent)+

text \<open>The one statement that commits by itself.\<close>

lemma atomic_ReclaimExpiredLeases: "atomic ReclaimExpiredLeases"
proof (rule atomicI)
  have once: "wrote_once E s (call_step E s\<lparr>s_store := (s_store (call_step E s))\<lparr>tabs :=
      apply_write (ReclaimLeases now) (tabs (s_store (call_step E s)))\<rparr>\<rparr>)" for E s now
    unfolding wrote_once_def by (intro exI [of _ "s_store (call_step E s)"] exI [of _ "[ReclaimLeases now]"])
      (simp add: call_step_def apply_log_def)
  have none: "wrote_nothing E s (call_step E s)" for E s by (simp add: wrote_nothing_def call_step_def)
  show "wrote_nothing E s s' \<or> \<not> acknowledged E \<and> wrote_once E s s' \<and> s_metrics s' = s_metrics s"
    if "ReclaimExpiredLeases E s = (Inl err, s')" for E s err s'
    using that once none
    by (cases "e_fault E (s_tick s)") (auto simp: ReclaimExpiredLeases_def Let_def acknowledged_def call_step_def)
  show "wrote_nothing E s s' \<or> wrote_once E s s'" if "ReclaimExpiredLeases E s = (Inr x, s')" for E s x s'
    using that once none by (cases "e_fault E (s_tick s)") (auto simp: ReclaimExpiredLeases_def Let_def)
qed

end
