(* ===== verification/Rollback.thy ===== *)
theory Rollback
  imports WellFormed Atomicity
begin

text \<open>
  Rollback: as long as the reply to a COMMIT is not lost, an operation of \<open>history\<close> that reports an
  error has committed nothing. This is atomicity for an operation that nobody interferes with.
\<close>

definition rolls_back :: "'a M \<Rightarrow> bool" where
  "rolls_back m \<longleftrightarrow> (\<forall>E s. serial E \<and> acknowledged E \<longrightarrow> wp m E s (\<lambda>_ _. True) (\<lambda>_. quiet s))"

lemma wrote_nothing_quiet: "wrote_nothing E s s' \<Longrightarrow> serial E \<Longrightarrow> quiet s s'"
  by (auto simp: wrote_nothing_def quiet_def seqs_le_def dest: drift_serial)

lemma atomic_rolls_back: "atomic m \<Longrightarrow> rolls_back m"
  unfolding rolls_back_def wp_def
  by (auto split: prod.splits sum.splits intro: wrote_nothing_quiet dest: atomicD(1))

lemmas operations_roll_back = atomic_operations [THEN atomic_rolls_back] atomic_signal_run [THEN atomic_rolls_back]
lemmas StartWorkflow_rolls_back = operations_roll_back(1)
  and CompleteWorkflowTask_rolls_back = operations_roll_back(2)
  and CompleteActivityTask_rolls_back = operations_roll_back(3)
  and FailActivityTask_rolls_back = operations_roll_back(4)
  and ScanTimers_rolls_back = operations_roll_back(5)
  and SignalWorkflow_rolls_back = operations_roll_back(6)

end
