(* ===== verification/TaskProperties.thy ===== *)
theory TaskProperties
  imports Samples Rollback
begin

text \<open>
  Timers, signals, the task queue (polling and lease reclaim), and what an error leaves behind.
\<close>

section \<open>Timers\<close>

text \<open>
  C37: a successful scan has taken unfired timers that are due at the start of its
  transaction and not locked by another one: all of them, or 100 if there are more. In one commit
  it has, for each of them, appended \<open>TimerFired\<close> with its index, put one workflow task for its
  run, and marked it fired; every other timer is untouched.
\<close>

theorem ScanTimers_success:
  assumes "serial E" and "wf_store (e_uuid E) (s_store s)" and "ScanTimers E s = (Inr (), s')"
  defines "T \<equiv> tabs (s_store s)" and "T' \<equiv> tabs (s_store s')"
  shows "\<exists>tms n. let due = filter (\<lambda>t. timer_due (e_db_now E (s_tick s)) t \<and> \<not> e_row_locked E n (tm_ID t)) (timers T) in
    set tms \<subseteq> set due \<and> length tms = min 100 (length due) \<and> distinct tms \<and>
    executions T' = executions T \<and> timers T' = map (mark_fired (tm_ID ` set tms)) (timers T) \<and>
    (\<exists>es. events T' = events T @ es \<and> list_all2 (fired_event T) es tms) \<and>
    (\<exists>ws. tasks T' = tasks T @ ws \<and> list_all2 (\<lambda>w t. wakes w (tm_WorkflowID t) (tm_RunID t)) ws tms) \<and>
    s_metrics s' = (s_metrics s)\<lparr>TimersFired := TimersFired (s_metrics s) + length tms\<rparr>"
proof -
  from wpD [OF wp_ScanTimers [OF assms(1)] assms(3)] obtain tms where
    eff: "ScanTimers_effect E s tms s'" and
    m: "s_metrics s' = (s_metrics s)\<lparr>TimersFired := TimersFired (s_metrics s) + length tms\<rparr>" by auto
  from eff obtain ws where due: "due_timers E s tms"
    and f: "fired_log E T (begin_now E s) (event_seq (s_store s)) (task_seq (s_store s)) tms ws"
    and c: "T' = apply_log ws T"
    unfolding ScanTimers_effect_def T_def T'_def committed_def by blast
  have "\<forall>t \<in> set tms. e_uuid E (tm_RunID t) = Some (tm_RunID t)"
    using due_timers_select(1) [OF due] wf_timers [OF assms(2)] by blast
  note tables = fired_log_tables [OF f this]
  from due obtain n where sel: "tms = select_due (e_row_rank E n) (e_row_locked E n) (begin_now E s) T"
    by (auto simp: due_timers_def T_def)
  have "distinct tms" using due_timers_distinct [OF _ due] assms(2)
    by (simp add: wf_store_def wf_tables_def distinct_map)
  moreover have "set tms \<subseteq> set (filter (\<lambda>t. timer_due (e_db_now E (s_tick s)) t \<and> \<not> e_row_locked E n (tm_ID t)) (timers T))"
    using sel by (auto simp: select_due_def begin_now_def dest!: in_set_takeD)
  moreover have "length tms = min 100 (length (filter (\<lambda>t. timer_due (e_db_now E (s_tick s)) t \<and> \<not> e_row_locked E n (tm_ID t)) (timers T)))"
    using sel by (simp add: select_due_def begin_now_def min.commute)
  ultimately show ?thesis using tables m c
    by (intro exI [of _ tms] exI [of _ n]) (auto simp: events_apply_log Let_def)
qed

theorem ScanTimers_success_witness:
  "fst (ScanTimers (late_env (10 ^ 10)) sample_sleeping) = Inr () \<and>
   (\<exists>tms :: Timer list. length tms = 1 \<and> timers (tabs (s_store (snd (ScanTimers (late_env (10 ^ 10)) sample_sleeping)))) =
      map (mark_fired (tm_ID ` set tms)) (timers (tabs (s_store sample_sleeping))))"
proof (rule conjI)
  show r: "fst (ScanTimers (late_env (10 ^ 10)) sample_sleeping) = Inr ()" by code_simp
  have wf: "wf_store (e_uuid (late_env (10 ^ 10))) (s_store sample_sleeping)" by (simp add: sample_after_wf)
  have l: "e_row_locked (late_env (10 ^ 10)) = (\<lambda>_ _. False)" by (simp add: late_env_def sample_env_def)
  have n: "length (filter (\<lambda>t. timer_due (e_db_now (late_env (10 ^ 10)) (s_tick sample_sleeping)) t) (timers (tabs (s_store sample_sleeping)))) = 1"
    by code_simp
  from ScanTimers_success [OF sample_env_ok(5) wf ran [OF r]] n
  show "\<exists>tms :: Timer list. length tms = 1 \<and> timers (tabs (s_store (snd (ScanTimers (late_env (10 ^ 10)) sample_sleeping)))) =
      map (mark_fired (tm_ID ` set tms)) (timers (tabs (s_store sample_sleeping)))"
    unfolding l Let_def by auto
qed

section \<open>Signals\<close>

text \<open>
  C36: a successful signal has reached a running execution (the one named, or
  the latest of the workflow ID when no run is named) and, in one commit, appended
  \<open>SignalReceived\<close> with the next event ID, the name and the data; it has put a workflow task for
  the run exactly when the run had none, leased or not.
\<close>

theorem SignalWorkflow_success:
  assumes "serial E" and "SignalWorkflow wid rid0 name input E s = (Inr (), s')"
  defines "T \<equiv> tabs (s_store s)" and "T' \<equiv> tabs (s_store s')"
  shows "\<exists>rid u x. signal_target E s wid rid0 rid \<and> e_uuid E rid = Some u \<and> find_execution wid u T = Some x \<and>
    we_Status x = ''Running'' \<and> executions T' = executions T \<and> timers T' = timers T \<and>
    (\<exists>e. events T' = events T @ [e] \<and> is_event_of wid u e \<and> ev_EventID e = next_event_id wid u T \<and>
      ev_EventType e = ''SignalReceived'' \<and> ev_SignalName e = name \<and>
      ev_Data e = Some (case input of None \<Rightarrow> [] | Some d \<Rightarrow> d)) \<and>
    (if has_workflow_task wid u T then tasks T' = tasks T
     else \<exists>w. tasks T' = tasks T @ [w] \<and> wakes w wid u) \<and>
    s_metrics s' = (s_metrics s)\<lparr>SignalsDelivered := SignalsDelivered (s_metrics s) + 1\<rparr>"
proof -
  from wpD [OF wp_SignalWorkflow [OF assms(1)] assms(2)] obtain rid where
    target: "signal_target E s wid rid0 rid" and eff: "SignalWorkflow_effect E s wid rid name input s'" and
    m: "s_metrics s' = (s_metrics s)\<lparr>SignalsDelivered := SignalsDelivered (s_metrics s) + 1\<rparr>" by auto
  from eff obtain u x now where x: "e_uuid E rid = Some u" "find_execution wid u T = Some x" "we_Status x = ''Running''"
    and c: "if has_workflow_task wid u T
        then committed [signal_event s wid rid name input u now] 1 0 0 s s'
        else committed [signal_event s wid rid name input u now,
               InsertTaskRow (wakeup_row (replay_task x wid rid (next_event_id wid u T))
                  (task_seq (s_store s) + 1) u now)] 1 1 0 s s'"
    unfolding SignalWorkflow_effect_def T_def by blast
  show ?thesis
    using target x c m by (intro exI [of _ rid] exI [of _ u] exI [of _ x])
      (auto simp: committed_def T_def T'_def signal_event_def zero_Event_def is_event_of_def wakes_def split: if_splits)
qed

theorem SignalWorkflow_success_witness:
  "fst (SignalWorkflow ''w'' '''' ''go'' None sample_env sample_started) = Inr () \<and>
   (\<exists>rid. signal_target sample_env sample_started ''w'' '''' rid)"
proof (rule conjI)
  show r: "fst (SignalWorkflow ''w'' '''' ''go'' None sample_env sample_started) = Inr ()" by code_simp
  from SignalWorkflow_success [OF sample_env_ok(1) ran [OF r]]
  show "\<exists>rid. signal_target sample_env sample_started ''w'' '''' rid" by blast
qed

section \<open>The task queue\<close>

lemma PollTask_row:
  assumes "serial E" and "wf_store (e_uuid E) (s_store s)" and "PollTask q ty owner E s = (Inr r, s')"
  defines "T \<equiv> tabs (s_store s)" and "T' \<equiv> tabs (s_store s')" and "now \<equiv> e_db_now E (s_tick s)"
  shows "\<exists>n. let locked = e_row_locked E n in (case r of
      None \<Rightarrow> T' = T \<and> (\<forall>t \<in> set (tasks T). pollable q ty now t \<longrightarrow> locked (t_ID t))
    | Some t \<Rightarrow> t \<in> set (tasks T) \<and> pollable q ty now t \<and> \<not> locked (t_ID t) \<and>
        (\<forall>t' \<in> set (tasks T). pollable q ty now t' \<and> \<not> locked (t_ID t') \<longrightarrow> t_ID t \<le> t_ID t') \<and>
        T' = T\<lparr>tasks := map (\<lambda>t'. if t' = t then t\<lparr>t_LeaseOwner := Some owner,
                 t_LeaseExpiresAt := Some (now + 30 * 10 ^ 9)\<rparr> else t') (tasks T)\<rparr>)"
proof (cases r)
  case None
  with wpD [OF wp_PollTask [OF assms(1)] assms(3)] show ?thesis
    by (auto simp: T_def T'_def now_def quiet_def select_pollable_None Let_def)
next
  case (Some t)
  with wpD [OF wp_PollTask [OF assms(1)] assms(3)] obtain n where
    sel: "select_pollable (e_row_locked E n) q ty now T = Some t" and
    c: "T' = apply_write (SetLease (t_ID t) owner (now + lease_interval)) T"
    by (auto simp: PollTask_effect_def committed_def T_def T'_def now_def)
  note t = select_pollable_Some [OF sel]
  have "distinct (map t_ID (tasks T))" using assms(2) by (simp add: wf_store_def wf_tables_def T_def)
  then have "\<And>t'. t' \<in> set (tasks T) \<Longrightarrow> t_ID t' = t_ID t \<longleftrightarrow> t' = t" using distinct_map_eqD t(1) by metis
  then have "map (\<lambda>t'. if t_ID t' = t_ID t then t'\<lparr>t_LeaseOwner := Some owner,
        t_LeaseExpiresAt := Some (now + lease_interval)\<rparr> else t') (tasks T) =
      map (\<lambda>t'. if t' = t then t\<lparr>t_LeaseOwner := Some owner,
        t_LeaseExpiresAt := Some (now + 30 * 10 ^ 9)\<rparr> else t') (tasks T)"
    by (intro map_cong) (auto simp: lease_interval_def)
  with t c Some show ?thesis by (intro exI [of _ n]) (simp add: Let_def)
qed

text \<open>
  C38: a poll that returns a task returns one of the queue and type asked for that
  was visible and not leased, with the lowest ID among those no other transaction has locked, and
  has leased that row, and no other, to the caller until 30 seconds after the transaction began;
  a poll that returns none has changed no table.
\<close>

theorem PollTask_success:
  assumes "serial E" and "wf_store (e_uuid E) (s_store s)" and "PollTask q ty owner E s = (Inr r, s')"
  defines "T \<equiv> tabs (s_store s)" and "T' \<equiv> tabs (s_store s')" and "now \<equiv> e_db_now E (s_tick s)"
  shows "\<exists>n. let locked = e_row_locked E n in (case r of
      None \<Rightarrow> T' = T \<and> (\<forall>t \<in> set (tasks T). pollable q ty now t \<longrightarrow> locked (t_ID t))
    | Some t \<Rightarrow> t \<in> set (tasks T) \<and> pollable q ty now t \<and> \<not> locked (t_ID t) \<and>
        (\<forall>t' \<in> set (tasks T). pollable q ty now t' \<and> \<not> locked (t_ID t') \<longrightarrow> t_ID t \<le> t_ID t') \<and>
        T' = T\<lparr>tasks := map (\<lambda>t'. if t' = t then t\<lparr>t_LeaseOwner := Some owner,
                 t_LeaseExpiresAt := Some (now + 30 * 10 ^ 9)\<rparr> else t') (tasks T)\<rparr>)"
  using PollTask_row [OF assms(1-3)] unfolding T_def T'_def now_def .

theorem PollTask_success_witness:
  "map_sum id (map_option t_ID) (fst (PollTask ''q'' ''workflow'' ''me'' sample_env sample_started)) = Inr (Some 1) \<and>
   (\<exists>t \<in> set (tasks (tabs (s_store sample_started))). pollable ''q'' ''workflow'' 1006 t)"
proof -
  obtain r where r: "fst (PollTask ''q'' ''workflow'' ''me'' sample_env sample_started) = Inr r"
    and i: "map_option t_ID r = Some 1"
  proof -
    have "map_sum id (map_option t_ID) (fst (PollTask ''q'' ''workflow'' ''me'' sample_env sample_started)) = Inr (Some 1)"
      by code_simp
    with that show ?thesis by (cases "fst (PollTask ''q'' ''workflow'' ''me'' sample_env sample_started)") auto
  qed
  have "e_db_now sample_env (s_tick sample_started) = 1006" by code_simp
  with PollTask_success [OF sample_env_ok(1) sample_wf ran [OF r]] r i show ?thesis by (cases r) (auto simp: Let_def)
qed

text \<open>
  A reclaim clears the lease of exactly the tasks whose lease
  expired before now and reports their number; afterwards no lease is expired at that time, and
  each of those tasks can be polled again if it is visible.
\<close>

lemma ReclaimExpiredLeases_success:
  assumes "serial E" and "ReclaimExpiredLeases E s = (Inr n, s')"
  defines "T \<equiv> tabs (s_store s)" and "T' \<equiv> tabs (s_store s')" and "now \<equiv> e_db_now E (s_tick s)"
  shows "T' = T\<lparr>tasks := map (\<lambda>t. if expired now t
           then t\<lparr>t_LeaseOwner := None, t_LeaseExpiresAt := None\<rparr> else t) (tasks T)\<rparr> \<and>
    n = int (length (filter (expired now) (tasks T))) \<and> (\<forall>t \<in> set (tasks T'). \<not> expired now t) \<and>
    (\<forall>t \<in> set (tasks T). expired now t \<and> t_VisibilityTime t \<le> now \<longrightarrow>
      (\<exists>t' \<in> set (tasks T'). t_ID t' = t_ID t \<and> pollable (t_TaskQueue t) (t_TaskType t) now t'))"
proof -
  from wpD [OF wp_ReclaimExpiredLeases [OF assms(1)] assms(2)]
  have n: "n = int (length (filter (expired now) (tasks T)))" and
    T': "T' = T\<lparr>tasks := map (\<lambda>t. if expired now t then release_lease t else t) (tasks T)\<rparr>"
    by (simp_all add: T_def T'_def now_def)
  have "\<not> expired now (release_lease t)" for t by (simp add: expired_def release_lease_def)
  moreover have "pollable (t_TaskQueue t) (t_TaskType t) now (release_lease t)" if "t_VisibilityTime t \<le> now" for t
    using that by (simp add: pollable_def release_lease_def)
  moreover have "\<exists>t' \<in> set (tasks T'). t_ID t' = t_ID t \<and> pollable (t_TaskQueue t) (t_TaskType t) now t'"
    if "t \<in> set (tasks T)" "expired now t" "t_VisibilityTime t \<le> now" for t
    using that calculation(2) by (intro bexI [of _ "release_lease t"]) (auto simp: T')
  ultimately show ?thesis using n T' by (auto simp: release_lease_def)
qed

section \<open>Errors\<close>

text \<open>One run of an operation, others committing before any of its calls (see \<open>Atomicity\<close>).\<close>

definition all_or_nothing :: "env \<Rightarrow> sess \<Rightarrow> 'a M \<Rightarrow> bool" where
  "all_or_nothing E s m \<longleftrightarrow> (case m E s of
     (Inl err, s') \<Rightarrow> wrote_nothing E s s' \<or> \<not> acknowledged E \<and> wrote_once E s s' \<and> s_metrics s' = s_metrics s
   | (Inr x, s') \<Rightarrow> wrote_nothing E s s' \<or> wrote_once E s s')"

definition unchanged_on_error :: "env \<Rightarrow> sess \<Rightarrow> 'a M \<Rightarrow> bool" where
  "unchanged_on_error E s m \<longleftrightarrow> (\<forall>err s'. m E s = (Inl err, s') \<longrightarrow>
     tabs (s_store s') = tabs (s_store s) \<and> s_metrics s' = s_metrics s)"

lemma atomic_all_or_nothing: "atomic m \<Longrightarrow> all_or_nothing E s m"
  unfolding all_or_nothing_def by (auto split: prod.splits sum.splits dest: atomicD)

lemma atomic_unchanged: "atomic m \<Longrightarrow> serial E \<Longrightarrow> acknowledged E \<Longrightarrow> unchanged_on_error E s m"
  unfolding unchanged_on_error_def by (auto dest!: atomicD(1) simp: wrote_nothing_def dest: drift_serial)

text \<open>
  C16: whatever other transactions commit between the calls of an operation of
  \<open>history\<close>, and at whatever call it fails, its own writes are in the tables all at once, applied to what
  was committed at that point, or none of them are. If it reports an error, no counter has moved, and
  none of its writes are there unless the reply to a COMMIT was lost. So, without others and with every
  reply arriving, an error has left all four tables and every counter as they were.
\<close>

theorem errors_roll_back:
  "all_or_nothing E s (StartWorkflow wid wtype q input) \<and>
   all_or_nothing E s (CompleteWorkflowTask i wid rid cs) \<and>
   all_or_nothing E s (CompleteActivityTask i wid rid input) \<and>
   all_or_nothing E s (FailActivityTask i wid rid msg) \<and>
   all_or_nothing E s ScanTimers \<and>
   all_or_nothing E s (SignalWorkflow wid rid name input) \<and>
   all_or_nothing E s (PollTask q ty owner) \<and>
   all_or_nothing E s ReclaimExpiredLeases \<and>
   (serial E \<and> acknowledged E \<longrightarrow>
     unchanged_on_error E s (StartWorkflow wid wtype q input) \<and>
     unchanged_on_error E s (CompleteWorkflowTask i wid rid cs) \<and>
     unchanged_on_error E s (CompleteActivityTask i wid rid input) \<and>
     unchanged_on_error E s (FailActivityTask i wid rid msg) \<and>
     unchanged_on_error E s ScanTimers \<and>
     unchanged_on_error E s (SignalWorkflow wid rid name input) \<and>
     unchanged_on_error E s (PollTask q ty owner) \<and>
     unchanged_on_error E s ReclaimExpiredLeases)"
  by (intro conjI impI atomic_all_or_nothing atomic_unchanged atomic_operations atomic_ReclaimExpiredLeases) simp_all

theorem errors_roll_back_witness:
  "(\<exists>err. fst (CompleteWorkflowTask 1 ''w'' sample_run [schedule ''A'' 0] (failing_env Fault 11) sample_started) = Inl err) \<and>
   tabs (s_store (snd (CompleteWorkflowTask 1 ''w'' sample_run [schedule ''A'' 0] (failing_env Fault 11) sample_started))) =
     tabs (s_store sample_started)"
proof -
  have ack: "acknowledged (failing_env Fault 11)" by (simp add: acknowledged_def failing_env_def)
  have "\<not> isl (map_sum id id (fst (CompleteWorkflowTask 1 ''w'' sample_run [schedule ''A'' 0] (failing_env Fault 11) sample_started))) \<longrightarrow> False"
    by code_simp
  then obtain err where err: "fst (CompleteWorkflowTask 1 ''w'' sample_run [schedule ''A'' 0] (failing_env Fault 11) sample_started) = Inl err"
    by (cases "fst (CompleteWorkflowTask 1 ''w'' sample_run [schedule ''A'' 0] (failing_env Fault 11) sample_started)") auto
  have "unchanged_on_error (failing_env Fault 11) sample_started (CompleteWorkflowTask 1 ''w'' sample_run [schedule ''A'' 0])"
    using errors_roll_back [of "failing_env Fault 11" sample_started] sample_env_ok(3) ack by blast
  with ran [OF err] have "tabs (s_store (snd (CompleteWorkflowTask 1 ''w'' sample_run [schedule ''A'' 0] (failing_env Fault 11) sample_started))) =
     tabs (s_store sample_started)" unfolding unchanged_on_error_def by blast
  with err show ?thesis by blast
qed

end
