(* ===== verification/Direct.thy ===== *)
theory Direct
  imports Replay
begin

text \<open>
  The reference for replay: a workflow function that runs straight through, once, in a world where
  activity results, timers and signals are simply there. The worker instead runs it again and again over
  a history that grows; the lemmas show that this makes no difference to how it ends.
\<close>

section \<open>Running straight through\<close>

text \<open>What the world answers: the result of call \<open>i\<close> of an activity, signal \<open>k\<close> of a name.\<close>

record 'v world =
  w_result :: "string \<Rightarrow> nat \<Rightarrow> 'v option \<Rightarrow> string option \<times> 'v option"
  w_signal :: "string \<Rightarrow> nat \<Rightarrow> 'v option \<Rightarrow> 'v option"

text \<open>\<open>a\<close> activities were called and \<open>\<sigma>\<close> signals received before.\<close>

primrec direct :: "'v world \<Rightarrow> 'v wf \<Rightarrow> nat \<Rightarrow> (string \<Rightarrow> nat) \<Rightarrow> outcome" where
  "direct W (Return err) a \<sigma> = Returned err"
| "direct W (Panic r) a \<sigma> = Panicked r"
| "direct W (CallActivity name input k) a \<sigma> = direct W (k \<lparr>f_activityName = name, f_callIndex = a\<rparr>) (a + 1) \<sigma>"
| "direct W (CallGet f out k) a \<sigma> = direct W (k (w_result W (f_activityName f) (f_callIndex f) out)) a \<sigma>"
| "direct W (CallSleep d w) a \<sigma> = direct W w a \<sigma>"
| "direct W (CallReceive name out k) a \<sigma> = direct W (k (w_signal W name (\<sigma> name) out)) a (\<sigma>(name := \<sigma> name + 1))"

text \<open>What the run waits for, in its order; \<open>t\<close> timers were started before.\<close>

datatype need = NeedResult string nat | NeedTimer nat | NeedSignal string nat

primrec needs :: "'v world \<Rightarrow> 'v wf \<Rightarrow> nat \<Rightarrow> nat \<Rightarrow> (string \<Rightarrow> nat) \<Rightarrow> need list" where
  "needs W (Return err) a t \<sigma> = []"
| "needs W (Panic r) a t \<sigma> = []"
| "needs W (CallActivity name input k) a t \<sigma> = needs W (k \<lparr>f_activityName = name, f_callIndex = a\<rparr>) (a + 1) t \<sigma>"
| "needs W (CallGet f out k) a t \<sigma> = NeedResult (f_activityName f) (f_callIndex f) #
     needs W (k (w_result W (f_activityName f) (f_callIndex f) out)) a t \<sigma>"
| "needs W (CallSleep d w) a t \<sigma> = NeedTimer t # needs W w a (t + 1) \<sigma>"
| "needs W (CallReceive name out k) a t \<sigma> = NeedSignal name (\<sigma> name) #
     needs W (k (w_signal W name (\<sigma> name) out)) a t (\<sigma>(name := \<sigma> name + 1))"

section \<open>The world a history records\<close>

fun available :: "HistoryEvent list \<Rightarrow> need \<Rightarrow> bool" where
  "available h (NeedResult name i) = list_ex (resolves name i) h"
| "available h (NeedTimer i) = list_ex (is_timer_event ''TimerFired'' i) h"
| "available h (NeedSignal name k) = (k < length (filter (is_signal name) h))"

definition signal_value :: "'v json \<Rightarrow> HistoryEvent \<Rightarrow> 'v option \<Rightarrow> 'v option" where
  "signal_value js e out = map_option (\<lambda>v. snd (json_Unmarshal js (case he_Data e of None \<Rightarrow> [] | Some d \<Rightarrow> d) v)) out"

definition recorded_world :: "'v json \<Rightarrow> HistoryEvent list \<Rightarrow> 'v world" where
  "recorded_world js h = \<lparr>
     w_result = (\<lambda>name i out. case List.find (resolves name i) h of None \<Rightarrow> (None, out) | Some e \<Rightarrow> resolution js out e),
     w_signal = (\<lambda>name k out. let es = filter (is_signal name) h in
       if k < length es then signal_value js (es ! k) out else out)\<rparr>"

text \<open>What a history has, every longer one has with the same value.\<close>

lemma Get_recorded:
  assumes "wc_history c = h"
  shows "Get js c f out = (if available h (NeedResult (f_activityName f) (f_callIndex f))
     then Some (w_result (recorded_world js (h @ new)) (f_activityName f) (f_callIndex f) out) else None)"
proof (cases "List.find (resolves (f_activityName f) (f_callIndex f)) h")
  case None
  then have "\<not> available h (NeedResult (f_activityName f) (f_callIndex f))" by (auto simp: find_None_iff list_ex_iff)
  with None assms show ?thesis by (simp add: Get_def Get_loop_find)
next
  case (Some e)
  then have "available h (NeedResult (f_activityName f) (f_callIndex f))" by (auto simp: find_Some_iff list_ex_iff)
  with Some assms show ?thesis by (simp add: Get_def Get_loop_find recorded_world_def List_find_append)
qed

lemma ReceiveSignal_recorded:
  assumes "wc_history c = h"
  shows "ReceiveSignal js c name out = (if available h (NeedSignal name (wc_signalConsumed c name))
     then Some (w_signal (recorded_world js (h @ new)) name (wc_signalConsumed c name) out,
       c\<lparr>wc_signalConsumed := (wc_signalConsumed c)(name := wc_signalConsumed c name + 1)\<rparr>) else None)"
  using assms by (auto simp: ReceiveSignal_def Let_def signal_loop_nth recorded_world_def signal_value_def nth_append)

lemma Sleep_recorded:
  assumes "wc_history c = h"
  shows "fst (Sleep c d) = available h (NeedTimer (wc_timerCallCount c))"
    and "available h (NeedTimer (wc_timerCallCount c)) \<Longrightarrow> snd (Sleep c d) = c\<lparr>wc_timerCallCount := wc_timerCallCount c + 1\<rparr>"
  using assms by (auto simp: Sleep_def Let_def)

section \<open>Replay ends like the straight run\<close>

definition transparent :: "'v json \<Rightarrow> HistoryEvent list \<Rightarrow> HistoryEvent list \<Rightarrow> 'v wf \<Rightarrow> Context \<Rightarrow> bool" where
  "transparent js h new w c \<longleftrightarrow> fst (replay js w c) =
     (if list_all (available h) (needs (recorded_world js (h @ new)) w (wc_activityCallCount c) (wc_timerCallCount c) (wc_signalConsumed c))
      then direct (recorded_world js (h @ new)) w (wc_activityCallCount c) (wc_signalConsumed c) else Suspended)"

lemma replay_transparent: "wc_history c = h \<Longrightarrow> transparent js h new w c"
proof (induction w arbitrary: c)
  case (CallActivity name input k)
  obtain f c' where e: "ExecuteActivity js c name input = (f, c')" by fastforce
  then have c': "f = \<lparr>f_activityName = name, f_callIndex = wc_activityCallCount c\<rparr>" "wc_history c' = h"
    "wc_activityCallCount c' = wc_activityCallCount c + 1" "wc_timerCallCount c' = wc_timerCallCount c"
    "wc_signalConsumed c' = wc_signalConsumed c"
    using CallActivity.prems by (auto simp: ExecuteActivity_def Let_def)
  from CallActivity.IH [OF rangeI c'(2)] e c' show ?case by (simp add: transparent_def)
next
  case (CallGet f out k)
  from CallGet.IH [OF rangeI CallGet.prems] show ?case
    by (simp add: transparent_def Get_recorded [OF CallGet.prems, of js f out new])
next
  case (CallSleep d w)
  show ?case
  proof (cases "available h (NeedTimer (wc_timerCallCount c))")
    case True
    with Sleep_recorded [OF CallSleep.prems, of d]
    have "Sleep c d = (True, c\<lparr>wc_timerCallCount := wc_timerCallCount c + 1\<rparr>)" by (simp add: prod_eq_iff)
    with CallSleep.IH [of "c\<lparr>wc_timerCallCount := wc_timerCallCount c + 1\<rparr>"] CallSleep.prems True
    show ?thesis by (simp add: transparent_def)
  next
    case False
    with Sleep_recorded(1) [OF CallSleep.prems, of d] show ?thesis by (auto simp: transparent_def case_prod_unfold)
  qed
next
  case (CallReceive name out k)
  from CallReceive.IH [OF rangeI, of "c\<lparr>wc_signalConsumed := (wc_signalConsumed c)(name := wc_signalConsumed c name + 1)\<rparr>"]
    CallReceive.prems
  show ?case by (simp add: transparent_def ReceiveSignal_recorded [OF CallReceive.prems, of js name out new])
qed (simp_all add: transparent_def)

end
