(* ===== verification/SdkProperties.thy ===== *)
theory SdkProperties
  imports Samples Direct
begin

text \<open>
  The replay contract of the SDK: what a workflow function observes, which commands a replay can
  issue, what the worker answers, and what activities report.
\<close>

section \<open>Sample workflow\<close>

text \<open>A \<open>json\<close> on byte strings that is the identity, and a workflow with an activity, a timer and a signal.\<close>

definition sample_json :: "string json" where
  "sample_json = \<lparr>json_Marshal = (\<lambda>v. Inr v), json_Unmarshal = (\<lambda>b v. (None, b))\<rparr>"

definition sample_wf_term :: "string \<Rightarrow> string wf" where
  "sample_wf_term input = CallActivity ''A'' input (\<lambda>f. CallGet f (Some []) (\<lambda>(err, v).
     if err = None then CallSleep 2500000 (CallReceive ''go'' (Some []) (\<lambda>d. Return None)) else Return err))"

definition he :: "int \<Rightarrow> string \<Rightarrow> HistoryEvent" where
  "he n ty = \<lparr>he_EventId = n, he_EventType = ty, he_ActivityName = [], he_ActivityIndex = 0,
     he_Data = Some [], he_TimerIndex = 0, he_SignalName = []\<rparr>"

definition sample_history :: "HistoryEvent list" where
  "sample_history = [he 1 ''WorkflowStarted'',
     (he 2 ''ActivityScheduled'')\<lparr>he_ActivityName := ''A''\<rparr>,
     (he 3 ''ActivityCompleted'')\<lparr>he_ActivityName := ''A'', he_Data := Some ''ok''\<rparr>]"

definition sample_worker :: "(string, unit) Worker" where
  "sample_worker = \<lparr>wk_id = ''me'', wk_queue = ''q'', wk_workflowFunctions = [''T'' \<mapsto> ([], sample_wf_term)],
     wk_activityFunctions = [''A'' \<mapsto> ([], \<lambda>v w. (ActivityReturn (TwoResults v None), w))]\<rparr>"

section \<open>What a workflow function observes\<close>

text \<open>
  \<open>Get\<close> returns exactly when the history has a completion or failure of its
  call (same activity name and same index), and then with the first such event, whatever else the
  history holds: the error text of a failure, or no error with the data unmarshalled into \<open>out\<close>
  when \<open>out\<close> is not nil and the data is not empty.
\<close>

lemma Get_first_resolution:
  "Get js ctx f out = (case List.find (resolves (f_activityName f) (f_callIndex f)) (wc_history ctx) of
     None \<Rightarrow> None
   | Some e \<Rightarrow> Some (if he_EventType e = ''ActivityFailed'' then (Some (case he_Data e of None \<Rightarrow> '''' | Some d \<Rightarrow> d), out)
       else case (out, he_Data e) of
           (Some v, Some (b # bs)) \<Rightarrow> (fst (json_Unmarshal js (b # bs) v), Some (snd (json_Unmarshal js (b # bs) v)))
         | _ \<Rightarrow> (None, out)))"
  by (simp add: Get_def Get_loop_find resolution_def split: option.splits)

text \<open>
  The receives of one signal name consume the signals of that name in the
  order of the history, each once: the receive after \<open>k\<close> earlier ones returns with the data of
  signal \<open>k\<close>, and suspends when there are no more than \<open>k\<close>. Other names are not consumed.
\<close>

lemma ReceiveSignal_in_order:
  "ReceiveSignal js ctx name out =
    (let k = wc_signalConsumed ctx name; signals = filter (is_signal name) (wc_history ctx) in
     if k < length signals then
       Some (map_option (\<lambda>v. snd (json_Unmarshal js (case he_Data (signals ! k) of None \<Rightarrow> [] | Some d \<Rightarrow> d) v)) out,
         ctx\<lparr>wc_signalConsumed := (wc_signalConsumed ctx)(name := k + 1)\<rparr>)
     else None)"
  by (simp add: ReceiveSignal_def Let_def signal_loop_nth)

text \<open>
  C31: when a history grows, a replay observes all that the earlier replay
  observed, in the same order and with the same values, and possibly more after it; if the earlier
  replay had ended, the later one ends in the same way.
\<close>

theorem replay_observations_stable:
  "(\<exists>more. observations js w (New (h @ new) q) = observations js w (New h q) @ more) \<and>
   (fst (replay js w (New h q)) = Suspended \<or> fst (replay js w (New (h @ new) q)) = fst (replay js w (New h q)))"
  using observations_grow [OF grown_New] outcome_grow [OF grown_New] by blast

section \<open>How a workflow ends\<close>

lemma replay_is_direct_run:
  "fst (replay js w (New h q)) =
     (if list_all (available h) (needs (recorded_world js (h @ new)) w 0 0 (\<lambda>_. 0))
      then direct (recorded_world js (h @ new)) w 0 (\<lambda>_. 0) else Suspended)"
  using replay_transparent [of "New h q" h js new w] by (simp add: transparent_def New_def)

text \<open>
  C6: replay is transparent. Take the world that a history records, the
  part of it that is still to come included, and the workflow function run straight through in that
  world, once, with no history and no suspension. As soon as the history the worker is given has all that
  this run waits for, the worker reports just its end: completed, failed with its error, or the panic.
  Until then, and only then, the worker's answer does not end the workflow.
\<close>

theorem worker_answers_straight_run:
  fixes new :: "HistoryEvent list"
  assumes "wk_workflowFunctions wk (pwr_WorkflowType task) = Some (zero, body)"
    and "decode_input js (started_input (pwr_History task)) zero = Inr v"
  defines "W \<equiv> recorded_world js (pwr_History task @ new)"
  shows "case (if list_all (available (pwr_History task)) (needs W (body v) 0 0 (\<lambda>_. 0))
      then direct W (body v) 0 (\<lambda>_. 0) else Suspended) of
    Suspended \<Rightarrow> \<exists>req. executeWorkflowTask js wk task = Respond req \<and>
      (\<forall>d \<in> set (rwq_Commands req). pc_Type d \<noteq> ''CompleteWorkflow'' \<and> pc_Type d \<noteq> ''FailWorkflow'')
  | Returned None \<Rightarrow> \<exists>req cs. executeWorkflowTask js wk task = Respond req \<and>
      rwq_Commands req = cs @ [zero_pbCommand\<lparr>pc_Type := ''CompleteWorkflow''\<rparr>]
  | Returned (Some err) \<Rightarrow> \<exists>req cs. executeWorkflowTask js wk task = Respond req \<and>
      rwq_Commands req = cs @ [zero_pbCommand\<lparr>pc_Type := ''FailWorkflow'', pc_Input := Some err\<rparr>]
  | Panicked r \<Rightarrow> executeWorkflowTask js wk task = Crash r"
proof -
  obtain out c where r: "replay js (body v) (New (pwr_History task) (wk_queue wk)) = (out, c)" by fastforce
  have out: "(if list_all (available (pwr_History task)) (needs W (body v) 0 0 (\<lambda>_. 0))
      then direct W (body v) 0 (\<lambda>_. 0) else Suspended) = out"
    using replay_is_direct_run [of js "body v" "pwr_History task" "wk_queue wk" new] r by (simp add: W_def)
  show ?thesis unfolding out
    using assms(1,2) r replay_command_types [OF r]
    by (cases out) (auto simp: executeWorkflowTask_def Let_def split: option.splits)
qed

definition sample_last_task :: PollWorkflowTaskResponse where
  "sample_last_task = \<lparr>pwr_TaskId = 9, pwr_WorkflowId = ''w'', pwr_RunId = ''u'', pwr_WorkflowType = ''T'',
     pwr_History = sample_history @ [he 4 ''TimerStarted'', he 5 ''TimerFired'',
       (he 6 ''SignalReceived'')\<lparr>he_SignalName := ''go''\<rparr>]\<rparr>"

theorem worker_answers_straight_run_witness:
  "(\<exists>req cs. executeWorkflowTask sample_json sample_worker sample_last_task = Respond req \<and>
     rwq_Commands req = cs @ [zero_pbCommand\<lparr>pc_Type := ''CompleteWorkflow''\<rparr>]) \<and>
   (\<exists>req. executeWorkflowTask sample_json sample_worker (sample_last_task\<lparr>pwr_History := sample_history\<rparr>) = Respond req \<and>
     \<not> list_ex (\<lambda>d. pc_Type d = ''CompleteWorkflow'') (rwq_Commands req))"
proof (rule conjI)
  let ?ends = "\<lambda>h new. if list_all (available h) (needs (recorded_world sample_json (h @ new)) (sample_wf_term []) 0 0 (\<lambda>_. 0))
      then direct (recorded_world sample_json (h @ new)) (sample_wf_term []) 0 (\<lambda>_. 0) else Suspended"
  have e: "?ends (pwr_History sample_last_task) [] = Returned None" "?ends sample_history [] = Suspended" by code_simp+
  have f: "wk_workflowFunctions sample_worker (pwr_WorkflowType sample_last_task) = Some ([], sample_wf_term)"
    by (simp add: sample_worker_def sample_last_task_def)
  have d: "decode_input sample_json (started_input (pwr_History sample_last_task)) [] = Inr []"
    "decode_input sample_json (started_input (pwr_History (sample_last_task\<lparr>pwr_History := sample_history\<rparr>))) [] = Inr []" by code_simp+
  from worker_answers_straight_run [OF f d(1), where new = "[]"] e(1)
  show "\<exists>req cs. executeWorkflowTask sample_json sample_worker sample_last_task = Respond req \<and>
     rwq_Commands req = cs @ [zero_pbCommand\<lparr>pc_Type := ''CompleteWorkflow''\<rparr>]" by (simp only: outcome.case option.case)
  have h: "pwr_History (sample_last_task\<lparr>pwr_History := sample_history\<rparr>) = sample_history" by simp
  have f': "wk_workflowFunctions sample_worker (pwr_WorkflowType (sample_last_task\<lparr>pwr_History := sample_history\<rparr>)) =
      Some ([], sample_wf_term)" using f by simp
  from worker_answers_straight_run [OF f' d(2), where new = "[]", unfolded h e(2) outcome.case]
  show "\<exists>req. executeWorkflowTask sample_json sample_worker (sample_last_task\<lparr>pwr_History := sample_history\<rparr>) = Respond req \<and>
     \<not> list_ex (\<lambda>d. pc_Type d = ''CompleteWorkflow'') (rwq_Commands req)" unfolding list_ex_iff by blast
qed

section \<open>What a replay issues\<close>

text \<open>
  C29: a replay issues no command that its history already records: no
  \<open>ScheduleActivity\<close> for a call the history has an \<open>ActivityScheduled\<close> for, and no \<open>StartTimer\<close> for a
  timer it has a \<open>TimerStarted\<close> for.
\<close>

theorem replay_never_reissues:
  assumes "c \<in> set (Commands (snd (replay js w (New h q))))" and "e \<in> set h"
  shows "\<not> records e c"
  using issues_not_recorded [OF replay_issues [of "New h q" js w]] assms by (simp add: Commands_def issued_def)

theorem replay_never_reissues_witness:
  "\<not> records (he 1 ''WorkflowStarted'') (timer_command 0 2500000)"
proof (rule replay_never_reissues [of _ sample_json "sample_wf_term ''7''" sample_history "''q''"])
  show "timer_command 0 2500000 \<in> set (Commands (snd (replay sample_json (sample_wf_term ''7'') (New sample_history ''q''))))"
    by code_simp
  show "he 1 ''WorkflowStarted'' \<in> set sample_history" by (simp add: sample_history_def)
qed

text \<open>
  The commands of one replay are \<open>ScheduleActivity\<close> commands for the worker's
  own task queue followed by at most one \<open>StartTimer\<close>, and a \<open>StartTimer\<close> only when the replay
  suspends; below \<open>2 ^ 32\<close> activity calls no two of them have the same activity index.
\<close>

lemma replay_command_shape:
  assumes "replay js w (New h q) = (out, ctx)"
  shows "(\<exists>acts rest. Commands ctx = acts @ rest \<and> length rest \<le> 1 \<and>
      (\<forall>c \<in> set acts. pc_Type c = ''ScheduleActivity'' \<and> pc_TaskQueue c = q) \<and>
      (\<forall>c \<in> set rest. pc_Type c = ''StartTimer'' \<and> out = Suspended) \<and>
      (wc_activityCallCount ctx \<le> 2 ^ 32 \<longrightarrow> distinct (map pc_ActivityIndex acts)))"
proof -
  have i: "issues h q 0 (wc_activityCallCount ctx) 0 (wc_timerCallCount ctx) out (Commands ctx)"
    using replay_issues [of "New h q" js w] assms by (simp add: Commands_def issued_def)
  have shape: "\<exists>acts rest. cs = acts @ rest \<and> length rest \<le> 1 \<and>
      (\<forall>c \<in> set acts. pc_Type c = ''ScheduleActivity'' \<and> pc_TaskQueue c = q) \<and>
      (\<forall>c \<in> set rest. pc_Type c = ''StartTimer'' \<and> r = Suspended)"
    if "issues h q a b s t r cs" for a b s t r cs
    using that
  proof (induction cs arbitrary: a)
    case (Cons c cs)
    from Cons.prems consider i where "schedule_shape h q i c" "issues h q (i + 1) b s t r cs"
      | i where "timer_shape h i c" "cs = []" "r = Suspended" by auto
    then show ?case
    proof cases
      case (1 i)
      from Cons.IH [OF 1(2)] obtain acts rest where "cs = acts @ rest" "length rest \<le> 1"
        "\<forall>c \<in> set acts. pc_Type c = ''ScheduleActivity'' \<and> pc_TaskQueue c = q"
        "\<forall>c \<in> set rest. pc_Type c = ''StartTimer'' \<and> r = Suspended" by blast
      with 1(1) show ?thesis by (intro exI [of _ "c # acts"] exI [of _ rest]) (auto simp: schedule_shape_def)
    next
      case (2 i)
      then show ?thesis by (intro exI [of _ "[]"] exI [of _ "[c]"]) (auto simp: timer_shape_def)
    qed
  qed simp
  obtain acts rest where acts: "Commands ctx = acts @ rest" "length rest \<le> 1"
      "\<forall>c \<in> set acts. pc_Type c = ''ScheduleActivity'' \<and> pc_TaskQueue c = q"
      "\<forall>c \<in> set rest. pc_Type c = ''StartTimer'' \<and> out = Suspended" using shape [OF i] by blast
  have "filter (\<lambda>c. pc_Type c = ''ScheduleActivity'') (Commands ctx) = acts"
    using acts(3,4) by (simp add: acts(1) filter_True filter_empty_conv)
  with issues_indices [OF i] obtain ns where ns: "sorted_wrt (<) ns" "set ns \<subseteq> {0..<wc_activityCallCount ctx}"
    "map pc_ActivityIndex acts = map word_of_nat ns" by auto
  have "distinct (map pc_ActivityIndex acts)" if "wc_activityCallCount ctx \<le> 2 ^ 32"
  proof -
    have "inj_on (word_of_nat :: nat \<Rightarrow> 32 word) (set ns)"
      using ns(2) that by (intro inj_onI) (subst (asm) word_of_nat_inj, auto)
    moreover have "distinct ns" using ns(1) by (simp add: strict_sorted_iff)
    ultimately show ?thesis unfolding ns(3) by (simp add: distinct_map)
  qed
  with acts show ?thesis by blast
qed

text \<open>
  C30: once every command of a replay is recorded behind its history and nothing
  else has happened, a replay over the longer history ends as before and issues no command: a
  workflow task that is delivered a second time schedules nothing twice.
\<close>

theorem replay_idempotent:
  assumes "\<forall>e \<in> set new. recording e" and "all_recorded new (Commands (snd (replay js w (New h q))))"
  shows "fst (replay js w (New (h @ new) q)) = fst (replay js w (New h q)) \<and>
    Commands (snd (replay js w (New (h @ new) q))) = []"
  using replay_recorded [OF grown_New assms(1)] assms(2) by (simp add: Commands_def issued_def)

theorem replay_idempotent_witness:
  "Commands (snd (replay sample_json (sample_wf_term ''7'') (New (sample_history @ [he 4 ''TimerStarted'']) ''q''))) = []"
proof -
  have "\<forall>e \<in> set [he 4 ''TimerStarted'']. recording e" by (simp add: recording_def he_def)
  moreover have "Commands (snd (replay sample_json (sample_wf_term ''7'') (New sample_history ''q''))) = [timer_command 0 2500000]"
    by code_simp
  then have "all_recorded [he 4 ''TimerStarted'']
      (Commands (snd (replay sample_json (sample_wf_term ''7'') (New sample_history ''q''))))"
    by (simp add: all_recorded_def records_def he_def)
  ultimately show ?thesis using replay_idempotent by blast
qed

end
