(* ===== verification/WorkerProperties.thy ===== *)
theory WorkerProperties
  imports SdkProperties LogTables
begin

text \<open>
  The worker: registration, the answer to a workflow task and what the engine makes of it, the
  report of an activity, and the way of a duration from \<open>Sleep\<close> to a timer row.
\<close>

section \<open>Registration\<close>

text \<open>
  A workflow function is registered under the last component of its full
  name, and only under it; a second function with the same last component takes the place of the
  first, whatever package it is from. An argument that is not a function panics.
\<close>

lemma RegisterWorkflow_name:
  assumes "CHR ''.'' \<notin> set name"
  shows "RegisterWorkflow w NotFunc = None \<and>
    (\<exists>w'. RegisterWorkflow w (Func (package @ ''.'' @ name) fn) = Some w' \<and>
      wk_workflowFunctions w' name = Some fn \<and>
      (\<forall>n. n \<noteq> name \<longrightarrow> wk_workflowFunctions w' n = wk_workflowFunctions w n) \<and>
      RegisterWorkflow w' (Func (package' @ ''.'' @ name) fn') = RegisterWorkflow w (Func (package' @ ''.'' @ name) fn'))"
  using function_name_append [OF assms] by simp

section \<open>Workflow tasks\<close>

text \<open>
  Every answer of the worker has a terminal command only in the last place,
  which is what the engine's numbering of the history relies on, and no command the engine does
  not know.
\<close>

lemma worker_answer_shape:
  assumes "executeWorkflowTask js w task = Respond req"
  shows "terminal_last (unmarshalCommands (rwq_Commands req)) \<and>
    (\<forall>c \<in> set (unmarshalCommands (rwq_Commands req)). known_command c)"
proof (rule conjI)
  show "terminal_last (unmarshalCommands (rwq_Commands req))" using worker_terminal_last [OF assms] .
  from assms show "\<forall>c \<in> set (unmarshalCommands (rwq_Commands req)). known_command c"
  proof (cases rule: executeWorkflowTask_Respond)
    case (1 zero body v out c)
    with unmarshal_nonterminal [OF replay_command_types [OF 1(3)]] show ?thesis
      by (auto simp: unmarshalCommands_def known_command_def)
  qed
qed

section \<open>Durations\<close>

lemma Milliseconds_nonneg: "0 \<le> d \<Longrightarrow> Milliseconds d * 1000000 = d - d mod 1000000"
  by (simp add: Milliseconds_def minus_mod_eq_div_mult)

lemma sint_int64: "0 \<le> i \<Longrightarrow> i < 2 ^ 63 \<Longrightarrow> sint (word_of_int i :: 64 word) = i"
  by transfer (simp add: signed_take_bit_int_eq_self)

lemma duration_of_timer_command:
  assumes "0 \<le> d" and "d < 2 ^ 63"
  shows "duration_of_ms (pc_DurationMs (timer_command i d)) = d - d mod 1000000"
proof -
  have m: "Milliseconds d * 1000000 = d - d mod 1000000" using Milliseconds_nonneg [OF assms(1)] .
  have range: "0 \<le> d - d mod 1000000" "d - d mod 1000000 \<le> d"
    using assms(1) by (simp_all add: zmod_le_nonneg_dividend)
  have "duration_of_ms (pc_DurationMs (timer_command i d)) = sint (word_of_int (Milliseconds d * 1000000) :: 64 word)"
    by (simp add: duration_of_ms_def timer_command_def)
  also have "\<dots> = Milliseconds d * 1000000"
    by (rule sint_int64) (use range assms(2) m in simp_all)
  finally show ?thesis using m by simp
qed

lemma respond_succeeds:
  assumes "Handler_RespondWorkflowTaskCompleted req E s = (Inr (resp, None), s')"
  shows "CompleteWorkflowTask (rwq_TaskId req) (rwq_WorkflowId req) (rwq_RunId req)
     (unmarshalCommands (rwq_Commands req)) E s = (Inr (), s')"
  using assms by (auto simp: Handler_RespondWorkflowTaskCompleted_def bindM_def tryM_def returnM_def
      split: prod.splits sum.splits if_splits)

text \<open>
  C40: the duration of a \<open>Sleep\<close> on its way from the workflow function to the
  timer row. When a \<open>Sleep\<close> of a non-negative \<open>time.Duration\<close> issues a command, and the engine accepts an answer
  with the commands made so far for a running execution, the last timer row it inserts is that of the call: it
  belongs to the run, has the number of the call as its index, has not fired, and is due at a reading of the engine's
  clock plus the duration cut down to whole milliseconds, as the database stores that instant.
  So the product in the engine does not wrap around, and the time that is slept is less than a millisecond
  short of the time asked for, and not longer.
\<close>

theorem sleep_duration_roundtrip:
  assumes "0 \<le> d" and "d < 2 ^ 63"
    and "Sleep ctx d = (False, ctx')" and "wc_commands ctx' \<noteq> wc_commands ctx"
    and "serial E" and "rwq_Commands req = Commands ctx'"
    and "Handler_RespondWorkflowTaskCompleted req E s = (Inr (resp, None), s')"
    and "e_uuid E (rwq_RunId req) = Some u"
    and "find_execution (rwq_WorkflowId req) u (tabs (s_store s)) = Some x" and "we_Status x = ''Running''"
  shows "\<exists>ms t k slept. timers (tabs (s_store s')) = timers (tabs (s_store s)) @ ms @ [t] \<and>
    length ms = length (filter (\<lambda>c. pc_Type c = ''StartTimer'') (Commands ctx)) \<and>
    tm_WorkflowID t = rwq_WorkflowId req \<and> tm_RunID t = u \<and> tm_TimerIndex t = word_of_nat (wc_timerCallCount ctx) \<and>
    \<not> tm_Fired t \<and> tm_FireAt t = e_store_time E (e_go_now E k + slept) \<and>
    slept = d - d mod 1000000 \<and> d - 1000000 < slept \<and> slept \<le> d"
proof -
  have "Commands ctx' = Commands ctx @ [timer_command (wc_timerCallCount ctx) d]"
    using assms(3,4) by (auto simp: Sleep_def Let_def Commands_def split: if_splits)
  then have "filter (\<lambda>c. c_Type c = ''StartTimer'') (unmarshalCommands (rwq_Commands req)) =
      filter (\<lambda>c. c_Type c = ''StartTimer'') (unmarshalCommands (Commands ctx)) @
      unmarshalCommands [timer_command (wc_timerCallCount ctx) d]"
    by (simp add: assms(6) unmarshalCommands_def)
  with CompleteWorkflowTask_new_timers [OF assms(5) respond_succeeds [OF assms(7)] assms(8-10)]
  obtain ms t where t: "timers (tabs (s_store s')) = timers (tabs (s_store s)) @ ms @ [t]"
    "length ms = length (filter (\<lambda>c. c_Type c = ''StartTimer'') (unmarshalCommands (Commands ctx)))"
    and "timer_of E (rwq_WorkflowId req) u t (hd (unmarshalCommands [timer_command (wc_timerCallCount ctx) d]))"
    by (auto simp: list_all2_append2 list_all2_Cons2 unmarshalCommands_def dest!: list_all2_lengthD)
  moreover have "length (filter (\<lambda>c. c_Type c = ''StartTimer'') (unmarshalCommands cs)) =
      length (filter (\<lambda>c. pc_Type c = ''StartTimer'') cs)" for cs
    by (induction cs) (simp_all add: unmarshalCommands_def)
  moreover have "d - 1000000 < d - d mod 1000000" "d - d mod 1000000 \<le> d"
    using assms(1) by (simp_all add: zmod_le_nonneg_dividend)
  ultimately show ?thesis
    by (auto simp: timer_of_def unmarshalCommands_def duration_of_timer_command [OF assms(1,2)])
qed

definition sample_sleep :: RespondWorkflowTaskCompletedRequest where
  "sample_sleep = \<lparr>rwq_TaskId = 1, rwq_WorkflowId = ''w'', rwq_RunId = sample_run,
     rwq_Commands = Commands (snd (Sleep (New [] ''q'') 2500000))\<rparr>"

theorem sleep_duration_roundtrip_witness:
  "\<exists>t k. timers (tabs (s_store (snd (Handler_RespondWorkflowTaskCompleted sample_sleep sample_env sample_started)))) = [t] \<and>
     tm_FireAt t = e_go_now sample_env k + 2000000"
proof -
  let ?c = "snd (Sleep (New [] ''q'') 2500000)"
  let ?s = "snd (Handler_RespondWorkflowTaskCompleted sample_sleep sample_env sample_started)"
  have s: "Sleep (New [] ''q'') 2500000 = (False, ?c)" by (rule ran) code_simp
  have c: "wc_commands ?c \<noteq> wc_commands (New [] ''q'')" by code_simp
  have r: "fst (Handler_RespondWorkflowTaskCompleted sample_sleep sample_env sample_started) = Inr (Some (), None)" by code_simp
  have x: "map_option we_Status (find_execution ''w'' sample_run (tabs (s_store sample_started))) = Some ''Running''"
    "e_uuid sample_env sample_run = Some sample_run" "timers (tabs (s_store sample_started)) = []" by code_simp+
  then obtain x where x': "find_execution (rwq_WorkflowId sample_sleep) sample_run (tabs (s_store sample_started)) = Some x"
    "we_Status x = ''Running''" "e_uuid sample_env (rwq_RunId sample_sleep) = Some sample_run" by (auto simp: sample_sleep_def)
  have q: "rwq_Commands sample_sleep = Commands ?c" by (simp add: sample_sleep_def)
  from sleep_duration_roundtrip [OF _ _ s c sample_env_ok(1) q ran [OF r] x'(3,1,2)] x(3)
  obtain t k where "timers (tabs (s_store ?s)) = [t]" "tm_FireAt t = e_store_time sample_env (e_go_now sample_env k + 2000000)"
    by (auto simp: New_def Commands_def)
  then show ?thesis by (auto simp: sample_env_def)
qed

end
