(* ===== verification/SystemProperties.thy ===== *)
theory SystemProperties
  imports WorkerProperties
begin

text \<open>
  Properties of the whole: the invariants of every state the engine can reach, and the loop from
  worker to engine and back.
\<close>

section \<open>Reachable states\<close>

text \<open>
  C14: in every state the engine reaches by any sequence of requests and ticks,
  with any faults, the keys of the four tables are unique, an execution is open exactly while it
  is running, every event, task and timer belongs to an execution and no event has nil data, a
  task has an owner exactly when it has an expiry, and an activity task is on attempt 1, 2 or 3 of 3.
\<close>

theorem reachable_well_formed:
  assumes "reachable U ok s"
  shows "wf_store U (s_store s)"
  using assms by (rule reachable_wf)

theorem reachable_well_formed_witness: "wf_store (e_uuid sample_env) (s_store sample_started)"
  using reachable_well_formed [OF sample_started_reachable [of "\<lambda>_ _ _. True"]] by simp

text \<open>
  C4: while a workflow task is only answered with its terminal command last, and
  no scan finds two due timers of one run, the events of every run have the event IDs 1, 2, 3, ...
  in the order of insertion, and every read of a history returns exactly the run's events in that
  order.
\<close>

theorem reachable_numbered:
  assumes "reachable U numbering_ok s"
  shows "map ev_EventID (run_events wid rid (tabs (s_store s))) = [1..int (length (run_events wid rid (tabs (s_store s))))] \<and>
    select_events k wid rid (tabs (s_store s)) = run_events wid rid (tabs (s_store s))"
  using reachable_dense [OF assms] by (simp add: select_events_dense dense_def contiguous_def)

theorem reachable_numbered_witness:
  "map ev_EventID (run_events ''w'' sample_run (tabs (s_store sample_started))) =
     [1..int (length (run_events ''w'' sample_run (tabs (s_store sample_started))))]"
  using reachable_numbered [OF sample_started_reachable [of numbering_ok]] by simp

lemma step_engine_step:
  assumes "reachable U ok s" and "step U ok s s'"
  obtains E where "engine_step E s s'" and "wf_store (e_uuid E) (s_store s)"
  using assms reachable_wf [OF assms(1)] serve_step by (metis stepE)

text \<open>
  C28: a step of the engine keeps every event there is, unchanged and in its
  place, and puts new ones behind them; and it keeps every execution with its type, task queue and
  start time.
\<close>

theorem history_append_only:
  assumes "reachable U ok s" and "step U ok s s'"
  shows "(\<exists>new. events (tabs (s_store s')) = events (tabs (s_store s)) @ new) \<and>
    (\<exists>new. map identity_of (executions (tabs (s_store s'))) = map identity_of (executions (tabs (s_store s))) @ new)"
  using step_engine_step [OF assms] engine_step_events engine_step_executions by metis

theorem history_append_only_witness:
  "\<exists>new. events (tabs (s_store sample_started)) = events (tabs (s_store sample_init)) @ new"
  using history_append_only [OF sample_init_reachable sample_started_step [of "\<lambda>_ _ _. True"]] by simp

text \<open>
  C27: an execution that has ended is never changed again: no step reopens it, ends
  it a second time or moves its closing time.
\<close>

theorem terminal_is_final:
  assumes "reachable U ok s" and "step U ok s s'"
    and "x \<in> set (executions (tabs (s_store s)))" and "we_Status x \<noteq> ''Running''"
  shows "x \<in> set (executions (tabs (s_store s')))"
  using step_engine_step [OF assms(1,2)] engine_step_terminal assms(3,4) by metis

definition sample_end_request :: RespondWorkflowTaskCompletedRequest where
  "sample_end_request = \<lparr>rwq_TaskId = 1, rwq_WorkflowId = ''w'', rwq_RunId = sample_run,
     rwq_Commands = [zero_pbCommand\<lparr>pc_Type := ''CompleteWorkflow''\<rparr>]\<rparr>"

definition sample_closed :: sess where
  "sample_closed = serve (RRespondWorkflow sample_end_request) sample_env sample_started"

theorem terminal_is_final_witness:
  "\<exists>x \<in> set (executions (tabs (s_store sample_closed))). we_Status x = ''Completed'' \<and>
     x \<in> set (executions (tabs (s_store (serve TickReclaim sample_env sample_closed))))"
proof -
  have r: "reachable (e_uuid sample_env) (\<lambda>_ _ _. True) sample_closed"
    unfolding sample_closed_def
    by (intro reachable.more [OF sample_started_reachable] step.step) simp_all
  have st: "step (e_uuid sample_env) (\<lambda>_ _ _. True) sample_closed (serve TickReclaim sample_env sample_closed)"
    by (intro step.step) simp_all
  have "map we_Status (executions (tabs (s_store sample_closed))) = [''Completed'']" by code_simp
  then obtain x where "x \<in> set (executions (tabs (s_store sample_closed)))" "we_Status x = ''Completed''"
    by (auto simp: map_eq_Cons_conv)
  with terminal_is_final [OF r st] show ?thesis by auto
qed

section \<open>From the worker to the engine and back\<close>

lemma started_input_recording:
  "\<forall>e \<in> set new. recording e \<Longrightarrow> started_input (h @ new) = started_input h"
proof -
  assume "\<forall>e \<in> set new. recording e"
  then have "List.find (\<lambda>e. he_EventType e = ''WorkflowStarted'') new = None"
    by (auto simp: recording_def)
  then show ?thesis unfolding started_input_def List_find_append
    by (cases "List.find (\<lambda>e. he_EventType e = ''WorkflowStarted'') h") (simp_all del: List_find_None)
qed

lemma Handler_RespondWorkflowTaskCompleted_ok:
  "Handler_RespondWorkflowTaskCompleted req E s = (Inr (resp, None), s') \<Longrightarrow>
     CompleteWorkflowTask (rwq_TaskId req) (rwq_WorkflowId req) (rwq_RunId req)
       (unmarshalCommands (rwq_Commands req)) E s = (Inr (), s')"
  by (auto simp: Handler_RespondWorkflowTaskCompleted_def bindM_def tryM_def returnM_def
      split: prod.splits sum.splits if_splits)

text \<open>
  C2: when a worker has answered a workflow task of a running execution, over the
  history as the engine had it, with commands that do not end the workflow, and the engine has
  acknowledged the answer, then any worker that replays the same workflow over the history the
  engine has now suspends again and has no command to issue. A workflow task that is delivered
  again after a crash therefore schedules nothing twice.
\<close>

theorem durable_replay:
  assumes "serial E" and "uuid_ok E" and "wf_store (e_uuid E) (s_store s)" and "dense (tabs (s_store s))"
    and "e_uuid E (pwr_RunId task) = Some u" and "workflow_running E s (pwr_WorkflowId task) (pwr_RunId task)"
    and "pwr_History task = marshalEvents (select_events k (pwr_WorkflowId task) u (tabs (s_store s)))"
    and "executeWorkflowTask js w task = Respond req"
    and "\<forall>c \<in> set (rwq_Commands req). pc_Type c \<notin> {''CompleteWorkflow'', ''FailWorkflow''}"
    and "Handler_RespondWorkflowTaskCompleted req E s = (Inr (resp, None), s')"
  shows "executeWorkflowTask js w
      (task\<lparr>pwr_History := marshalEvents (select_events k' (pwr_WorkflowId task) u (tabs (s_store s')))\<rparr>) =
    Respond (req\<lparr>rwq_Commands := []\<rparr>)"
  using assms(8)
proof (cases rule: executeWorkflowTask_Respond)
  case (1 zero body v out c)
  let ?h = "pwr_History task"
  from 1(7) assms(9) have out: "out = Suspended" and cmds: "rwq_Commands req = Commands c" by auto
  note types = replay_command_types [OF 1(3)]
  note ack = Handler_RespondWorkflowTaskCompleted_ok [OF assms(10)]
  have "terminal_last (unmarshalCommands (rwq_Commands req))" using worker_terminal_last [OF assms(8)] .
  with number_workflow.numbers [OF assms(1-3) _ assms(4) ack] have dense: "dense (tabs (s_store s'))" by simp
  from wpD [OF CompleteWorkflowTask_spec [unfolded effect_spec_def, OF assms(1)] ack]
  have eff: "CompleteWorkflowTask_effect E s (pwr_TaskId task) (pwr_WorkflowId task) (pwr_RunId task)
      (unmarshalCommands (Commands c)) s'" by (simp add: 1(4-6) cmds)
  obtain new where new: "run_events (pwr_WorkflowId task) u (tabs (s_store s')) =
      run_events (pwr_WorkflowId task) u (tabs (s_store s)) @ new"
    and rec: "all_recorded (marshalEvents new) (Commands c)" "\<forall>e \<in> set (marshalEvents new). recording e"
    using CompleteWorkflowTask_history [OF eff assms(5,6) types] by blast
  have h': "marshalEvents (select_events k' (pwr_WorkflowId task) u (tabs (s_store s'))) = ?h @ marshalEvents new"
    using assms(4,7) dense new by (simp add: select_events_dense)
  have "fst (replay js (body v) (New (?h @ marshalEvents new) (wk_queue w))) = Suspended \<and>
      Commands (snd (replay js (body v) (New (?h @ marshalEvents new) (wk_queue w)))) = []"
    using replay_recorded [OF grown_New [of "marshalEvents new" ?h "wk_queue w" "wk_queue w"] rec(2), of js "body v"]
      rec(1) 1(3) out by (simp add: Commands_def issued_def)
  with 1 started_input_recording [OF rec(2)] show ?thesis
    by (simp add: h' executeWorkflowTask_def Let_def case_prod_unfold)
qed

definition sample_first_task :: PollWorkflowTaskResponse where
  "sample_first_task = \<lparr>pwr_TaskId = 1, pwr_WorkflowId = ''w'', pwr_RunId = sample_run, pwr_WorkflowType = ''T'',
     pwr_History = marshalEvents (select_events (\<lambda>k. k) ''w'' sample_run (tabs (s_store sample_started)))\<rparr>"

definition sample_first_answer :: RespondWorkflowTaskCompletedRequest where
  "sample_first_answer = \<lparr>rwq_TaskId = 1, rwq_WorkflowId = ''w'', rwq_RunId = sample_run,
     rwq_Commands = [schedule_command sample_json ''q'' ''A'' 0 ''7'']\<rparr>"

theorem durable_replay_witness:
  "executeWorkflowTask sample_json sample_worker (sample_first_task\<lparr>pwr_History :=
      marshalEvents (select_events (\<lambda>k. k) ''w'' sample_run (tabs (s_store
        (snd (Handler_RespondWorkflowTaskCompleted sample_first_answer sample_env sample_started)))))\<rparr>) =
     Respond (sample_first_answer\<lparr>rwq_Commands := []\<rparr>)"
proof -
  have a: "executeWorkflowTask sample_json sample_worker sample_first_task = Respond sample_first_answer" by code_simp
  have r: "fst (Handler_RespondWorkflowTaskCompleted sample_first_answer sample_env sample_started) = Inr (Some (), None)"
    by code_simp
  have u: "e_uuid sample_env (pwr_RunId sample_first_task) = Some sample_run" by code_simp
  have "map_option we_Status (find_execution ''w'' sample_run (tabs (s_store sample_started))) = Some ''Running''" by code_simp
  with u have run: "workflow_running sample_env sample_started (pwr_WorkflowId sample_first_task) (pwr_RunId sample_first_task)"
    by (auto simp: workflow_running_def sample_first_task_def)
  have h: "pwr_History sample_first_task =
      marshalEvents (select_events (\<lambda>k. k) (pwr_WorkflowId sample_first_task) sample_run (tabs (s_store sample_started)))"
    by (simp add: sample_first_task_def)
  have nt: "\<forall>c \<in> set (rwq_Commands sample_first_answer). pc_Type c \<notin> {''CompleteWorkflow'', ''FailWorkflow''}"
    by (simp add: sample_first_answer_def schedule_command_def)
  have w: "pwr_WorkflowId sample_first_task = ''w''" by (simp add: sample_first_task_def)
  show ?thesis
    by (rule durable_replay [OF sample_env_ok(1,2) sample_wf sample_dense u run h a nt ran [OF r], of "\<lambda>k. k", unfolded w])
qed

end
