(* ===== verification/Loops.thy ===== *)
theory Loops
  imports Invariants
begin

text \<open>
  The endless loops of the engine (\<open>cmd/engine/main.go\<close>) and of the worker (\<open>sdk/worker.go\<close>). Each
  runs until its context is done, which the list of its iterations ends with: the engine's loops get
  the environment of each tick, the worker's loops the client of each iteration. An error never ends
  a loop; a panic ends the worker's process.
\<close>

section \<open>The engine's loops\<close>

fun reclaimLoop :: "env list \<Rightarrow> sess \<Rightarrow> sess" where
  "reclaimLoop [] s = s"
| "reclaimLoop (E # Es) s = (case reclaimLoop_tick E s of (_, s') \<Rightarrow> reclaimLoop Es s')"

fun scanTimers :: "env list \<Rightarrow> sess \<Rightarrow> sess" where
  "scanTimers [] s = s"
| "scanTimers (E # Es) s = (case scanTimers_tick E s of (_, s') \<Rightarrow> scanTimers Es s')"

lemma reclaimLoop_serve: "reclaimLoop Es = fold (serve TickReclaim) Es"
proof
  show "reclaimLoop Es s = fold (serve TickReclaim) Es s" for s
    by (induction Es arbitrary: s) (simp_all split: prod.splits)
qed

lemma scanTimers_serve: "scanTimers Es = fold (serve TickTimers) Es"
proof
  show "scanTimers Es s = fold (serve TickTimers) Es s" for s
    by (induction Es arbitrary: s) (simp_all split: prod.splits)
qed

section \<open>The worker's loops\<close>

text \<open>The result is the panic that ended the loop, if one did.\<close>

fun pollWorkflowTasks ::
  "'v json \<Rightarrow> 's engine_client list \<Rightarrow> ('v, 'w) Worker \<Rightarrow> 's \<Rightarrow> string option \<times> 's" where
  "pollWorkflowTasks js [] w s = (None, s)"
| "pollWorkflowTasks js (c # cs) w s =
     (case pollWorkflowTasks_step js c w s of
        (Crashed r, s') \<Rightarrow> (Some r, s')
      | (Slept, s') \<Rightarrow> pollWorkflowTasks js cs w s'
      | (Worked, s') \<Rightarrow> pollWorkflowTasks js cs w s')"

fun pollActivityTasks ::
  "'v json \<Rightarrow> 's engine_client list \<Rightarrow> ('v, 'w) Worker \<Rightarrow> 's \<times> 'w \<Rightarrow> string option \<times> 's \<times> 'w" where
  "pollActivityTasks js [] w s = (None, s)"
| "pollActivityTasks js (c # cs) w s =
     (case pollActivityTasks_step js c w s of
        (Crashed r, s') \<Rightarrow> (Some r, s')
      | (Slept, s') \<Rightarrow> pollActivityTasks js cs w s'
      | (Worked, s') \<Rightarrow> pollActivityTasks js cs w s')"

text \<open>
  \<open>Run\<close> starts both loops; \<open>sync.WaitGroup\<close> waits for both. A list of turns says which loop goes
  through its next iteration, with the client of that iteration. Calls of two iterations may in
  fact be interleaved: the requests are the same, each of them alone meets \<open>worker_request\<close>
  below, and \<open>Cluster\<close> interleaves them call by call.
\<close>

datatype 's turn = WorkflowTurn "'s engine_client" | ActivityTurn "'s engine_client"

fun Run :: "'v json \<Rightarrow> 's turn list \<Rightarrow> ('v, 'w) Worker \<Rightarrow> 's \<times> 'w \<Rightarrow> string option \<times> 's \<times> 'w" where
  "Run js [] w s = (None, s)"
| "Run js (WorkflowTurn c # ts) w (s, world) =
     (case pollWorkflowTasks js [c] w s of
        (Some r, s') \<Rightarrow> (Some r, s', world)
      | (None, s') \<Rightarrow> Run js ts w (s', world))"
| "Run js (ActivityTurn c # ts) w (s, world) =
     (case pollActivityTasks js [c] w (s, world) of
        (Some r, s') \<Rightarrow> (Some r, s')
      | (None, s') \<Rightarrow> Run js ts w s')"

text \<open>A worker of which only one loop gets its turns is that loop.\<close>

lemma Run_workflow_turns:
  "Run js (map WorkflowTurn cs) w (s, world) = (case pollWorkflowTasks js cs w s of (r, s') \<Rightarrow> (r, s', world))"
  by (induction cs arbitrary: s) (auto split: prod.splits loop_end.splits)

lemma Run_activity_turns: "Run js (map ActivityTurn cs) w s = pollActivityTasks js cs w s"
proof (induction cs arbitrary: s)
  case (Cons c cs)
  then show ?case by (cases s) (auto split: prod.splits loop_end.splits)
qed (cases s, simp)

section \<open>A worker connected to the engine makes requests\<close>

text \<open>The requests a worker of the SDK can make: its workflow answers have their terminal command last.\<close>

fun worker_request :: "request \<Rightarrow> bool" where
  "worker_request (RPollWorkflow req) = True"
| "worker_request (RPollActivity req) = True"
| "worker_request (RRespondActivity req) = True"
| "worker_request (RFailActivity req) = True"
| "worker_request (RRespondWorkflow req) = terminal_last (unmarshalCommands (rwq_Commands req))"
| "worker_request q = False"

lemma worker_request_numbering: "worker_request q \<Longrightarrow> numbering_ok E s q"
  by (cases q) simp_all

definition served_by :: "env \<Rightarrow> sess \<Rightarrow> sess \<Rightarrow> bool" where
  "served_by E s s' \<longleftrightarrow> (\<exists>qs. list_all worker_request qs \<and> s' = fold (\<lambda>q. serve q E) qs s)"

lemma served_by_refl [simp]: "served_by E s s"
  unfolding served_by_def by (intro exI [of _ "[]"]) simp

lemma served_by_one: "worker_request q \<Longrightarrow> served_by E s s' \<Longrightarrow> served_by E s (serve q E s')"
  unfolding served_by_def
proof (elim exE conjE)
  fix qs assume "worker_request q" "list_all worker_request qs" "s' = fold (\<lambda>q. serve q E) qs s"
  then show "\<exists>qs. list_all worker_request qs \<and> serve q E s' = fold (\<lambda>q. serve q E) qs s"
    by (intro exI [of _ "qs @ [q]"]) simp
qed

lemma call_snd [simp]: "snd (call handler E zero req s) = snd (handler req E s)"
  by (simp add: call_def split: prod.splits sum.splits option.splits)

lemma connect_serves:
  "snd (rpc_PollWorkflowTask (connect E) req1 s) = serve (RPollWorkflow req1) E s"
  "snd (rpc_RespondWorkflowTaskCompleted (connect E) req2 s) = serve (RRespondWorkflow req2) E s"
  "snd (rpc_PollActivityTask (connect E) req3 s) = serve (RPollActivity req3) E s"
  "snd (rpc_RespondActivityTaskCompleted (connect E) req4 s) = serve (RRespondActivity req4) E s"
  "snd (rpc_RespondActivityTaskFailed (connect E) req5 s) = serve (RFailActivity req5) E s"
  by (simp_all add: connect_def)

lemma workflow_iteration_served: "served_by E s (snd (pollWorkflowTasks_step js (connect E) w s))"
proof -
  let ?q = "\<lparr>pwq_TaskQueue = wk_queue w, pwq_LeaseOwner = wk_id w\<rparr>"
  obtain r s1 where poll: "rpc_PollWorkflowTask (connect E) ?q s = (r, s1)" by (cases "rpc_PollWorkflowTask (connect E) ?q s")
  with connect_serves(1) [of E ?q s] have "s1 = serve (RPollWorkflow ?q) E s" by simp
  then have s1: "served_by E s s1" by (simp only: served_by_one [of "RPollWorkflow ?q"] worker_request.simps served_by_refl)
  show ?thesis
  proof (cases "\<exists>resp req. r = Inr resp \<and> pwr_TaskId resp \<noteq> 0 \<and> executeWorkflowTask js w resp = Respond req")
    case True
    then obtain resp req where r: "r = Inr resp" "pwr_TaskId resp \<noteq> 0" "executeWorkflowTask js w resp = Respond req" by blast
    then have "snd (pollWorkflowTasks_step js (connect E) w s) = serve (RRespondWorkflow req) E s1"
      using poll by (simp add: pollWorkflowTasks_step_def Client_PollWorkflowTask_def connect_serves del: serve.simps)
    moreover have "worker_request (RRespondWorkflow req)" using worker_terminal_last [OF r(3)] by simp
    from served_by_one [OF this s1] have "served_by E s (serve (RRespondWorkflow req) E s1)" .
    ultimately show ?thesis by (simp del: serve.simps)
  next
    case False
    then have "snd (pollWorkflowTasks_step js (connect E) w s) = s1"
      using poll by (auto simp: pollWorkflowTasks_step_def Client_PollWorkflowTask_def split: sum.splits workflow_action.splits)
    with s1 show ?thesis by simp
  qed
qed

lemma activity_iteration_served: "served_by E s (fst (snd (pollActivityTasks_step js (connect E) w (s, world))))"
proof -
  let ?q = "\<lparr>paq_TaskQueue = wk_queue w, paq_LeaseOwner = wk_id w\<rparr>"
  obtain r s1 where poll: "rpc_PollActivityTask (connect E) ?q s = (r, s1)" by (cases "rpc_PollActivityTask (connect E) ?q s")
  with connect_serves(3) [of E ?q s] have "s1 = serve (RPollActivity ?q) E s" by simp
  then have s1: "served_by E s s1" by (simp only: served_by_one [of "RPollActivity ?q"] worker_request.simps served_by_refl)
  have ok: "worker_request (RRespondActivity a)" "worker_request (RFailActivity b)" for a b by simp_all
  show ?thesis
    using poll s1 served_by_one [OF ok(1) s1] served_by_one [OF ok(2) s1]
    by (auto simp: pollActivityTasks_step_def Client_PollActivityTask_def Client_RespondActivityTaskCompleted_def
        Client_RespondActivityTaskFailed_def connect_serves simp del: serve.simps
        split: sum.splits prod.splits activity_action.splits)
qed

lemma served_by_reachable:
  assumes "reachable U numbering_ok s" and "serial E" "uuid_ok E" "e_uuid E = U" and "served_by E s s'"
  shows "reachable U numbering_ok s'"
proof -
  from assms(5) obtain qs where "list_all worker_request qs" "s' = fold (\<lambda>q. serve q E) qs s"
    by (auto simp: served_by_def)
  then show ?thesis using assms(1)
  proof (induction qs arbitrary: s)
    case (Cons q qs)
    from Cons.prems have "step U numbering_ok s (serve q E s)"
      using assms(2-4) by (intro step.step) (simp_all add: worker_request_numbering)
    with Cons show ?case by (simp del: serve.simps) (blast intro: reachable.more)
  qed simp
qed

lemma workflow_loop_reachable:
  assumes "reachable U numbering_ok s" and "\<forall>E \<in> set Es. serial E \<and> uuid_ok E \<and> e_uuid E = U"
  shows "reachable U numbering_ok (snd (pollWorkflowTasks js (map connect Es) w s))"
  using assms
proof (induction Es arbitrary: s)
  case (Cons E Es)
  then have "reachable U numbering_ok (snd (pollWorkflowTasks_step js (connect E) w s))"
    using served_by_reachable [OF Cons.prems(1) _ _ _ workflow_iteration_served [of E]] by simp
  with Cons show ?case by (auto split: prod.splits loop_end.splits)
qed simp

lemma activity_loop_reachable:
  assumes "reachable U numbering_ok s" and "\<forall>E \<in> set Es. serial E \<and> uuid_ok E \<and> e_uuid E = U"
  shows "reachable U numbering_ok (fst (snd (pollActivityTasks js (map connect Es) w (s, world))))"
  using assms
proof (induction Es arbitrary: s world)
  case (Cons E Es)
  obtain l s' world' where i: "pollActivityTasks_step js (connect E) w (s, world) = (l, s', world')"
    by (cases "pollActivityTasks_step js (connect E) w (s, world)") auto
  with Cons.prems have "reachable U numbering_ok s'"
    using served_by_reachable [OF Cons.prems(1) _ _ _ activity_iteration_served [of E s js w world]] by simp
  with Cons i show ?case by (auto split: loop_end.splits)
qed simp

text \<open>The turns of a worker that is connected to the engine, each under its own environment.\<close>

definition connected_turns :: "(string \<Rightarrow> string option) \<Rightarrow> sess turn list \<Rightarrow> bool" where
  "connected_turns U ts \<longleftrightarrow> (\<forall>t \<in> set ts. \<exists>E. serial E \<and> uuid_ok E \<and> e_uuid E = U \<and>
     (t = WorkflowTurn (connect E) \<or> t = ActivityTurn (connect E)))"

lemma Run_reachable:
  assumes "reachable U numbering_ok s" and "connected_turns U ts"
  shows "reachable U numbering_ok (fst (snd (Run js ts w (s, world))))"
  using assms
proof (induction ts arbitrary: s world)
  case (Cons t ts)
  from Cons.prems(2) obtain E where E: "\<forall>E' \<in> set [E]. serial E' \<and> uuid_ok E' \<and> e_uuid E' = U"
    and t: "t = WorkflowTurn (connect E) \<or> t = ActivityTurn (connect E)" by (auto simp: connected_turns_def)
  have ts: "connected_turns U ts" using Cons.prems(2) by (simp add: connected_turns_def)
  obtain r s1 where w: "pollWorkflowTasks js [connect E] w s = (r, s1)" by fastforce
  obtain r' s2 world2 where a: "pollActivityTasks js [connect E] w (s, world) = (r', s2, world2)"
    using prod_cases3 by blast
  from workflow_loop_reachable [OF Cons.prems(1) E, of js w] w have s1: "reachable U numbering_ok s1"
    by (simp only: list.map snd_conv)
  from activity_loop_reachable [OF Cons.prems(1) E, of js w world] a have s2: "reachable U numbering_ok s2"
    by (simp only: list.map fst_conv snd_conv)
  from t w a Cons.IH [OF s1 ts] Cons.IH [OF s2 ts] s1 s2 show ?case
    by (auto simp del: pollWorkflowTasks.simps pollActivityTasks.simps split: option.splits)
qed simp

end
