(* ===== verification/Conservation.thy ===== *)
theory Conservation
  imports Invariants
begin

text \<open>
  Conservation laws of durable execution. Nothing a workflow has started is lost or done twice:
  every scheduled activity is either a task in the queue or an event of its outcome, and every
  started timer is a row that has fired exactly if the history says so. The counts are taken per
  run and per activity (name and index) or timer index.
\<close>

section \<open>Counting\<close>

definition activity_events :: "string \<Rightarrow> string \<Rightarrow> string \<Rightarrow> string \<Rightarrow> i32 \<Rightarrow> Event list \<Rightarrow> nat" where
  "activity_events ty wid u name i es = length (filter (\<lambda>e. ev_EventType e = ty \<and> is_event_of wid u e \<and>
     ev_ActivityName e = name \<and> ev_ActivityIndex e = i) es)"

definition activity_tasks :: "string \<Rightarrow> string \<Rightarrow> string \<Rightarrow> i32 \<Rightarrow> Task list \<Rightarrow> nat" where
  "activity_tasks wid u name i ts = length (filter (\<lambda>t. t_TaskType t = ''activity'' \<and> t_WorkflowID t = wid \<and>
     t_RunID t = u \<and> t_ActivityName t = name \<and> t_ActivityIndex t = i) ts)"

definition timer_events :: "string \<Rightarrow> string \<Rightarrow> string \<Rightarrow> i32 \<Rightarrow> Event list \<Rightarrow> nat" where
  "timer_events ty wid u i es = length (filter (\<lambda>e. ev_EventType e = ty \<and> is_event_of wid u e \<and> ev_TimerIndex e = i) es)"

definition run_timers :: "(Timer \<Rightarrow> bool) \<Rightarrow> string \<Rightarrow> string \<Rightarrow> i32 \<Rightarrow> Timer list \<Rightarrow> nat" where
  "run_timers P wid u i ts = length (filter (\<lambda>t. P t \<and> tm_WorkflowID t = wid \<and> tm_RunID t = u \<and> tm_TimerIndex t = i) ts)"

definition activities_balanced :: "tables \<Rightarrow> bool" where
  "activities_balanced T \<longleftrightarrow> (\<forall>wid u name i.
     activity_events ''ActivityScheduled'' wid u name i (events T) =
       activity_tasks wid u name i (tasks T) + activity_events ''ActivityCompleted'' wid u name i (events T) +
       activity_events ''ActivityFailed'' wid u name i (events T))"

definition timers_balanced :: "tables \<Rightarrow> bool" where
  "timers_balanced T \<longleftrightarrow> (\<forall>wid u i.
     timer_events ''TimerStarted'' wid u i (events T) = run_timers (\<lambda>_. True) wid u i (timers T) \<and>
     timer_events ''TimerFired'' wid u i (events T) = run_timers tm_Fired wid u i (timers T))"

lemma count_simps [simp]:
  "activity_events ty wid u name i [] = 0"
  "activity_events ty wid u name i (e # es) = activity_events ty wid u name i es +
     (if ev_EventType e = ty \<and> is_event_of wid u e \<and> ev_ActivityName e = name \<and> ev_ActivityIndex e = i then 1 else 0)"
  "activity_events ty wid u name i (es @ es') = activity_events ty wid u name i es + activity_events ty wid u name i es'"
  "activity_tasks wid u name i [] = 0"
  "activity_tasks wid u name i (t # ts) = activity_tasks wid u name i ts + (if t_TaskType t = ''activity'' \<and>
     t_WorkflowID t = wid \<and> t_RunID t = u \<and> t_ActivityName t = name \<and> t_ActivityIndex t = i then 1 else 0)"
  "activity_tasks wid u name i (ts @ ts') = activity_tasks wid u name i ts + activity_tasks wid u name i ts'"
  "timer_events ty wid u i [] = 0"
  "timer_events ty wid u i (e # es) = timer_events ty wid u i es +
     (if ev_EventType e = ty \<and> is_event_of wid u e \<and> ev_TimerIndex e = i then 1 else 0)"
  "timer_events ty wid u i (es @ es') = timer_events ty wid u i es + timer_events ty wid u i es'"
  "run_timers P wid u i [] = 0"
  "run_timers P wid u i (tm # tms) = run_timers P wid u i tms +
     (if P tm \<and> tm_WorkflowID tm = wid \<and> tm_RunID tm = u \<and> tm_TimerIndex tm = i then 1 else 0)"
  "run_timers P wid u i (tms @ tms') = run_timers P wid u i tms + run_timers P wid u i tms'"
  by (simp_all add: activity_events_def activity_tasks_def timer_events_def run_timers_def)

text \<open>Updates of a lease do not change the kind of a task.\<close>

lemma activity_tasks_map:
  assumes "\<And>t. t_TaskType (f t) = t_TaskType t \<and> t_WorkflowID (f t) = t_WorkflowID t \<and> t_RunID (f t) = t_RunID t \<and>
     t_ActivityName (f t) = t_ActivityName t \<and> t_ActivityIndex (f t) = t_ActivityIndex t"
  shows "activity_tasks wid u name i (map f ts) = activity_tasks wid u name i ts"
  by (induction ts) (simp_all add: assms)

lemma activity_tasks_lease [simp]:
  "activity_tasks wid u name i (map (\<lambda>t. if P t then t\<lparr>t_LeaseOwner := a, t_LeaseExpiresAt := b\<rparr> else t) ts) =
     activity_tasks wid u name i ts"
  "activity_tasks wid u name i (map (\<lambda>t. if P t then release_lease t else t) ts) = activity_tasks wid u name i ts"
  by (rule activity_tasks_map, simp add: release_lease_def)+

lemma activity_tasks_delete_other:
  "\<forall>t \<in> set ts. t_ID t = j \<longrightarrow> t_TaskType t \<noteq> ''activity'' \<Longrightarrow>
     activity_tasks wid u name i (filter (\<lambda>t. t_ID t \<noteq> j) ts) = activity_tasks wid u name i ts"
  by (induction ts) auto

lemma activity_tasks_delete:
  "distinct (map t_ID ts) \<Longrightarrow> t \<in> set ts \<Longrightarrow>
     activity_tasks wid u name i ts = activity_tasks wid u name i (filter (\<lambda>x. t_ID x \<noteq> t_ID t) ts) +
       activity_tasks wid u name i [t]"
proof (induction ts)
  case (Cons x ts)
  show ?case
  proof (cases "x = t")
    case True
    with Cons.prems(1) have "filter (\<lambda>y. t_ID y \<noteq> t_ID t) ts = ts"
      by (auto simp: filter_id_conv) (metis imageI)
    with True show ?thesis by simp
  next
    case False
    with Cons.prems have "t_ID x \<noteq> t_ID t" "t \<in> set ts" by (auto simp: image_iff)
    with Cons show ?thesis by simp
  qed
qed simp

lemma wf_task_unique:
  assumes "wf_store U st" and "find_task j (tabs st) = Some t"
  shows "activity_tasks wid u name i (tasks (tabs st)) =
    activity_tasks wid u name i (filter (\<lambda>x. t_ID x \<noteq> j) (tasks (tabs st))) + activity_tasks wid u name i [t]"
  using activity_tasks_delete [of "tasks (tabs st)" t] wf_task [OF assms] assms(1)
  by (simp add: wf_store_def wf_tables_def)




section \<open>What the requests do to the counts\<close>

lemma command_log_counts:
  assumes "command_log E x wid rid u now es ts ms n cs ws"
  shows "activity_events ''ActivityScheduled'' w v name i (event_rows ws) = activity_tasks w v name i (task_rows ws) \<and>
    activity_events ''ActivityCompleted'' w v name i (event_rows ws) = 0 \<and>
    activity_events ''ActivityFailed'' w v name i (event_rows ws) = 0"
    and "timer_events ''TimerStarted'' w v i (event_rows ws) = run_timers (\<lambda>_. True) w v i (timer_rows ws) \<and>
    timer_events ''TimerFired'' w v i (event_rows ws) = 0 \<and> run_timers tm_Fired w v i (timer_rows ws) = 0"
  using assms
proof (induction cs arbitrary: es ts ms n ws)
  case (Cons c cs)
  {
    case 1
    then show ?case
      by (auto simp: Let_def command_defs is_event_of_def zero_Event_def zero_Task_def split: if_split_asm dest!: Cons.IH(1))
  next
    case 2
    then show ?case
      by (auto simp: Let_def command_defs is_event_of_def zero_Event_def zero_Timer_def split: if_split_asm dest!: Cons.IH(2))
  }
qed simp_all

lemma fired_log_counts:
  assumes "fired_log E T now es ts tms ws"
  shows "ty \<noteq> ''TimerFired'' \<Longrightarrow> activity_events ty w v name i (event_rows ws) = 0"
    and "ty \<noteq> ''TimerFired'' \<Longrightarrow> timer_events ty w v j (event_rows ws) = 0"
    and "activity_tasks w v name i (task_rows ws) = 0"
  using assms
proof (induction tms arbitrary: es ts ws)
  case (Cons t tms)
  {
    case 1
    then show ?case using Cons.IH(1) by (auto simp: Let_def zero_Event_def)
  next
    case 2
    then show ?case using Cons.IH(2) by (auto simp: Let_def zero_Event_def)
  next
    case 3
    then show ?case using Cons.IH(3) by (auto simp: Let_def)
  }
qed simp_all

lemma fired_log_fired:
  assumes "fired_log E T now es ts tms ws" and "\<forall>t \<in> set tms. e_uuid E (tm_RunID t) = Some (tm_RunID t)"
  shows "timer_events ''TimerFired'' w v i (event_rows ws) = run_timers (\<lambda>_. True) w v i tms"
  using assms
proof (induction tms arbitrary: es ts ws)
  case (Cons t tms)
  then show ?case by (auto simp: Let_def is_event_of_def zero_Event_def)
qed simp

section \<open>Activities\<close>

text \<open>
  The requests an SDK worker makes: it answers a task the engine gave it, a workflow task with
  commands and an activity task with an outcome, for the run the task belongs to.
\<close>

fun answers_own_task :: "env \<Rightarrow> sess \<Rightarrow> request \<Rightarrow> bool" where
  "answers_own_task E s (RRespondWorkflow req) \<longleftrightarrow> rwq_TaskId req \<le> task_seq (s_store s) \<and>
     (\<forall>t \<in> set (tasks (tabs (s_store s))). t_ID t = rwq_TaskId req \<longrightarrow> t_TaskType t \<noteq> ''activity'')"
| "answers_own_task E s (RRespondActivity req) \<longleftrightarrow>
     (\<forall>t \<in> set (tasks (tabs (s_store s))). t_ID t = rcq_TaskId req \<longrightarrow> t_TaskType t = ''activity'' \<and>
        t_WorkflowID t = rcq_WorkflowId req \<and> e_uuid E (rcq_RunId req) = Some (t_RunID t))"
| "answers_own_task E s (RFailActivity req) \<longleftrightarrow>
     (\<forall>t \<in> set (tasks (tabs (s_store s))). t_ID t = rfq_TaskId req \<longrightarrow> t_TaskType t = ''activity'' \<and>
        t_WorkflowID t = rfq_WorkflowId req \<and> e_uuid E (rfq_RunId req) = Some (t_RunID t))"
| "answers_own_task E s q \<longleftrightarrow> True"

lemma activities_balanced_delta:
  assumes "activities_balanced T" and "\<And>ty wid u name i. activity_events ty wid u name i (events T') =
      activity_events ty wid u name i (events T) + activity_events ty wid u name i es"
    and "\<And>wid u name i. activity_tasks wid u name i (tasks T') +
      activity_events ''ActivityCompleted'' wid u name i es + activity_events ''ActivityFailed'' wid u name i es =
      activity_tasks wid u name i (tasks T) + activity_events ''ActivityScheduled'' wid u name i es"
  shows "activities_balanced T'"
  unfolding activities_balanced_def
proof (intro allI)
  fix wid u name i
  show "activity_events ''ActivityScheduled'' wid u name i (events T') =
     activity_tasks wid u name i (tasks T') + activity_events ''ActivityCompleted'' wid u name i (events T') +
     activity_events ''ActivityFailed'' wid u name i (events T')"
    using assms(1)[unfolded activities_balanced_def, rule_format, of wid u name i] assms(3)[of wid u name i]
    by (simp add: assms(2))
qed

lemma activities_balanced_committed:
  assumes "committed ws a b c s s'" and "activities_balanced (tabs (s_store s))"
    and "\<And>wid u name i. activity_tasks wid u name i (tasks (apply_log ws (tabs (s_store s)))) +
      activity_events ''ActivityCompleted'' wid u name i (event_rows ws) +
      activity_events ''ActivityFailed'' wid u name i (event_rows ws) =
      activity_tasks wid u name i (tasks (tabs (s_store s))) +
      activity_events ''ActivityScheduled'' wid u name i (event_rows ws)"
  shows "activities_balanced (tabs (s_store s'))"
  by (rule activities_balanced_delta [OF assms(2), of _ "event_rows ws"])
    (use assms(1,3) in \<open>auto simp: committed_def events_apply_log\<close>)


lemma command_log_ids:
  "command_log E x wid rid u now es ts ms n cs ws \<Longrightarrow> \<forall>t \<in> set (task_rows ws). ts < t_ID t"
proof (induction cs arbitrary: es ts ms n ws)
  case (Cons c cs)
  then show ?case by (fastforce simp: Let_def split: if_split_asm dest!: Cons.IH)
qed simp

lemma StartWorkflow_activities:
  "StartWorkflow_effect E s wid wtype queue input rid s' \<Longrightarrow> activities_balanced (tabs (s_store s)) \<Longrightarrow>
     activities_balanced (tabs (s_store s'))"
  unfolding StartWorkflow_effect_def
  by (clarsimp, elim activities_balanced_committed)
    (auto simp: new_event_def new_task_def zero_Event_def zero_Task_def is_event_of_def)

lemma CompleteActivityTask_activities:
  assumes wf: "wf_store (e_uuid E) (s_store s)" and ok: "answers_own_task E s (RRespondActivity req)"
    and "CompleteActivityTask_effect E s (rcq_TaskId req) (rcq_WorkflowId req) (rcq_RunId req) result s'"
    and b: "activities_balanced (tabs (s_store s))"
  shows "activities_balanced (tabs (s_store s'))"
  using assms(3) unfolding CompleteActivityTask_effect_def
proof (elim exE conjE)
  fix t x u v
  assume t: "find_task (rcq_TaskId req) (tabs (s_store s)) = Some t" and u: "e_uuid E (rcq_RunId req) = Some u"
  note tt = wf_task [OF wf t]
  from ok tt u have own: "t_TaskType t = ''activity''" "t_WorkflowID t = rcq_WorkflowId req" "t_RunID t = u" by auto
  show "activities_balanced (tabs (s_store s'))" if "committed [new_event E s u
       (zero_Event\<lparr>ev_WorkflowID := rcq_WorkflowId req, ev_RunID := rcq_RunId req,
          ev_EventID := next_event_id (rcq_WorkflowId req) u (tabs (s_store s)), ev_EventType := ''ActivityCompleted'',
          ev_ActivityName := t_ActivityName t, ev_ActivityIndex := t_ActivityIndex t, ev_Data := result\<rparr>),
      DeleteTask (rcq_TaskId req),
      new_task E s v (replay_task x (we_WorkflowID x) (we_RunID x) (next_event_id (rcq_WorkflowId req) u (tabs (s_store s))))]
     1 1 0 s s'"
    by (rule activities_balanced_committed [OF that b])
      (simp add: new_event_def new_task_def zero_Event_def is_event_of_def wf_task_unique [OF wf t] own)
qed

lemma FailActivityTask_activities:
  assumes wf: "wf_store (e_uuid E) (s_store s)" and ok: "answers_own_task E s (RFailActivity req)"
    and eff: "request_effect (RFailActivity req) E s s'" and b: "activities_balanced (tabs (s_store s))"
  shows "activities_balanced (tabs (s_store s'))"
proof -
  from eff obtain t where t: "find_task (rfq_TaskId req) (tabs (s_store s)) = Some t" and
    eff: "if sint (t_Attempt t) < sint (t_MaxAttempts t) then RetryActivityTask_effect E s (rfq_TaskId req) t s'
      else ExhaustActivityTask_effect E s (rfq_TaskId req) (rfq_WorkflowId req) (rfq_RunId req) (rfq_Error req) t s'" by auto
  note tt = wf_task [OF wf t]
  have own: "t_TaskType t = ''activity''" "t_WorkflowID t = rfq_WorkflowId req" "e_uuid E (rfq_RunId req) = Some (t_RunID t)"
    using ok tt by auto
  show ?thesis
  proof (cases "sint (t_Attempt t) < sint (t_MaxAttempts t)")
    case True
    with eff have "RetryActivityTask_effect E s (rfq_TaskId req) t s'" by simp
    then show ?thesis unfolding RetryActivityTask_effect_def
      by (clarsimp, elim activities_balanced_committed [OF _ b])
        (simp add: new_task_def zero_Task_def wf_task_unique [OF wf t] own tt)
  next
    case False
    with eff have "ExhaustActivityTask_effect E s (rfq_TaskId req) (rfq_WorkflowId req) (rfq_RunId req) (rfq_Error req) t s'" by simp
    then show ?thesis unfolding ExhaustActivityTask_effect_def own(3)
      by (clarsimp, elim activities_balanced_committed [OF _ b])
        (simp add: new_event_def new_task_def zero_Event_def is_event_of_def wf_task_unique [OF wf t] own)
  qed
qed


lemma CompleteWorkflowTask_activities:
  assumes ok: "answers_own_task E s (RRespondWorkflow req)"
    and eff: "CompleteWorkflowTask_effect E s (rwq_TaskId req) wid rid cs s'"
    and b: "activities_balanced (tabs (s_store s))"
  shows "activities_balanced (tabs (s_store s'))"
proof -
  have other: "activity_tasks w v name i (filter (\<lambda>t. t_ID t \<noteq> rwq_TaskId req) (tasks (tabs (s_store s)))) =
      activity_tasks w v name i (tasks (tabs (s_store s)))" for w v name i
    using ok by (intro activity_tasks_delete_other) auto
  from eff obtain u x where
    eff: "if we_Status x \<noteq> ''Running'' then committed [DeleteTask (rwq_TaskId req)] 0 0 0 s s'
        else (\<exists>ws. command_log E x wid rid u (begin_now E s) (event_seq (s_store s)) (task_seq (s_store s))
             (timer_seq (s_store s)) (next_event_id wid u (tabs (s_store s))) cs ws \<and>
           committed (ws @ [DeleteTask (rwq_TaskId req)]) (int (length (filter known_command cs)))
             (int (count_type ''ScheduleActivity'' cs)) (int (count_type ''StartTimer'' cs)) s s')"
    unfolding CompleteWorkflowTask_effect_def by blast
  show ?thesis
  proof (cases "we_Status x = ''Running''")
    case False
    with eff have "committed [DeleteTask (rwq_TaskId req)] 0 0 0 s s'" by simp
    from activities_balanced_committed [OF this b] show ?thesis by (simp add: other)
  next
    case True
    with eff obtain ws where ws: "command_log E x wid rid u (begin_now E s) (event_seq (s_store s))
        (task_seq (s_store s)) (timer_seq (s_store s)) (next_event_id wid u (tabs (s_store s))) cs ws"
      and c: "committed (ws @ [DeleteTask (rwq_TaskId req)]) (int (length (filter known_command cs)))
             (int (count_type ''ScheduleActivity'' cs)) (int (count_type ''StartTimer'' cs)) s s'" by auto
    have "filter (\<lambda>t. t_ID t \<noteq> rwq_TaskId req) (task_rows ws) = task_rows ws"
      using command_log_ids [OF ws] ok by (auto simp: filter_id_conv)
    with command_log_counts(1) [OF ws] command_log_tables [OF ws] show ?thesis
      by (intro activities_balanced_committed [OF c b]) (simp add: other)
  qed
qed

lemma ScanTimers_activities:
  assumes wf: "wf_store (e_uuid E) (s_store s)" and "ScanTimers_effect E s tms s'"
    and b: "activities_balanced (tabs (s_store s))"
  shows "activities_balanced (tabs (s_store s'))"
proof -
  from assms(2) obtain ws where due: "due_timers E s tms"
    and f: "fired_log E (tabs (s_store s)) (begin_now E s) (event_seq (s_store s)) (task_seq (s_store s)) tms ws"
    and c: "committed ws (int (length tms)) (int (length tms)) 0 s s'"
    unfolding ScanTimers_effect_def by blast
  have u: "\<forall>t \<in> set tms. e_uuid E (tm_RunID t) = Some (tm_RunID t)"
    using wf_timers [OF wf] due_timers_select(1) [OF due] by blast
  from fired_log_tables [OF f u] fired_log_counts [OF f] show ?thesis
    by (intro activities_balanced_committed [OF c b]) simp
qed

lemma SignalWorkflow_activities:
  "SignalWorkflow_effect E s wid rid name input s' \<Longrightarrow> activities_balanced (tabs (s_store s)) \<Longrightarrow>
     activities_balanced (tabs (s_store s'))"
  unfolding SignalWorkflow_effect_def
  by (auto simp: signal_event_def zero_Event_def is_event_of_def wakeup_row_def split: if_split_asm
      elim!: activities_balanced_committed)

lemma lease_activities:
  "PollTask_effect E s q ty owner t s' \<Longrightarrow> activities_balanced (tabs (s_store s)) \<Longrightarrow> activities_balanced (tabs (s_store s'))"
  "committed [ReclaimLeases now] a b c s s' \<Longrightarrow> activities_balanced (tabs (s_store s)) \<Longrightarrow> activities_balanced (tabs (s_store s'))"
  unfolding PollTask_effect_def by (elim conjE activities_balanced_committed; simp)+

interpretation activities: request_invariant answers_own_task activities_balanced
proof
  show "activities_balanced (tabs init_store)" by (simp add: activities_balanced_def init_store_def)
next
  fix E :: env and s s' q
  assume "serial E" and wf: "wf_store (e_uuid E) (s_store s)" and ok: "answers_own_task E s q"
    and b: "activities_balanced (tabs (s_store s))" and eff: "request_effect q E s s'"
  then show "activities_balanced (tabs (s_store s'))"
  proof (cases q)
    case (RFailActivity req)
    with FailActivityTask_activities [OF wf] ok eff b show ?thesis by blast
  qed (auto intro: StartWorkflow_activities CompleteWorkflowTask_activities CompleteActivityTask_activities [OF wf]
      ScanTimers_activities [OF wf] SignalWorkflow_activities lease_activities simp del: answers_own_task.simps)
qed


section \<open>Timers\<close>

lemma length_filter_Un:
  "(\<And>x. x \<in> set xs \<Longrightarrow> \<not> (P x \<and> Q x)) \<Longrightarrow>
     length (filter (\<lambda>x. P x \<or> Q x) xs) = length (filter P xs) + length (filter Q xs)"
  by (induction xs) auto

lemma run_timers_mark_fired:
  assumes d: "distinct (map tm_ID ts)" and sub: "set tms \<subseteq> set ts" and dt: "distinct tms"
    and unfired: "\<forall>t \<in> set tms. \<not> tm_Fired t"
  shows "run_timers tm_Fired w v i (map (mark_fired (tm_ID ` set tms)) ts) =
      run_timers tm_Fired w v i ts + run_timers (\<lambda>_. True) w v i tms"
    and "run_timers (\<lambda>_. True) w v i (map (mark_fired (tm_ID ` set tms)) ts) = run_timers (\<lambda>_. True) w v i ts"
proof -
  define K where "K t \<longleftrightarrow> tm_WorkflowID t = w \<and> tm_RunID t = v \<and> tm_TimerIndex t = i" for t :: Timer
  have mem: "tm_ID t \<in> tm_ID ` set tms \<longleftrightarrow> t \<in> set tms" if "t \<in> set ts" for t
    using that sub distinct_map_eqD [OF d] by (auto simp: image_iff)
  have fields: "tm_WorkflowID (mark_fired A t) = tm_WorkflowID t" "tm_RunID (mark_fired A t) = tm_RunID t"
    "tm_TimerIndex (mark_fired A t) = tm_TimerIndex t" "tm_Fired (mark_fired A t) \<longleftrightarrow> tm_ID t \<in> A \<or> tm_Fired t" for A t
    by (simp_all add: mark_fired_def)
  have "distinct ts" using d by (simp add: distinct_map)
  then have "distinct (filter (\<lambda>t. t \<in> set tms \<and> K t) ts)" by simp
  moreover have "set (filter (\<lambda>t. t \<in> set tms \<and> K t) ts) = set (filter K tms)" using sub by auto
  ultimately have count: "length (filter (\<lambda>t. t \<in> set tms \<and> K t) ts) = length (filter K tms)"
    using dt by (metis distinct_card distinct_filter)
  have "length (filter (\<lambda>t. tm_Fired (mark_fired (tm_ID ` set tms) t) \<and> K t) ts) =
      length (filter (\<lambda>t. (tm_Fired t \<and> K t) \<or> (t \<in> set tms \<and> K t)) ts)"
    by (rule arg_cong [where f = length], rule filter_cong) (auto simp: fields mem)
  also have "\<dots> = length (filter (\<lambda>t. tm_Fired t \<and> K t) ts) + length (filter (\<lambda>t. t \<in> set tms \<and> K t) ts)"
    using unfired by (intro length_filter_Un) auto
  finally show "run_timers tm_Fired w v i (map (mark_fired (tm_ID ` set tms)) ts) =
      run_timers tm_Fired w v i ts + run_timers (\<lambda>_. True) w v i tms"
    by (simp add: run_timers_def filter_map comp_def fields K_def count [unfolded K_def])
  show "run_timers (\<lambda>_. True) w v i (map (mark_fired (tm_ID ` set tms)) ts) = run_timers (\<lambda>_. True) w v i ts"
    by (simp add: run_timers_def filter_map comp_def fields)
qed

lemma timers_balanced_delta:
  assumes "timers_balanced T" and "events T' = events T @ es"
    and "\<And>wid u i. run_timers (\<lambda>_. True) wid u i (timers T') =
      run_timers (\<lambda>_. True) wid u i (timers T) + timer_events ''TimerStarted'' wid u i es"
    and "\<And>wid u i. run_timers tm_Fired wid u i (timers T') =
      run_timers tm_Fired wid u i (timers T) + timer_events ''TimerFired'' wid u i es"
  shows "timers_balanced T'"
  using assms unfolding timers_balanced_def by simp

lemma timers_balanced_committed:
  assumes "committed ws a b c s s'" and "timers_balanced (tabs (s_store s))"
    and "\<And>wid u i. run_timers (\<lambda>_. True) wid u i (timers (apply_log ws (tabs (s_store s)))) =
      run_timers (\<lambda>_. True) wid u i (timers (tabs (s_store s))) + timer_events ''TimerStarted'' wid u i (event_rows ws)"
    and "\<And>wid u i. run_timers tm_Fired wid u i (timers (apply_log ws (tabs (s_store s)))) =
      run_timers tm_Fired wid u i (timers (tabs (s_store s))) + timer_events ''TimerFired'' wid u i (event_rows ws)"
  shows "timers_balanced (tabs (s_store s'))"
  by (rule timers_balanced_delta [OF assms(2), of _ "event_rows ws"])
    (use assms(1,3,4) in \<open>auto simp: committed_def events_apply_log\<close>)

lemma CompleteWorkflowTask_timers:
  assumes "CompleteWorkflowTask_effect E s j wid rid cs s'" and b: "timers_balanced (tabs (s_store s))"
  shows "timers_balanced (tabs (s_store s'))"
proof -
  from assms(1) obtain u x where
    eff: "if we_Status x \<noteq> ''Running'' then committed [DeleteTask j] 0 0 0 s s'
        else (\<exists>ws. command_log E x wid rid u (begin_now E s) (event_seq (s_store s)) (task_seq (s_store s))
             (timer_seq (s_store s)) (next_event_id wid u (tabs (s_store s))) cs ws \<and>
           committed (ws @ [DeleteTask j]) (int (length (filter known_command cs)))
             (int (count_type ''ScheduleActivity'' cs)) (int (count_type ''StartTimer'' cs)) s s')"
    unfolding CompleteWorkflowTask_effect_def by blast
  show ?thesis
  proof (cases "we_Status x = ''Running''")
    case False
    with eff have "committed [DeleteTask j] 0 0 0 s s'" by simp
    from timers_balanced_committed [OF this b] show ?thesis by simp
  next
    case True
    with eff obtain ws where ws: "command_log E x wid rid u (begin_now E s) (event_seq (s_store s))
        (task_seq (s_store s)) (timer_seq (s_store s)) (next_event_id wid u (tabs (s_store s))) cs ws"
      and c: "committed (ws @ [DeleteTask j]) (int (length (filter known_command cs)))
             (int (count_type ''ScheduleActivity'' cs)) (int (count_type ''StartTimer'' cs)) s s'" by auto
    with command_log_counts(2) [OF ws] command_log_tables [OF ws] show ?thesis
      by (intro timers_balanced_committed [OF c b]) simp_all
  qed
qed

lemma ScanTimers_timers:
  assumes wf: "wf_store (e_uuid E) (s_store s)" and "ScanTimers_effect E s tms s'"
    and b: "timers_balanced (tabs (s_store s))"
  shows "timers_balanced (tabs (s_store s'))"
proof -
  from assms(2) obtain ws where due: "due_timers E s tms"
    and f: "fired_log E (tabs (s_store s)) (begin_now E s) (event_seq (s_store s)) (task_seq (s_store s)) tms ws"
    and c: "committed ws (int (length tms)) (int (length tms)) 0 s s'"
    unfolding ScanTimers_effect_def by blast
  note sel = due_timers_select [OF due]
  have u: "\<forall>t \<in> set tms. e_uuid E (tm_RunID t) = Some (tm_RunID t)"
    using wf_timers [OF wf] sel(1) by blast
  have d: "distinct (map tm_ID (timers (tabs (s_store s))))" using wf by (simp add: wf_store_def wf_tables_def)
  have "distinct tms" using due_timers_distinct [OF d due] by (simp add: distinct_map)
  moreover have "\<forall>t \<in> set tms. \<not> tm_Fired t" using sel(2) by (simp add: timer_due_def)
  moreover have "set tms \<subseteq> set (timers (tabs (s_store s)))" using sel(1) by blast
  ultimately show ?thesis
    using fired_log_tables [OF f u] fired_log_counts(2) [OF f] fired_log_fired [OF f u]
    by (intro timers_balanced_committed [OF c b]) (simp_all add: run_timers_mark_fired [OF d])
qed

lemma other_timers:
  assumes b: "timers_balanced (tabs (s_store s))"
  shows "StartWorkflow_effect E s wid wtype queue input rid s' \<Longrightarrow> timers_balanced (tabs (s_store s'))"
    and "CompleteActivityTask_effect E s j wid rid result s' \<Longrightarrow> timers_balanced (tabs (s_store s'))"
    and "RetryActivityTask_effect E s j t s' \<Longrightarrow> timers_balanced (tabs (s_store s'))"
    and "ExhaustActivityTask_effect E s j wid rid msg t s' \<Longrightarrow> timers_balanced (tabs (s_store s'))"
    and "SignalWorkflow_effect E s wid rid name input s' \<Longrightarrow> timers_balanced (tabs (s_store s'))"
    and "PollTask_effect E s q ty owner t s' \<Longrightarrow> timers_balanced (tabs (s_store s'))"
    and "committed [ReclaimLeases now] 0 0 0 s s' \<Longrightarrow> timers_balanced (tabs (s_store s'))"
  unfolding StartWorkflow_effect_def CompleteActivityTask_effect_def RetryActivityTask_effect_def
    ExhaustActivityTask_effect_def SignalWorkflow_effect_def PollTask_effect_def
  by (auto simp: new_event_def new_task_def signal_event_def zero_Event_def split: if_split_asm
      elim!: timers_balanced_committed [OF _ b])

interpretation timers: request_invariant "\<lambda>_ _ _. True" timers_balanced
proof
  show "timers_balanced (tabs init_store)" by (simp add: timers_balanced_def init_store_def)
next
  fix E :: env and s s' q
  assume "serial E" and wf: "wf_store (e_uuid E) (s_store s)"
    and b: "timers_balanced (tabs (s_store s))" and eff: "request_effect q E s s'"
  then show "timers_balanced (tabs (s_store s'))"
    by (cases q) (auto intro: other_timers CompleteWorkflowTask_timers ScanTimers_timers split: if_split_asm)
qed


section \<open>What a worker holds stays what it is\<close>

text \<open>The columns of a task that no statement updates.\<close>

definition task_kind :: "Task \<Rightarrow> int \<times> string \<times> string \<times> string \<times> string \<times> i32" where
  "task_kind t = (t_ID t, t_TaskType t, t_WorkflowID t, t_RunID t, t_ActivityName t, t_ActivityIndex t)"

lemma task_kinds_apply_log:
  assumes "legal U T0 K es ts ms ws"
  shows "\<forall>t \<in> set (tasks (apply_log ws T)). ts < t_ID t \<or> task_kind t \<in> task_kind ` set (tasks T)"
  using assms
proof (induction ws arbitrary: T K es ts ms)
  case (Cons w ws)
  obtain K' es' ts' ms' where l: "legal U T0 K' es' ts' ms' ws" and ts: "ts \<le> ts'" and
    ins: "\<And>t. w = InsertTaskRow t \<Longrightarrow> ts < t_ID t"
    using Cons.prems by (cases w) auto
  have "ts < t_ID t \<or> task_kind t \<in> task_kind ` set (tasks T)" if "t \<in> set (tasks (apply_write w T))" for t
    using that ins by (cases w) (auto simp: task_kind_def release_lease_def image_iff)
  moreover have "ts < t_ID t \<or> task_kind t \<in> task_kind ` set (tasks (apply_write w T))"
    if "t \<in> set (tasks (apply_log ws (apply_write w T)))" for t
    using Cons.IH [OF l, of "apply_write w T"] that ts by auto
  ultimately show ?case by (fastforce simp: task_kind_def)
qed auto

lemma engine_step_tasks:
  assumes "engine_step E s s'"
  shows "task_seq (s_store s) \<le> task_seq (s_store s') \<and> (\<forall>t \<in> set (tasks (tabs (s_store s'))).
     task_seq (s_store s) < t_ID t \<or> task_kind t \<in> task_kind ` set (tasks (tabs (s_store s))))"
  using assms
proof (cases rule: engine_step_cases)
  case (commit ws)
  with task_kinds_apply_log [OF commit(1)] show ?thesis by (simp add: committed_def)
qed (auto simp: seqs_le_def)

text \<open>A task ID that was drawn keeps its meaning: it names that task, or no task any more.\<close>

definition names_task :: "int \<Rightarrow> string \<Rightarrow> string \<Rightarrow> string \<Rightarrow> sess \<Rightarrow> bool" where
  "names_task i ty wid u s \<longleftrightarrow> i \<le> task_seq (s_store s) \<and> (\<forall>t \<in> set (tasks (tabs (s_store s))).
     t_ID t = i \<longrightarrow> t_TaskType t = ty \<and> t_WorkflowID t = wid \<and> t_RunID t = u)"

lemma names_task_step:
  assumes "engine_step E s s'" and "names_task i ty wid u s"
  shows "names_task i ty wid u s'"
  using engine_step_tasks [OF assms(1)] assms(2) by (fastforce simp: names_task_def task_kind_def)

lemma names_task_steps:
  assumes "(step U ok)\<^sup>*\<^sup>* s s'" and "reachable U ok s" and "names_task i ty wid u s"
  shows "reachable U ok s' \<and> names_task i ty wid u s'"
  using assms
proof (induction rule: rtranclp_induct)
  case (step s1 s2)
  then have r: "reachable U ok s1" "names_task i ty wid u s1" by auto
  from step.hyps(2) obtain E q where "serial E" "uuid_ok E" "e_uuid E = U" "s2 = serve q E s1" by (auto elim: stepE)
  with serve_step reachable_wf [OF r(1)] have "engine_step E s1 s2" by metis
  with names_task_step r(2) reachable.more [OF r(1) step.hyps(2)] show ?case by metis
qed auto

lemma names_task_wf:
  assumes "wf_store U (s_store s)" and "t \<in> set (tasks (tabs (s_store s)))"
  shows "names_task (t_ID t) (t_TaskType t) (t_WorkflowID t) (t_RunID t) s"
proof -
  have "t' = t" if "t' \<in> set (tasks (tabs (s_store s)))" "t_ID t' = t_ID t" for t'
    using that assms distinct_map_eqD [of t_ID "tasks (tabs (s_store s))"] by (simp add: wf_store_def wf_tables_def)
  with assms show ?thesis by (auto simp: names_task_def wf_store_def wf_tables_def)
qed

end
