(* ===== verification/Cluster.thy ===== *)
theory Cluster
  imports Loops Conservation
begin

text \<open>
  The engine with its clients and any number of SDK workers, call by call: between a worker's poll and
  its answer, others may poll, answer, start or signal workflows, the engine's loops may tick, leases
  may expire, and any process may crash. Each RPC runs to its end (what happens within one is the
  subject of \<open>Atomicity\<close>).
\<close>

section \<open>The processes\<close>

text \<open>
  What a worker has polled and not yet forgotten. A task stays held after its answer, which
  therefore may be sent any number of times, at any later time, or never.
\<close>

record ('v, 'w) cluster =
  cl_engine :: sess
  cl_workflow :: "(('v, 'w) Worker \<times> PollWorkflowTaskResponse) set"
  cl_activity :: "(('v, 'w) Worker \<times> PollActivityTaskResponse) set"

definition link :: "(string \<Rightarrow> string option) \<Rightarrow> env \<Rightarrow> bool" where
  "link U E \<longleftrightarrow> serial E \<and> uuid_ok E \<and> e_uuid E = U"

text \<open>What comes from no worker: the calls of other clients and the ticks of the engine's loops.\<close>

fun client_request :: "request \<Rightarrow> bool" where
  "client_request (RStart req) = True"
| "client_request (RSignal req) = True"
| "client_request TickReclaim = True"
| "client_request TickTimers = True"
| "client_request q = False"

text \<open>The report of an activity, as \<open>pollActivityTasks_step\<close> sends it.\<close>

fun report :: "'s engine_client \<Rightarrow> PollActivityTaskResponse \<Rightarrow> activity_action \<Rightarrow> 's \<Rightarrow> 's" where
  "report c resp (reportActivitySuccess result) s = snd (Client_RespondActivityTaskCompleted c
     (par_TaskId resp) (par_WorkflowId resp) (par_RunId resp) (Some result) s)"
| "report c resp (reportActivityFailure errMsg) s = snd (Client_RespondActivityTaskFailed c
     (par_TaskId resp) (par_WorkflowId resp) (par_RunId resp) errMsg s)"
| "report c resp act s = s"

text \<open>\<open>T\<close> says which ticks of the timer scan there are, \<open>K\<close> which workers.\<close>

inductive cluster_step ::
  "(string \<Rightarrow> string option) \<Rightarrow> 'v json \<Rightarrow> (env \<Rightarrow> sess \<Rightarrow> bool) \<Rightarrow>
     (('v, 'w) Worker \<Rightarrow> bool) \<Rightarrow> ('v, 'w) cluster \<Rightarrow> ('v, 'w) cluster \<Rightarrow> bool"
  for U js T K where
  client: "link U E \<Longrightarrow> client_request q \<Longrightarrow> (q = TickTimers \<Longrightarrow> T E (cl_engine c)) \<Longrightarrow>
     cluster_step U js T K c (c\<lparr>cl_engine := serve q E (cl_engine c)\<rparr>)"
| poll_workflow: "link U E \<Longrightarrow> K w \<Longrightarrow> Client_PollWorkflowTask (connect E) (wk_queue w) (wk_id w) (cl_engine c) = (r, s') \<Longrightarrow>
     W = (case r of Inl err \<Rightarrow> {} | Inr resp \<Rightarrow> if pwr_TaskId resp = 0 then {} else {(w, resp)}) \<Longrightarrow>
     cluster_step U js T K c (c\<lparr>cl_engine := s', cl_workflow := W \<union> cl_workflow c\<rparr>)"
| poll_activity: "link U E \<Longrightarrow> K w \<Longrightarrow> Client_PollActivityTask (connect E) (wk_queue w) (wk_id w) (cl_engine c) = (r, s') \<Longrightarrow>
     A = (case r of Inl err \<Rightarrow> {} | Inr resp \<Rightarrow> if par_TaskId resp = 0 then {} else {(w, resp)}) \<Longrightarrow>
     cluster_step U js T K c (c\<lparr>cl_engine := s', cl_activity := A \<union> cl_activity c\<rparr>)"
| answer_workflow: "link U E \<Longrightarrow> (w, resp) \<in> cl_workflow c \<Longrightarrow> executeWorkflowTask js w resp = Respond req \<Longrightarrow>
     rpc_RespondWorkflowTaskCompleted (connect E) req (cl_engine c) = (r, s') \<Longrightarrow>
     cluster_step U js T K c (c\<lparr>cl_engine := s'\<rparr>)"
| report_activity: "link U E \<Longrightarrow> (w, resp) \<in> cl_activity c \<Longrightarrow> executeActivityTask js w resp world = (act, world') \<Longrightarrow>
     cluster_step U js T K c (c\<lparr>cl_engine := report (connect E) resp act (cl_engine c)\<rparr>)"
| crash: "s_store (cl_engine c') = s_store (cl_engine c) \<Longrightarrow> cl_workflow c' \<subseteq> cl_workflow c \<Longrightarrow>
     cl_activity c' \<subseteq> cl_activity c \<Longrightarrow> cluster_step U js T K c c'"

inductive cluster_reachable ::
  "(string \<Rightarrow> string option) \<Rightarrow> 'v json \<Rightarrow> (env \<Rightarrow> sess \<Rightarrow> bool) \<Rightarrow> (('v, 'w) Worker \<Rightarrow> bool) \<Rightarrow>
     ('v, 'w) cluster \<Rightarrow> bool"
  for U js T K where
  start: "s_store s = init_store \<Longrightarrow> cluster_reachable U js T K \<lparr>cl_engine = s, cl_workflow = {}, cl_activity = {}\<rparr>"
| go_on: "cluster_reachable U js T K c \<Longrightarrow> cluster_step U js T K c c' \<Longrightarrow> cluster_reachable U js T K c'"

section \<open>What a poll returns\<close>

lemma polled_row:
  assumes "serial E" and p: "PollTask q ty owner E s = (Inr (Some t), s1)"
  shows "t \<in> set (tasks (tabs (s_store s))) \<and> t_TaskType t = ty"
proof -
  from wpD [OF wp_PollTask [OF assms(1)] p] obtain n where
    "select_pollable (e_row_locked E n) q ty (e_db_now E (s_tick s)) (tabs (s_store s)) = Some t"
    by (auto simp: PollTask_effect_def)
  from select_pollable_Some [OF this] show ?thesis by (auto simp: pollable_def)
qed

lemma polled_names_task:
  assumes "serial E" and "wf_store U (s_store s)" and "PollTask q ty owner E s = (Inr (Some t), s1)"
  shows "names_task (t_ID t) ty (t_WorkflowID t) (t_RunID t) s"
  using polled_row [OF assms(1,3)] names_task_wf [OF assms(2)] by metis

lemma polled_run_id:
  assumes "serial E" and "wf_store U (s_store s)" and "PollTask q ty owner E s = (Inr (Some t), s1)"
  shows "U (t_RunID t) = Some (t_RunID t)"
  using wf_run_uuid [OF assms(2)] polled_row [OF assms(1,3)] by blast

lemma Handler_PollActivityTask_polled:
  assumes "Handler_PollActivityTask req E s = (Inr (Some r, None), s1)" and "par_TaskId r \<noteq> 0"
  obtains t s0 where "PollTask (paq_TaskQueue req) ''activity'' (paq_LeaseOwner req) E s = (Inr (Some t), s0)"
    and "par_TaskId r = t_ID t" and "par_WorkflowId r = t_WorkflowID t" and "par_RunId r = t_RunID t"
  using assms by (auto simp: Handler_PollActivityTask_def bindM_def tryM_def returnM_def count_poll_def metricM_def
      zero_PollActivityTaskResponse_def split: prod.splits sum.splits option.splits)

lemma Handler_PollWorkflowTask_polled:
  assumes "Handler_PollWorkflowTask req E s = (Inr (Some r, None), s1)" and "pwr_TaskId r \<noteq> 0"
  obtains t s0 where "PollTask (pwq_TaskQueue req) ''workflow'' (pwq_LeaseOwner req) E s = (Inr (Some t), s0)"
    and "pwr_TaskId r = t_ID t" and "pwr_WorkflowId r = t_WorkflowID t" and "pwr_RunId r = t_RunID t"
  using assms by (auto simp: Handler_PollWorkflowTask_def bindM_def tryM_def returnM_def count_poll_def metricM_def
      zero_PollWorkflowTaskResponse_def split: prod.splits sum.splits option.splits)

text \<open>A response a client of the generated stubs sees is what the handler returned, or the zero message.\<close>

lemma call_Inr:
  assumes "call handler E zero req s = (Inr r, s')" and "r \<noteq> zero"
  shows "handler req E s = (Inr (Some r, None), s')"
  using assms by (auto simp: call_def split: prod.splits sum.splits option.splits)

lemma Client_PollActivityTask_names:
  assumes "link U E" and "wf_store U (s_store s)" and "Client_PollActivityTask (connect E) queue owner s = (Inr r, s')"
    and "par_TaskId r \<noteq> 0"
  shows "names_task (par_TaskId r) ''activity'' (par_WorkflowId r) (par_RunId r) s \<and> U (par_RunId r) = Some (par_RunId r)"
proof -
  have E: "serial E" using assms(1) by (simp add: link_def)
  have "r \<noteq> zero_PollActivityTaskResponse" using assms(4) by (auto simp: zero_PollActivityTaskResponse_def)
  with assms(3) call_Inr have "Handler_PollActivityTask \<lparr>paq_TaskQueue = queue, paq_LeaseOwner = owner\<rparr> E s = (Inr (Some r, None), s')"
    by (force simp: Client_PollActivityTask_def connect_def)
  from Handler_PollActivityTask_polled [OF this assms(4)] obtain t s0 where
    p: "PollTask queue ''activity'' owner E s = (Inr (Some t), s0)"
    and r: "par_TaskId r = t_ID t" "par_WorkflowId r = t_WorkflowID t" "par_RunId r = t_RunID t" by auto
  show ?thesis unfolding r using polled_names_task [OF E assms(2) p] polled_run_id [OF E assms(2) p] ..
qed

lemma Client_PollWorkflowTask_names:
  assumes "link U E" and "wf_store U (s_store s)" and "Client_PollWorkflowTask (connect E) queue owner s = (Inr r, s')"
    and "pwr_TaskId r \<noteq> 0"
  shows "names_task (pwr_TaskId r) ''workflow'' (pwr_WorkflowId r) (pwr_RunId r) s"
proof -
  have E: "serial E" using assms(1) by (simp add: link_def)
  have "r \<noteq> zero_PollWorkflowTaskResponse" using assms(4) by (auto simp: zero_PollWorkflowTaskResponse_def)
  with assms(3) call_Inr have "Handler_PollWorkflowTask \<lparr>pwq_TaskQueue = queue, pwq_LeaseOwner = owner\<rparr> E s = (Inr (Some r, None), s')"
    by (force simp: Client_PollWorkflowTask_def connect_def)
  from Handler_PollWorkflowTask_polled [OF this assms(4)] obtain t s0 where
    p: "PollTask queue ''workflow'' owner E s = (Inr (Some t), s0)"
    and r: "pwr_TaskId r = t_ID t" "pwr_WorkflowId r = t_WorkflowID t" "pwr_RunId r = t_RunID t" by auto
  show ?thesis unfolding r using polled_names_task [OF E assms(2) p] .
qed

section \<open>The invariant of the cluster\<close>

text \<open>The requests of the cluster, as the engine sees them.\<close>

definition cluster_ok :: "(env \<Rightarrow> sess \<Rightarrow> bool) \<Rightarrow> env \<Rightarrow> sess \<Rightarrow> request \<Rightarrow> bool" where
  "cluster_ok T E s q \<longleftrightarrow> answers_own_task E s q \<and> (client_request q \<or> worker_request q) \<and> (q = TickTimers \<longrightarrow> T E s)"

definition holds_workflow :: "sess \<Rightarrow> ('v, 'w) Worker \<times> PollWorkflowTaskResponse \<Rightarrow> bool" where
  "holds_workflow s = (\<lambda>(w, resp). names_task (pwr_TaskId resp) ''workflow'' (pwr_WorkflowId resp) (pwr_RunId resp) s)"

definition holds_activity :: "(string \<Rightarrow> string option) \<Rightarrow> sess \<Rightarrow> ('v, 'w) Worker \<times> PollActivityTaskResponse \<Rightarrow> bool" where
  "holds_activity U s = (\<lambda>(w, resp). names_task (par_TaskId resp) ''activity'' (par_WorkflowId resp) (par_RunId resp) s \<and>
     U (par_RunId resp) = Some (par_RunId resp))"

definition cluster_inv :: "(string \<Rightarrow> string option) \<Rightarrow> (env \<Rightarrow> sess \<Rightarrow> bool) \<Rightarrow> ('v, 'w) cluster \<Rightarrow> bool" where
  "cluster_inv U T c \<longleftrightarrow> reachable U (cluster_ok T) (cl_engine c) \<and>
     (\<forall>h \<in> cl_workflow c. holds_workflow (cl_engine c) h) \<and> (\<forall>h \<in> cl_activity c. holds_activity U (cl_engine c) h)"

lemma names_task_store: "s_store s' = s_store s \<Longrightarrow> names_task i ty wid u s' = names_task i ty wid u s"
  by (simp add: names_task_def)

text \<open>A request that is made keeps what the workers hold.\<close>

lemma serve_holds:
  assumes "link U E" and "reachable U ok s"
  shows "holds_workflow s h \<Longrightarrow> holds_workflow (serve q E s) h"
    and "holds_activity U s a \<Longrightarrow> holds_activity U (serve q E s) a"
proof -
  have "engine_step E s (serve q E s)"
    using serve_step assms reachable_wf [OF assms(2)] by (auto simp: link_def simp del: serve.simps)
  note keeps = names_task_step [OF this]
  show "holds_workflow s h \<Longrightarrow> holds_workflow (serve q E s) h"
    and "holds_activity U s a \<Longrightarrow> holds_activity U (serve q E s) a"
    by (auto simp: holds_workflow_def holds_activity_def intro: keeps simp del: serve.simps)
qed

lemma serve_cluster_inv:
  assumes "cluster_inv U T c" and "link U E" and "cluster_ok T E (cl_engine c) q"
    and "cl_engine c' = serve q E (cl_engine c)"
    and "\<And>h. h \<in> cl_workflow c' \<Longrightarrow> h \<in> cl_workflow c \<or> holds_workflow (cl_engine c) h"
    and "\<And>h. h \<in> cl_activity c' \<Longrightarrow> h \<in> cl_activity c \<or> holds_activity U (cl_engine c) h"
  shows "cluster_inv U T c'"
proof -
  from assms(1) have r: "reachable U (cluster_ok T) (cl_engine c)" by (simp add: cluster_inv_def)
  have "step U (cluster_ok T) (cl_engine c) (serve q E (cl_engine c))"
    using assms(2,3) by (intro step.step) (simp_all add: link_def)
  with r have "reachable U (cluster_ok T) (cl_engine c')" unfolding assms(4) by (rule reachable.more)
  moreover have "holds_workflow (cl_engine c') h" if "h \<in> cl_workflow c'" for h
    using assms(1,5) that serve_holds(1) [OF assms(2) r] unfolding assms(4) cluster_inv_def by blast
  moreover have "holds_activity U (cl_engine c') h" if "h \<in> cl_activity c'" for h
    using assms(1,6) that serve_holds(2) [OF assms(2) r] unfolding assms(4) cluster_inv_def by blast
  ultimately show ?thesis by (simp add: cluster_inv_def)
qed
text \<open>The answers of the workers are for the tasks they hold.\<close>

lemma answer_ok:
  assumes "holds_workflow s (w, resp)" and "executeWorkflowTask js w resp = Respond req"
  shows "cluster_ok T E s (RRespondWorkflow req)"
proof -
  have "rwq_TaskId req = pwr_TaskId resp" using executeWorkflowTask_Respond [OF assms(2)] by auto
  with assms(1) worker_terminal_last [OF assms(2)] show ?thesis
    by (simp add: cluster_ok_def holds_workflow_def names_task_def)
qed

lemma report_serves:
  assumes "holds_activity U s (w, resp)" and "e_uuid E = U"
  shows "report (connect E) resp act s = s \<or>
    (\<exists>q. cluster_ok T E s q \<and> report (connect E) resp act s = serve q E s)"
proof (cases act)
  case (reportActivitySuccess result)
  then show ?thesis using assms
    by (intro disjI2 exI [of _ "RRespondActivity \<lparr>rcq_TaskId = par_TaskId resp, rcq_WorkflowId = par_WorkflowId resp,
        rcq_RunId = par_RunId resp, rcq_Result = Some result\<rparr>"])
      (auto simp: cluster_ok_def holds_activity_def names_task_def Client_RespondActivityTaskCompleted_def connect_serves
        simp del: serve.simps)
next
  case (reportActivityFailure errMsg)
  then show ?thesis using assms
    by (intro disjI2 exI [of _ "RFailActivity \<lparr>rfq_TaskId = par_TaskId resp, rfq_WorkflowId = par_WorkflowId resp,
        rfq_RunId = par_RunId resp, rfq_Error = errMsg\<rparr>"])
      (auto simp: cluster_ok_def holds_activity_def names_task_def Client_RespondActivityTaskFailed_def connect_serves
        simp del: serve.simps)
qed simp_all

lemma cluster_step_inv:
  assumes "cluster_step U js T K c c'" and "cluster_inv U T c"
  shows "cluster_inv U T c'"
  using assms(1)
proof (cases rule: cluster_step.cases)
  case (client E q)
  then have "cluster_ok T E (cl_engine c) q" by (cases q) (simp_all add: cluster_ok_def)
  then show ?thesis unfolding client(1)
    by (rule serve_cluster_inv [OF assms(2) client(2)]) (simp_all del: serve.simps)
next
  case (poll_workflow E w r s' W)
  let ?q = "\<lparr>pwq_TaskQueue = wk_queue w, pwq_LeaseOwner = wk_id w\<rparr>"
  have wf: "wf_store U (s_store (cl_engine c))" using assms(2) reachable_wf by (auto simp: cluster_inv_def)
  have "s' = serve (RPollWorkflow ?q) E (cl_engine c)"
    using poll_workflow(4) connect_serves(1) [of E ?q "cl_engine c"] by (simp add: Client_PollWorkflowTask_def)
  moreover have "holds_workflow (cl_engine c) h" if "h \<in> W" for h
    using that poll_workflow(4,5) Client_PollWorkflowTask_names [OF poll_workflow(2) wf]
    by (auto simp: holds_workflow_def split: sum.splits if_splits)
  moreover have "cluster_ok T E (cl_engine c) (RPollWorkflow ?q)" by (simp add: cluster_ok_def)
  ultimately show ?thesis unfolding poll_workflow(1)
    by (intro serve_cluster_inv [OF assms(2) poll_workflow(2)]) (auto simp del: serve.simps)
next
  case (poll_activity E w r s' A)
  let ?q = "\<lparr>paq_TaskQueue = wk_queue w, paq_LeaseOwner = wk_id w\<rparr>"
  have wf: "wf_store U (s_store (cl_engine c))" using assms(2) reachable_wf by (auto simp: cluster_inv_def)
  have "s' = serve (RPollActivity ?q) E (cl_engine c)"
    using poll_activity(4) connect_serves(3) [of E ?q "cl_engine c"] by (simp add: Client_PollActivityTask_def)
  moreover have "holds_activity U (cl_engine c) h" if "h \<in> A" for h
    using that poll_activity(4,5) Client_PollActivityTask_names [OF poll_activity(2) wf]
    by (auto simp: holds_activity_def split: sum.splits if_splits)
  moreover have "cluster_ok T E (cl_engine c) (RPollActivity ?q)" by (simp add: cluster_ok_def)
  ultimately show ?thesis unfolding poll_activity(1)
    by (intro serve_cluster_inv [OF assms(2) poll_activity(2)]) (auto simp del: serve.simps)
next
  case (answer_workflow E w resp req r s')
  then have "holds_workflow (cl_engine c) (w, resp)" using assms(2) by (auto simp: cluster_inv_def)
  note ok = answer_ok [OF this answer_workflow(4)]
  have "s' = serve (RRespondWorkflow req) E (cl_engine c)"
    using answer_workflow(5) connect_serves(2) [of E req "cl_engine c"] by simp
  then show ?thesis unfolding answer_workflow(1)
    by (intro serve_cluster_inv [OF assms(2) answer_workflow(2) ok]) (simp_all del: serve.simps)
next
  case (report_activity E w resp world act world')
  then have h: "holds_activity U (cl_engine c) (w, resp)" using assms(2) by (auto simp: cluster_inv_def)
  have U: "e_uuid E = U" using report_activity(2) by (simp add: link_def)
  from report_serves [OF h U, of act T] show ?thesis unfolding report_activity(1)
  proof (elim disjE exE conjE)
    fix q assume "cluster_ok T E (cl_engine c) q" "report (connect E) resp act (cl_engine c) = serve q E (cl_engine c)"
    then show "cluster_inv U T (c\<lparr>cl_engine := report (connect E) resp act (cl_engine c)\<rparr>)"
      by (intro serve_cluster_inv [OF assms(2) report_activity(2)]) (simp_all del: serve.simps)
  qed (use assms(2) in simp)
next
  case crash
  from assms(2) have "reachable U (cluster_ok T) (cl_engine c')" using reachable.restart crash(1) by (auto simp: cluster_inv_def)
  moreover have "holds_workflow (cl_engine c') h" if "h \<in> cl_workflow c'" for h
    using assms(2) that crash(2) unfolding cluster_inv_def holds_workflow_def names_task_store [OF crash(1)] by blast
  moreover have "holds_activity U (cl_engine c') h" if "h \<in> cl_activity c'" for h
    using assms(2) that crash(3) unfolding cluster_inv_def holds_activity_def names_task_store [OF crash(1)] by blast
  ultimately show ?thesis by (simp add: cluster_inv_def)
qed

lemma cluster_invariant: "cluster_reachable U js T K c \<Longrightarrow> cluster_inv U T c"
proof (induction rule: cluster_reachable.induct)
  case (start s)
  then show ?case by (simp add: cluster_inv_def reachable.init)
qed (rule cluster_step_inv)

lemma cluster_numbering: "cluster_ok T E s q \<Longrightarrow> (\<And>E s. T E s \<Longrightarrow> single_due E s) \<Longrightarrow> numbering_ok E s q"
  by (cases q) (auto simp: cluster_ok_def)

text \<open>The invariants of the engine, for an engine in its cluster.\<close>

lemma cluster_engine:
  assumes "cluster_reachable U js T K c"
  shows "wf_store U (s_store (cl_engine c)) \<and> activities_balanced (tabs (s_store (cl_engine c))) \<and>
    timers_balanced (tabs (s_store (cl_engine c))) \<and>
    ((\<forall>E s. T E s \<longrightarrow> single_due E s) \<longrightarrow> dense (tabs (s_store (cl_engine c))))"
proof -
  from cluster_invariant [OF assms] have r: "reachable U (cluster_ok T) (cl_engine c)" by (simp add: cluster_inv_def)
  from activities.inv_reachable [OF r] have "activities_balanced (tabs (s_store (cl_engine c)))" by (simp add: cluster_ok_def)
  moreover have "dense (tabs (s_store (cl_engine c)))" if "\<forall>E s. T E s \<longrightarrow> single_due E s"
    by (rule reachable_dense [OF r]) (use that cluster_numbering in blast)
  ultimately show ?thesis using reachable_wf [OF r] timers.inv_reachable [OF r] by blast
qed

end
