(* ===== verification/InvariantProperties.thy ===== *)
theory InvariantProperties
  imports Samples Cluster
begin

text \<open>
  The conservation laws of the reachable states, and why the workers of the SDK keep to the
  discipline they rest on.
\<close>

text \<open>
  C11: in every state reached while each task is answered for what it is, a run
  has, for each activity name and call index, as many \<open>ActivityScheduled\<close> events as it has activity
  tasks, \<open>ActivityCompleted\<close> and \<open>ActivityFailed\<close> events together. No crash, retry, expired lease
  or failed transaction loses a scheduled activity or counts its outcome twice.
\<close>

theorem activities_conserved:
  assumes "reachable U answers_own_task s"
  shows "activity_events ''ActivityScheduled'' wid u name i (events (tabs (s_store s))) =
    activity_tasks wid u name i (tasks (tabs (s_store s))) +
    activity_events ''ActivityCompleted'' wid u name i (events (tabs (s_store s))) +
    activity_events ''ActivityFailed'' wid u name i (events (tabs (s_store s)))"
  using activities.inv_reachable [OF assms] by (simp add: activities_balanced_def)

definition sample_schedule_request :: RespondWorkflowTaskCompletedRequest where
  "sample_schedule_request = \<lparr>rwq_TaskId = 1, rwq_WorkflowId = ''w'', rwq_RunId = sample_run,
     rwq_Commands = [zero_pbCommand\<lparr>pc_Type := ''ScheduleActivity'', pc_ActivityName := ''A'', pc_TaskQueue := ''q''\<rparr>,
       zero_pbCommand\<lparr>pc_Type := ''StartTimer'', pc_DurationMs := 5\<rparr>]\<rparr>"

definition sample_busy :: sess where
  "sample_busy = serve (RRespondWorkflow sample_schedule_request) sample_env sample_started"

lemma sample_busy_reachable:
  assumes "ok sample_env sample_init (RStart sample_start)"
    and "ok sample_env sample_started (RRespondWorkflow sample_schedule_request)"
  shows "reachable (e_uuid sample_env) ok sample_busy"
  unfolding sample_busy_def
  by (rule reachable.more [OF sample_started_reachable [of ok, OF assms(1)]], rule step.step) (use assms(2) in simp_all)

lemma sample_schedule_ok: "answers_own_task sample_env sample_started (RRespondWorkflow sample_schedule_request)"
  by code_simp

theorem activities_conserved_witness:
  "activity_events ''ActivityScheduled'' ''w'' sample_run ''A'' 0 (events (tabs (s_store sample_busy))) = 1 \<and>
   activity_tasks ''w'' sample_run ''A'' 0 (tasks (tabs (s_store sample_busy))) = 1"
proof -
  have "reachable (e_uuid sample_env) answers_own_task sample_busy"
    by (rule sample_busy_reachable [where ok = answers_own_task]) (simp, rule sample_schedule_ok)
  from activities_conserved [OF this, of "''w''" sample_run "''A''" 0]
  have "activity_events ''ActivityScheduled'' ''w'' sample_run ''A'' 0 (events (tabs (s_store sample_busy))) =
      activity_tasks ''w'' sample_run ''A'' 0 (tasks (tabs (s_store sample_busy))) +
      activity_events ''ActivityCompleted'' ''w'' sample_run ''A'' 0 (events (tabs (s_store sample_busy))) +
      activity_events ''ActivityFailed'' ''w'' sample_run ''A'' 0 (events (tabs (s_store sample_busy)))" .
  moreover have "activity_events ''ActivityScheduled'' ''w'' sample_run ''A'' 0 (events (tabs (s_store sample_busy))) = 1"
    "activity_events ''ActivityCompleted'' ''w'' sample_run ''A'' 0 (events (tabs (s_store sample_busy))) = 0"
    "activity_events ''ActivityFailed'' ''w'' sample_run ''A'' 0 (events (tabs (s_store sample_busy))) = 0" by code_simp+
  ultimately show ?thesis by simp
qed

text \<open>
  C12: in every reachable state, a run has for each timer index as many \<open>TimerStarted\<close>
  events as timer rows and as many \<open>TimerFired\<close> events as rows marked fired; a started timer is
  never lost and never fires twice, whatever requests were made and whatever failed.
\<close>

theorem timers_conserved:
  assumes "reachable U ok s"
  shows "timer_events ''TimerStarted'' wid u i (events (tabs (s_store s))) =
      run_timers (\<lambda>_. True) wid u i (timers (tabs (s_store s))) \<and>
    timer_events ''TimerFired'' wid u i (events (tabs (s_store s))) =
      run_timers tm_Fired wid u i (timers (tabs (s_store s)))"
  using timers.inv_reachable [OF assms] by (simp add: timers_balanced_def)

theorem timers_conserved_witness:
  "run_timers (\<lambda>_. True) ''w'' sample_run 0 (timers (tabs (s_store sample_busy))) = 1 \<and>
   run_timers tm_Fired ''w'' sample_run 0 (timers (tabs (s_store sample_busy))) = 0"
proof -
  have "timer_events ''TimerStarted'' ''w'' sample_run 0 (events (tabs (s_store sample_busy))) = 1"
    "timer_events ''TimerFired'' ''w'' sample_run 0 (events (tabs (s_store sample_busy))) = 0" by code_simp+
  with timers_conserved [OF sample_busy_reachable [of "\<lambda>_ _ _. True"], of "''w''" sample_run 0] show ?thesis by simp
qed

section \<open>The discipline of the workers\<close>

lemma serve_names_task:
  assumes "reachable U ok s" "serial E" "uuid_ok E" "e_uuid E = U" "ok E s q"
    and "names_task i ty wid u s" and "(step U ok)\<^sup>*\<^sup>* (serve q E s) s2"
  shows "names_task i ty wid u s2"
proof -
  have "(step U ok)\<^sup>*\<^sup>* s s2"
    using step.step [of E U ok s q] assms(2-5,7) by (meson converse_rtranclp_into_rtranclp)
  from names_task_steps [OF this assms(1,6)] show ?thesis ..
qed

lemma polled_workflow_task_answerable:
  assumes "reachable U ok s" and "serial E" and "uuid_ok E" and "e_uuid E = U"
    and "ok E s (RPollWorkflow req)" and "Handler_PollWorkflowTask req E s = (Inr (Some r, None), s1)"
    and "pwr_TaskId r \<noteq> 0" and "(step U ok)\<^sup>*\<^sup>* s1 s2"
  shows "answers_own_task E' s2 (RRespondWorkflow \<lparr>rwq_TaskId = pwr_TaskId r, rwq_WorkflowId = pwr_WorkflowId r,
    rwq_RunId = pwr_RunId r, rwq_Commands = cs\<rparr>)"
proof -
  from Handler_PollWorkflowTask_polled [OF assms(6,7)] obtain t s0 where
    p: "PollTask (pwq_TaskQueue req) ''workflow'' (pwq_LeaseOwner req) E s = (Inr (Some t), s0)"
    and r: "pwr_TaskId r = t_ID t" .
  have "names_task (t_ID t) ''workflow'' (t_WorkflowID t) (t_RunID t) s2"
    using serve_names_task [OF assms(1-5) polled_names_task [OF assms(2) reachable_wf [OF assms(1)] p]] assms(6,8) by simp
  with r show ?thesis by (simp add: names_task_def)
qed

text \<open>
  What a poll returned stays a valid answer: whenever later a worker
  reports the outcome of a polled activity task with the task ID, workflow ID and run ID of the
  poll, the report is for the task that was polled, in the run it belongs to, or for no task any
  more. So the workers of the SDK, which answer with just these, keep the discipline under which
  activities are conserved.
\<close>

lemma polled_task_answerable:
  assumes "reachable U ok s" and "serial E" and "uuid_ok E" and "e_uuid E = U" and "e_uuid E' = U"
    and "ok E s (RPollActivity req)" and "Handler_PollActivityTask req E s = (Inr (Some r, None), s1)"
    and "par_TaskId r \<noteq> 0" and "(step U ok)\<^sup>*\<^sup>* s1 s2"
  shows "answers_own_task E' s2 (RRespondActivity \<lparr>rcq_TaskId = par_TaskId r, rcq_WorkflowId = par_WorkflowId r,
      rcq_RunId = par_RunId r, rcq_Result = result\<rparr>) \<and>
    answers_own_task E' s2 (RFailActivity \<lparr>rfq_TaskId = par_TaskId r, rfq_WorkflowId = par_WorkflowId r,
      rfq_RunId = par_RunId r, rfq_Error = msg\<rparr>)"
proof -
  note wf = reachable_wf [OF assms(1)]
  from Handler_PollActivityTask_polled [OF assms(7,8)] obtain t s0 where
    p: "PollTask (paq_TaskQueue req) ''activity'' (paq_LeaseOwner req) E s = (Inr (Some t), s0)"
    and r: "par_TaskId r = t_ID t" "par_WorkflowId r = t_WorkflowID t" "par_RunId r = t_RunID t" .
  have "names_task (t_ID t) ''activity'' (t_WorkflowID t) (t_RunID t) s2"
    using serve_names_task [OF assms(1-4,6) polled_names_task [OF assms(2) wf p]] assms(7,9) by simp
  with r polled_run_id [OF assms(2) wf p] assms(5) show ?thesis by (simp add: names_task_def)
qed

end
