(* ===== verification/Executions.thy ===== *)
theory Executions
  imports Conservation
begin

text \<open>
  The executions of one workflow ID. No constraint of the schema keeps two executions of one
  workflow ID from running at once: \<open>StartWorkflow\<close> looks at the latest execution only, by its
  start time. The theory shows that this is enough when the database clock has advanced since
  the executions it compares were started.
\<close>

definition one_running :: "tables \<Rightarrow> bool" where
  "one_running T \<longleftrightarrow> (\<forall>x \<in> set (executions T). \<forall>y \<in> set (executions T). we_Status x = ''Running'' \<longrightarrow>
     we_WorkflowID y = we_WorkflowID x \<longrightarrow> run_key y = run_key x \<or> we_StartedAt y < we_StartedAt x)"

text \<open>A start comes at a later instant than the starts of all executions of its workflow ID.\<close>

fun clock_advances :: "env \<Rightarrow> sess \<Rightarrow> request \<Rightarrow> bool" where
  "clock_advances E s (RStart req) \<longleftrightarrow> (\<forall>x \<in> set (executions (tabs (s_store s))).
     we_WorkflowID x = swq_WorkflowId req \<longrightarrow> we_StartedAt x < begin_now E s)"
| "clock_advances E s q \<longleftrightarrow> True"

text \<open>The running execution is then the one the lookup finds, in whatever order rows come.\<close>

lemma latest_execution_running:
  assumes "one_running T" and "x \<in> set (executions T)" and "we_Status x = ''Running''"
    and "distinct (map run_key (executions T))"
  shows "latest_execution r (we_WorkflowID x) T = Some x"
proof -
  let ?xs = "filter (\<lambda>y. we_WorkflowID y = we_WorkflowID x) (executions T)"
  let ?sorted = "sort_key (\<lambda>y. - we_StartedAt y) (heap_order r ?xs)"
  have set: "set ?sorted = set ?xs" by simp
  have "x \<in> set ?sorted" using assms(2) by (simp only: set) simp
  then obtain y ys where ys: "?sorted = y # ys" by (cases ?sorted) auto
  have "sorted (map (\<lambda>y. - we_StartedAt y) ?sorted)" by (rule sorted_sort_key)
  with ys \<open>x \<in> set ?sorted\<close> have "we_StartedAt x \<le> we_StartedAt y" by auto
  moreover have "y \<in> set ?xs" using set ys by (metis list.set_intros(1))
  ultimately have "y \<in> set (executions T)" "run_key y = run_key x" using assms(1-3) by (force simp: one_running_def)+
  then have "y = x" using distinct_map_eqD [OF assms(4)] assms(2) by blast
  with ys show ?thesis by (simp add: latest_execution_def)
qed

text \<open>The other requests only close executions.\<close>

definition closes :: "WorkflowExecution list \<Rightarrow> WorkflowExecution list \<Rightarrow> bool" where
  "closes xs ys \<longleftrightarrow> list_all2 (\<lambda>x y. identity_of y = identity_of x \<and> (we_Status y = ''Running'' \<longrightarrow> y = x)) xs ys"

lemma closes_refl [simp]: "closes xs xs"
  by (simp add: closes_def list.rel_refl)

lemma closes_trans: "closes xs ys \<Longrightarrow> closes ys zs \<Longrightarrow> closes xs zs"
  unfolding closes_def by (rule list_all2_trans [of _ _ _ xs ys zs]) auto

lemma closes_set_status:
  "st \<in> {''Completed'', ''Failed''} \<Longrightarrow> closes xs (map (\<lambda>x. if R x then set_status st now x else x) xs)"
  by (auto simp: closes_def list_all2_map2 set_status_def identity_of_def intro: list_all2_refl)

lemma closes_commands: "closes xs (fold (close_execution wid u now) (map terminal_status cs) xs)"
proof (induction cs arbitrary: xs)
  case (Cons c cs)
  have "closes xs (close_execution wid u now (terminal_status c) xs)"
    unfolding close_execution_def by (rule closes_set_status) (simp add: terminal_status_def)
  with Cons show ?case by (auto intro: closes_trans)
qed simp

lemma closes_origin:
  assumes "closes xs ys" and "y \<in> set ys"
  shows "\<exists>x \<in> set xs. identity_of y = identity_of x \<and> (we_Status y = ''Running'' \<longrightarrow> y = x)"
  using assms unfolding closes_def by (induction rule: list_all2_induct) auto

lemma closes_one_running:
  assumes "closes (executions T) (executions T')" and "one_running T"
  shows "one_running T'"
  unfolding one_running_def
proof (intro ballI impI)
  fix x' y'
  assume "x' \<in> set (executions T')" and "y' \<in> set (executions T')" and st: "we_Status x' = ''Running''"
    and wid: "we_WorkflowID y' = we_WorkflowID x'"
  with closes_origin [OF assms(1)] obtain y where "x' \<in> set (executions T)" "y \<in> set (executions T)"
    "identity_of y' = identity_of y" by metis
  with assms(2) st wid show "run_key y' = run_key x' \<or> we_StartedAt y' < we_StartedAt x'"
    by (auto simp: one_running_def identity_of_def run_key_def)
qed

lemma StartWorkflow_one_running:
  assumes wf: "wf_store (e_uuid E) (s_store s)" and ok: "clock_advances E s (RStart req)"
    and eff: "StartWorkflow_effect E s (swq_WorkflowId req) wtype queue input rid s'"
    and inv: "one_running (tabs (s_store s))"
  shows "one_running (tabs (s_store s'))"
proof -
  let ?wid = "swq_WorkflowId req" and ?T = "tabs (s_store s)"
  from eff obtain u where latest: "latest_not_running E ?wid ?T" and
    ex: "executions (tabs (s_store s')) = executions ?T @ [zero_WorkflowExecution\<lparr>we_WorkflowID := ?wid, we_RunID := u,
            we_WorkflowType := wtype, we_TaskQueue := queue, we_Status := ''Running'',
            we_StartedAt := begin_now E s, we_ClosedAt := None\<rparr>]"
    by (auto simp: StartWorkflow_effect_def committed_def new_event_def new_task_def)
  from wf have "distinct (map run_key (executions ?T))" by (simp add: wf_store_def wf_tables_def)
  from latest_execution_running [OF inv _ _ this] latest
  have "\<forall>x \<in> set (executions ?T). we_WorkflowID x = ?wid \<longrightarrow> we_Status x \<noteq> ''Running''"
    by (metis latest_not_running_def)
  with inv ok show ?thesis by (auto simp: one_running_def ex)
qed

lemma other_executions:
  "CompleteActivityTask_effect E s j wid rid result s' \<Longrightarrow> executions (tabs (s_store s')) = executions (tabs (s_store s))"
  "RetryActivityTask_effect E s j t s' \<Longrightarrow> executions (tabs (s_store s')) = executions (tabs (s_store s))"
  "ExhaustActivityTask_effect E s j wid rid msg t s' \<Longrightarrow> executions (tabs (s_store s')) = executions (tabs (s_store s))"
  "SignalWorkflow_effect E s wid rid name input s' \<Longrightarrow> executions (tabs (s_store s')) = executions (tabs (s_store s))"
  "PollTask_effect E s q ty owner t s' \<Longrightarrow> executions (tabs (s_store s')) = executions (tabs (s_store s))"
  "committed [ReclaimLeases now] 0 0 0 s s' \<Longrightarrow> executions (tabs (s_store s')) = executions (tabs (s_store s))"
  unfolding CompleteActivityTask_effect_def RetryActivityTask_effect_def ExhaustActivityTask_effect_def
    SignalWorkflow_effect_def PollTask_effect_def
  by (auto simp: new_event_def new_task_def signal_event_def committed_def split: if_split_asm)

lemma ScanTimers_executions:
  assumes wf: "wf_store (e_uuid E) (s_store s)" and "ScanTimers_effect E s tms s'"
  shows "executions (tabs (s_store s')) = executions (tabs (s_store s))"
proof -
  from assms(2) obtain ws where due: "due_timers E s tms"
    and f: "fired_log E (tabs (s_store s)) (begin_now E s) (event_seq (s_store s)) (task_seq (s_store s)) tms ws"
    and c: "committed ws (int (length tms)) (int (length tms)) 0 s s'"
    unfolding ScanTimers_effect_def by blast
  have u: "\<forall>t \<in> set tms. e_uuid E (tm_RunID t) = Some (tm_RunID t)"
    using wf_timers [OF wf] due_timers_select(1) [OF due] by blast
  from fired_log_tables [OF f u] c show ?thesis by (simp add: committed_def)
qed

lemma CompleteWorkflowTask_closes:
  assumes "CompleteWorkflowTask_effect E s j wid rid cs s'"
  shows "closes (executions (tabs (s_store s))) (executions (tabs (s_store s')))"
  using assms unfolding CompleteWorkflowTask_effect_def committed_def
  by (auto split: if_split_asm simp: closes_commands dest!: command_log_tables)

lemma request_closes:
  assumes "wf_store (e_uuid E) (s_store s)" and "request_effect q E s s'" and "\<forall>req. q \<noteq> RStart req"
  shows "closes (executions (tabs (s_store s))) (executions (tabs (s_store s')))"
  using assms by (cases q)
    (auto simp: other_executions ScanTimers_executions CompleteWorkflowTask_closes split: if_split_asm)

interpretation executions: request_invariant clock_advances one_running
proof
  show "one_running (tabs init_store)" by (simp add: one_running_def init_store_def)
next
  fix E :: env and s s' q
  assume "serial E" and wf: "wf_store (e_uuid E) (s_store s)" and ok: "clock_advances E s q"
    and inv: "one_running (tabs (s_store s))" and eff: "request_effect q E s s'"
  show "one_running (tabs (s_store s'))"
  proof (cases "\<exists>req. q = RStart req")
    case True
    with StartWorkflow_one_running [OF wf _ _ inv] ok eff show ?thesis by auto
  next
    case False
    with closes_one_running [OF request_closes [OF wf eff] inv] show ?thesis by blast
  qed
qed

end
