(* ===== verification/Refinement.thy ===== *)
theory Refinement
  imports Executions
begin

text \<open>
  The engine as an implementation of an event-sourced log. The abstract state gives each run its
  status and the facts of its history, and knows no tasks, leases, timer rows, event IDs, clocks
  or transactions. \<open>spec\<close> says what a request may do to it; the refinement shows that the engine
  does just that, or nothing.
\<close>

section \<open>The specification\<close>

datatype fact =
    WorkflowStarted bytes
  | ActivityScheduled string i32 bytes
  | ActivityCompleted string i32 bytes
  | ActivityFailed string i32 bytes
  | TimerStarted i32
  | TimerFired i32
  | SignalReceived string bytes
  | WorkflowCompleted bytes
  | WorkflowFailed string bytes

type_synonym run_id = "string \<times> string"
type_synonym log_state = "run_id \<Rightarrow> (string \<times> fact list) option"

definition data_of :: "bytes option \<Rightarrow> bytes" where
  "data_of d = (case d of None \<Rightarrow> [] | Some b \<Rightarrow> b)"

fun command_facts :: "Command \<Rightarrow> fact list" where
  "command_facts c =
     (if c_Type c = ''ScheduleActivity'' then [ActivityScheduled (c_ActivityName c) (c_ActivityIndex c) (data_of (c_Input c))]
      else if c_Type c = ''StartTimer'' then [TimerStarted (c_TimerIndex c)]
      else if c_Type c = ''CompleteWorkflow'' then [WorkflowCompleted (data_of (c_Input c))]
      else if c_Type c = ''FailWorkflow'' then [WorkflowFailed (c_ActivityName c) (data_of (c_Input c))]
      else [])"

fun command_status :: "Command \<Rightarrow> string \<Rightarrow> string" where
  "command_status c st = (if c_Type c = ''CompleteWorkflow'' then ''Completed''
     else if c_Type c = ''FailWorkflow'' then ''Failed'' else st)"

text \<open>An activity is pending while it was scheduled more often than its outcomes were recorded.\<close>

definition activity_pending :: "fact list \<Rightarrow> string \<Rightarrow> i32 \<Rightarrow> bool" where
  "activity_pending h name i \<longleftrightarrow>
     length (filter (\<lambda>f. (\<exists>b. f = ActivityCompleted name i b) \<or> (\<exists>b. f = ActivityFailed name i b)) h) <
     length (filter (\<lambda>f. \<exists>b. f = ActivityScheduled name i b) h)"

definition timer_pending :: "fact list \<Rightarrow> i32 \<Rightarrow> bool" where
  "timer_pending h i \<longleftrightarrow> length (filter (\<lambda>f. f = TimerFired i) h) < length (filter (\<lambda>f. f = TimerStarted i) h)"

text \<open>A sequence of timers fires, each of them pending at its turn.\<close>

fun spec_fires :: "(run_id \<times> i32) list \<Rightarrow> log_state \<Rightarrow> log_state \<Rightarrow> bool" where
  "spec_fires [] A A' \<longleftrightarrow> A' = A"
| "spec_fires ((r, i) # fs) A A' \<longleftrightarrow> (\<exists>st h. A r = Some (st, h) \<and> timer_pending h i \<and>
     spec_fires fs (A(r \<mapsto> (st, h @ [TimerFired i]))) A')"

fun spec :: "(string \<Rightarrow> string option) \<Rightarrow> request \<Rightarrow> log_state \<Rightarrow> log_state \<Rightarrow> bool" where
  "spec U (RStart req) A A' \<longleftrightarrow> (\<exists>u. A (swq_WorkflowId req, u) = None \<and>
     A' = A((swq_WorkflowId req, u) \<mapsto> (''Running'', [WorkflowStarted (data_of (swq_Input req))])))"
| "spec U (RRespondWorkflow req) A A' \<longleftrightarrow> (\<exists>u st h. U (rwq_RunId req) = Some u \<and>
     A (rwq_WorkflowId req, u) = Some (st, h) \<and>
     (let cs = unmarshalCommands (rwq_Commands req) in
      A' = (if st = ''Running''
            then A((rwq_WorkflowId req, u) \<mapsto> (fold command_status cs st, h @ concat (map command_facts cs)))
            else A)))"
| "spec U (RRespondActivity req) A A' \<longleftrightarrow> (\<exists>u st h name i. U (rcq_RunId req) = Some u \<and>
     A (rcq_WorkflowId req, u) = Some (st, h) \<and> activity_pending h name i \<and>
     A' = A((rcq_WorkflowId req, u) \<mapsto> (st, h @ [ActivityCompleted name i (data_of (rcq_Result req))])))"
| "spec U (RFailActivity req) A A' \<longleftrightarrow> (\<exists>u st h name i. U (rfq_RunId req) = Some u \<and>
     A (rfq_WorkflowId req, u) = Some (st, h) \<and> activity_pending h name i \<and>
     A' = A((rfq_WorkflowId req, u) \<mapsto> (st, h @ [ActivityFailed name i (rfq_Error req)])))"
| "spec U (RSignal req) A A' \<longleftrightarrow> (\<exists>u h. (sgq_RunId req \<noteq> '''' \<longrightarrow> U (sgq_RunId req) = Some u) \<and>
     A (sgq_WorkflowId req, u) = Some (''Running'', h) \<and>
     A' = A((sgq_WorkflowId req, u) \<mapsto> (''Running'', h @ [SignalReceived (sgq_SignalName req) (data_of (sgq_Input req))])))"
| "spec U TickTimers A A' \<longleftrightarrow> (\<exists>fs. length fs \<le> 100 \<and> spec_fires fs A A')"
| "spec U q A A' \<longleftrightarrow> A' = A"

section \<open>The abstraction\<close>

fun fact_of :: "Event \<Rightarrow> fact" where
  "fact_of e =
     (if ev_EventType e = ''WorkflowStarted'' then WorkflowStarted (data_of (ev_Data e))
      else if ev_EventType e = ''ActivityScheduled''
        then ActivityScheduled (ev_ActivityName e) (ev_ActivityIndex e) (data_of (ev_Data e))
      else if ev_EventType e = ''ActivityCompleted''
        then ActivityCompleted (ev_ActivityName e) (ev_ActivityIndex e) (data_of (ev_Data e))
      else if ev_EventType e = ''ActivityFailed''
        then ActivityFailed (ev_ActivityName e) (ev_ActivityIndex e) (data_of (ev_Data e))
      else if ev_EventType e = ''TimerStarted'' then TimerStarted (ev_TimerIndex e)
      else if ev_EventType e = ''TimerFired'' then TimerFired (ev_TimerIndex e)
      else if ev_EventType e = ''SignalReceived'' then SignalReceived (ev_SignalName e) (data_of (ev_Data e))
      else if ev_EventType e = ''WorkflowCompleted'' then WorkflowCompleted (data_of (ev_Data e))
      else WorkflowFailed (ev_ActivityName e) (data_of (ev_Data e)))"

definition log_of :: "tables \<Rightarrow> log_state" where
  "log_of T = (\<lambda>(wid, u). map_option (\<lambda>x. (we_Status x, map fact_of (run_events wid u T))) (find_execution wid u T))"

lemma data_of_row [simp]: "data_of (Some (case d of None \<Rightarrow> [] | Some b \<Rightarrow> b)) = data_of d"
  by (simp add: data_of_def)

lemma log_of_iff:
  "log_of T (wid, u) = Some (st, h) \<longleftrightarrow>
     (\<exists>x. find_execution wid u T = Some x \<and> st = we_Status x \<and> h = map fact_of (run_events wid u T))"
  by (auto simp: log_of_def)

text \<open>Writes that append the facts \<open>fs\<close> to one run and leave the executions alone.\<close>

lemma log_of_append:
  assumes "executions T' = executions T" and "events T' = events T @ es"
    and "\<forall>e \<in> set es. is_event_of wid u e" and "find_execution wid u T = Some x"
  shows "log_of T' = (log_of T)((wid, u) \<mapsto> (we_Status x, map fact_of (run_events wid u T) @ map fact_of es))"
proof
  fix r :: run_id
  obtain w v where r: "r = (w, v)" by (cases r)
  have "filter (is_event_of w v) es = (if w = wid \<and> v = u then es else [])"
    using assms(3) by (auto simp: is_event_of_def filter_empty_conv intro!: filter_True)
  with assms show "log_of T' r = ((log_of T)((wid, u) \<mapsto> (we_Status x, map fact_of (run_events wid u T) @ map fact_of es))) r"
    by (auto simp: log_of_def find_execution_def run_events_def r)
qed

lemma log_of_same:
  "executions T' = executions T \<Longrightarrow> events T' = events T \<Longrightarrow> log_of T' = log_of T"
  by (simp add: log_of_def find_execution_def run_events_def fun_eq_iff)


section \<open>Pending in the log, pending in the tables\<close>

lemma fact_of_iff:
  "(\<exists>b. fact_of e = ActivityScheduled name i b) \<longleftrightarrow>
     ev_EventType e = ''ActivityScheduled'' \<and> ev_ActivityName e = name \<and> ev_ActivityIndex e = i"
  "(\<exists>b. fact_of e = ActivityCompleted name i b) \<longleftrightarrow>
     ev_EventType e = ''ActivityCompleted'' \<and> ev_ActivityName e = name \<and> ev_ActivityIndex e = i"
  "(\<exists>b. fact_of e = ActivityFailed name i b) \<longleftrightarrow>
     ev_EventType e = ''ActivityFailed'' \<and> ev_ActivityName e = name \<and> ev_ActivityIndex e = i"
  "fact_of e = TimerStarted i \<longleftrightarrow> ev_EventType e = ''TimerStarted'' \<and> ev_TimerIndex e = i"
  "fact_of e = TimerFired i \<longleftrightarrow> ev_EventType e = ''TimerFired'' \<and> ev_TimerIndex e = i"
  by auto

declare fact_of.simps [simp del]

lemma facts_counts:
  "length (filter (\<lambda>f. \<exists>b. f = ActivityScheduled name i b) (map fact_of (filter (is_event_of wid u) es))) =
     activity_events ''ActivityScheduled'' wid u name i es"
  "length (filter (\<lambda>f. (\<exists>b. f = ActivityCompleted name i b) \<or> (\<exists>b. f = ActivityFailed name i b))
     (map fact_of (filter (is_event_of wid u) es))) =
     activity_events ''ActivityCompleted'' wid u name i es + activity_events ''ActivityFailed'' wid u name i es"
  "length (filter (\<lambda>f. f = TimerStarted i) (map fact_of (filter (is_event_of wid u) es))) = timer_events ''TimerStarted'' wid u i es"
  "length (filter (\<lambda>f. f = TimerFired i) (map fact_of (filter (is_event_of wid u) es))) = timer_events ''TimerFired'' wid u i es"
  by (induction es; auto simp: fact_of_iff)+

lemma activity_pending_task:
  assumes "activities_balanced T" and "t \<in> set (tasks T)" and "t_TaskType t = ''activity''"
  shows "activity_pending (map fact_of (run_events (t_WorkflowID t) (t_RunID t) T)) (t_ActivityName t) (t_ActivityIndex t)"
proof -
  have "t \<in> set (filter (\<lambda>x. t_TaskType x = ''activity'' \<and> t_WorkflowID x = t_WorkflowID t \<and> t_RunID x = t_RunID t \<and>
      t_ActivityName x = t_ActivityName t \<and> t_ActivityIndex x = t_ActivityIndex t) (tasks T))"
    using assms(2,3) by simp
  then have "0 < activity_tasks (t_WorkflowID t) (t_RunID t) (t_ActivityName t) (t_ActivityIndex t) (tasks T)"
    unfolding activity_tasks_def by (rule length_pos_if_in_set)
  with assms(1) show ?thesis
    unfolding activity_pending_def run_events_def facts_counts by (simp add: activities_balanced_def)
qed

lemma run_timers_less:
  assumes "t \<in> set ts" and "\<not> P t"
  shows "run_timers P (tm_WorkflowID t) (tm_RunID t) (tm_TimerIndex t) ts <
    run_timers (\<lambda>_. True) (tm_WorkflowID t) (tm_RunID t) (tm_TimerIndex t) ts"
proof -
  have le: "run_timers P w v i ts \<le> run_timers (\<lambda>_. True) w v i ts" for w v i ts
    by (induction ts) auto
  from assms show ?thesis by (induction ts) (auto simp: le_imp_less_Suc [OF le])
qed

lemma timer_pending_row:
  assumes "timers_balanced T" and "t \<in> set (timers T)" and "\<not> tm_Fired t"
  shows "timer_pending (map fact_of (run_events (tm_WorkflowID t) (tm_RunID t) T)) (tm_TimerIndex t)"
  using assms(1) run_timers_less [of t "timers T" tm_Fired, OF assms(2,3)]
  unfolding timer_pending_def run_events_def facts_counts by (simp add: timers_balanced_def)


section \<open>The operations\<close>

lemma StartWorkflow_refines:
  assumes wf: "wf_store (e_uuid E) (s_store s)"
    and eff: "StartWorkflow_effect E s (swq_WorkflowId req) (swq_WorkflowType req) (swq_TaskQueue req) (swq_Input req) rid s'"
  shows "spec U (RStart req) (log_of (tabs (s_store s))) (log_of (tabs (s_store s')))"
proof -
  let ?wid = "swq_WorkflowId req" and ?T = "tabs (s_store s)" and ?T' = "tabs (s_store s')"
  from eff obtain u where new: "\<forall>x \<in> set (executions ?T). \<not> is_execution ?wid u x" and
    c: "executions ?T' = executions ?T @ [zero_WorkflowExecution\<lparr>we_WorkflowID := ?wid, we_RunID := u,
            we_WorkflowType := swq_WorkflowType req, we_TaskQueue := swq_TaskQueue req, we_Status := ''Running'',
            we_StartedAt := begin_now E s, we_ClosedAt := None\<rparr>]"
    "events ?T' = events ?T @ [event_row (zero_Event\<lparr>ev_WorkflowID := ?wid, ev_RunID := rid, ev_EventID := 1,
            ev_EventType := ''WorkflowStarted'', ev_ActivityName := '''', ev_Data := swq_Input req\<rparr>)
            (event_seq (s_store s) + 1) u (begin_now E s)]"
    by (auto simp: StartWorkflow_effect_def committed_def new_event_def new_task_def)
  have none: "find_execution ?wid u ?T = None" using new by (simp add: find_execution_def)
  have "run_events ?wid u ?T = []"
    using no_events_of_new_run [OF wf new] by (simp add: next_event_id_def)
  with none have "log_of ?T' = (log_of ?T)((?wid, u) \<mapsto> (''Running'', [WorkflowStarted (data_of (swq_Input req))]))"
    unfolding fun_eq_iff
    by (auto simp: log_of_def c run_events_def find_execution_def List_find_append is_event_of_def is_execution_def fact_of.simps
        split: option.splits dest!: List_find_Some_iff)
  moreover from none have "log_of ?T (?wid, u) = None" by (simp add: log_of_def)
  ultimately show ?thesis by (auto simp del: fun_upd_apply)
qed

lemma CompleteActivityTask_refines:
  assumes wf: "wf_store (e_uuid E) (s_store s)" and ok: "answers_own_task E s (RRespondActivity req)"
    and b: "activities_balanced (tabs (s_store s))" and eff: "request_effect (RRespondActivity req) E s s'"
  shows "spec (e_uuid E) (RRespondActivity req) (log_of (tabs (s_store s))) (log_of (tabs (s_store s')))"
proof -
  let ?wid = "rcq_WorkflowId req" and ?T = "tabs (s_store s)" and ?T' = "tabs (s_store s')"
  from eff obtain t x u n j now where t: "find_task (rcq_TaskId req) ?T = Some t" and u: "e_uuid E (rcq_RunId req) = Some u"
    and x: "find_execution ?wid u ?T = Some x" and ex: "executions ?T' = executions ?T"
    and ev: "events ?T' = events ?T @ [event_row (zero_Event\<lparr>ev_WorkflowID := ?wid, ev_RunID := rcq_RunId req,
       ev_EventID := n, ev_EventType := ''ActivityCompleted'', ev_ActivityName := t_ActivityName t,
       ev_ActivityIndex := t_ActivityIndex t, ev_Data := rcq_Result req\<rparr>) j u now]"
    by (auto simp: CompleteActivityTask_effect_def committed_def new_event_def new_task_def)
  note tt = wf_task [OF wf t]
  have own: "t_TaskType t = ''activity''" "t_WorkflowID t = ?wid" "t_RunID t = u" using ok tt u by auto
  from activity_pending_task [OF b tt(4) own(1)] log_of_append [OF ex ev _ x] x u show ?thesis
    by (auto simp: log_of_iff own is_event_of_def fact_of.simps simp del: fun_upd_apply)
qed

lemma FailActivityTask_refines:
  assumes wf: "wf_store (e_uuid E) (s_store s)" and ok: "answers_own_task E s (RFailActivity req)"
    and b: "activities_balanced (tabs (s_store s))" and eff: "request_effect (RFailActivity req) E s s'"
  shows "log_of (tabs (s_store s')) = log_of (tabs (s_store s)) \<or>
    spec (e_uuid E) (RFailActivity req) (log_of (tabs (s_store s))) (log_of (tabs (s_store s')))"
proof -
  let ?wid = "rfq_WorkflowId req" and ?T = "tabs (s_store s)" and ?T' = "tabs (s_store s')"
  from eff obtain t where t: "find_task (rfq_TaskId req) ?T = Some t" and
    eff: "if sint (t_Attempt t) < sint (t_MaxAttempts t) then RetryActivityTask_effect E s (rfq_TaskId req) t s'
      else ExhaustActivityTask_effect E s (rfq_TaskId req) ?wid (rfq_RunId req) (rfq_Error req) t s'" by auto
  note tt = wf_task [OF wf t]
  have own: "t_TaskType t = ''activity''" "t_WorkflowID t = ?wid" "e_uuid E (rfq_RunId req) = Some (t_RunID t)"
    using ok tt by auto
  show ?thesis
  proof (cases "sint (t_Attempt t) < sint (t_MaxAttempts t)")
    case True
    with eff have "RetryActivityTask_effect E s (rfq_TaskId req) t s'" by simp
    then have "executions ?T' = executions ?T \<and> events ?T' = events ?T"
      by (auto simp: RetryActivityTask_effect_def committed_def new_task_def)
    with log_of_same show ?thesis by blast
  next
    case False
    with eff own(3) obtain x n j now where x: "find_execution ?wid (t_RunID t) ?T = Some x" and ex: "executions ?T' = executions ?T"
      and ev: "events ?T' = events ?T @ [event_row (zero_Event\<lparr>ev_WorkflowID := ?wid, ev_RunID := rfq_RunId req,
         ev_EventID := n, ev_EventType := ''ActivityFailed'', ev_ActivityName := t_ActivityName t,
         ev_ActivityIndex := t_ActivityIndex t, ev_Data := Some (rfq_Error req)\<rparr>) j (t_RunID t) now]"
      by (auto simp: ExhaustActivityTask_effect_def committed_def new_event_def new_task_def)
    from activity_pending_task [OF b tt(4) own(1)] log_of_append [OF ex ev _ x] x own show ?thesis
      by (auto simp: log_of_iff is_event_of_def fact_of.simps data_of_def simp del: fun_upd_apply)
  qed
qed

lemma SignalWorkflow_refines:
  assumes wf: "wf_store (e_uuid E) (s_store s)" and eff: "request_effect (RSignal req) E s s'"
  shows "spec (e_uuid E) (RSignal req) (log_of (tabs (s_store s))) (log_of (tabs (s_store s')))"
proof -
  let ?wid = "sgq_WorkflowId req" and ?T = "tabs (s_store s)" and ?T' = "tabs (s_store s')"
  from eff obtain rid where tgt: "signal_target E s ?wid (sgq_RunId req) rid" and
    "SignalWorkflow_effect E s ?wid rid (sgq_SignalName req) (sgq_Input req) s'" by auto
  then obtain u x n j now where u: "e_uuid E rid = Some u" and x: "find_execution ?wid u ?T = Some x"
    and st: "we_Status x = ''Running''" and ex: "executions ?T' = executions ?T"
    and ev: "events ?T' = events ?T @ [event_row (zero_Event\<lparr>ev_WorkflowID := ?wid, ev_RunID := rid, ev_EventID := n,
       ev_EventType := ''SignalReceived'', ev_SignalName := sgq_SignalName req, ev_Data := sgq_Input req\<rparr>) j u now]"
    by (auto simp: SignalWorkflow_effect_def committed_def signal_event_def split: if_split_asm)
  from tgt u have "sgq_RunId req \<noteq> '''' \<longrightarrow> e_uuid E (sgq_RunId req) = Some u" by (auto simp: signal_target_def)
  with log_of_append [OF ex ev _ x] x st show ?thesis unfolding spec.simps
    by (intro exI [of _ u] exI [of _ "map fact_of (run_events ?wid u ?T)"])
      (simp add: log_of_iff is_event_of_def fact_of.simps del: fun_upd_apply)
qed


text \<open>A command list appends its facts, and its terminal commands set the status.\<close>

lemma command_log_facts:
  assumes "command_log E x wid rid u now es ts ms n cs ws"
  shows "(\<forall>e \<in> set (event_rows ws). is_event_of wid u e) \<and> map fact_of (event_rows ws) = concat (map command_facts cs)"
  using assms
proof (induction cs arbitrary: es ts ms n ws)
  case (Cons c cs)
  then show ?case
    by (auto simp: Let_def command_event_def is_event_of_def fact_of.simps split: if_split_asm dest!: Cons.IH)
qed simp

lemma find_close_execution:
  "List.find (is_execution w v) (close_execution wid u now st xs) =
     map_option (\<lambda>x. if w = wid \<and> v = u then set_status st now x else x) (List.find (is_execution w v) xs)"
  by (induction xs) (auto simp: close_execution_def is_execution_def set_status_def)

lemma find_close_executions:
  "map_option we_Status (List.find (is_execution w v) (fold (close_execution wid u now) (map terminal_status (filter terminal_command cs)) xs)) =
     map_option (\<lambda>x. if w = wid \<and> v = u then fold command_status cs (we_Status x) else we_Status x)
       (List.find (is_execution w v) xs)"
proof (induction cs arbitrary: xs)
  case Nil
  show ?case by (cases "List.find (is_execution w v) xs") (simp_all del: List_find_None)
next
  case (Cons c cs)
  show ?case
  proof (cases "terminal_command c")
    case True
    then have "command_status c st = terminal_status c" for st
      by (auto simp: terminal_command_def terminal_status_def)
    with True Cons show ?thesis
      by (cases "List.find (is_execution w v) xs")
        (simp_all add: find_close_execution set_status_def del: command_status.simps List_find_None)
  next
    case False
    then have "command_status c = (\<lambda>st. st)" by (auto simp: terminal_command_def)
    with False Cons show ?thesis
      by (cases "List.find (is_execution w v) xs") (simp_all del: command_status.simps List_find_None)
  qed
qed

lemma log_of_commit:
  assumes "events T' = events T @ es" and "\<forall>e \<in> set es. is_event_of wid u e" and "find_execution wid u T = Some x"
    and "\<And>w v. map_option we_Status (find_execution w v T') =
      map_option (\<lambda>y. if w = wid \<and> v = u then st' else we_Status y) (find_execution w v T)"
  shows "log_of T' = (log_of T)((wid, u) \<mapsto> (st', map fact_of (run_events wid u T) @ map fact_of es))"
proof
  fix r :: run_id
  obtain w v where r: "r = (w, v)" by (cases r)
  have f: "filter (is_event_of w v) es = (if w = wid \<and> v = u then es else [])"
    using assms(2) by (auto simp: is_event_of_def filter_empty_conv intro!: filter_True)
  from assms(3) assms(4) [of w v] show "log_of T' r = ((log_of T)((wid, u) \<mapsto> (st', map fact_of (run_events wid u T) @ map fact_of es))) r"
    by (cases "find_execution w v T"; cases "find_execution w v T'") (auto simp: log_of_def run_events_def r f assms(1))
qed

lemma CompleteWorkflowTask_refines:
  assumes eff: "request_effect (RRespondWorkflow req) E s s'"
  shows "spec (e_uuid E) (RRespondWorkflow req) (log_of (tabs (s_store s))) (log_of (tabs (s_store s')))"
proof -
  let ?wid = "rwq_WorkflowId req" and ?T = "tabs (s_store s)" and ?T' = "tabs (s_store s')"
    and ?cs = "unmarshalCommands (rwq_Commands req)"
  from eff obtain u x where u: "e_uuid E (rwq_RunId req) = Some u" and x: "find_execution ?wid u ?T = Some x" and
    eff: "if we_Status x \<noteq> ''Running'' then committed [DeleteTask (rwq_TaskId req)] 0 0 0 s s'
        else (\<exists>ws. command_log E x ?wid (rwq_RunId req) u (begin_now E s) (event_seq (s_store s)) (task_seq (s_store s))
             (timer_seq (s_store s)) (next_event_id ?wid u ?T) ?cs ws \<and>
           committed (ws @ [DeleteTask (rwq_TaskId req)]) (int (length (filter known_command ?cs)))
             (int (count_type ''ScheduleActivity'' ?cs)) (int (count_type ''StartTimer'' ?cs)) s s')"
    unfolding request_effect.simps CompleteWorkflowTask_effect_def by blast
  show ?thesis
  proof (cases "we_Status x = ''Running''")
    case False
    with eff have "log_of ?T' = log_of ?T" by (intro log_of_same) (auto simp: committed_def)
    with u x False show ?thesis by (simp add: log_of_iff Let_def del: fun_upd_apply)
  next
    case True
    with eff obtain ws a b c where ws: "command_log E x ?wid (rwq_RunId req) u (begin_now E s) (event_seq (s_store s))
        (task_seq (s_store s)) (timer_seq (s_store s)) (next_event_id ?wid u ?T) ?cs ws"
      and c: "committed (ws @ [DeleteTask (rwq_TaskId req)]) a b c s s'" by auto
    note facts = command_log_facts [OF ws]
    have ev: "events ?T' = events ?T @ event_rows ws" using c by (simp add: committed_def events_apply_log)
    have ex: "executions ?T' = fold (close_execution ?wid u (begin_now E s)) (map terminal_status (filter terminal_command ?cs)) (executions ?T)"
      using c command_log_tables [OF ws] by (simp add: committed_def)
    have st: "map_option we_Status (find_execution w v ?T') =
        map_option (\<lambda>y. if w = ?wid \<and> v = u then fold command_status ?cs ''Running'' else we_Status y) (find_execution w v ?T)" for w v
      unfolding find_execution_def ex find_close_executions using x True
      by (auto simp: find_execution_def intro!: option.map_cong)
    from log_of_commit [OF ev _ x st] facts u x True show ?thesis
      by (simp add: log_of_iff Let_def del: fun_upd_apply)
  qed
qed

section \<open>Timers\<close>

lemma fire_one:
  assumes T1: "T1 = apply_log [InsertEventRow e, SetFired (tm_ID t), InsertTaskRow w] T0"
    and e: "is_event_of (tm_WorkflowID t) (tm_RunID t) e" "ev_EventType e = ''TimerFired''" "ev_TimerIndex e = tm_TimerIndex t"
    and b: "timers_balanced T0" and d: "distinct (map tm_ID (timers T0))" and t: "t \<in> set (timers T0)" "\<not> tm_Fired t"
    and x: "find_execution (tm_WorkflowID t) (tm_RunID t) T0 = Some x"
  shows "timers_balanced T1" and "log_of T1 = (log_of T0)((tm_WorkflowID t, tm_RunID t) \<mapsto>
      (we_Status x, map fact_of (run_events (tm_WorkflowID t) (tm_RunID t) T0) @ [TimerFired (tm_TimerIndex t)]))"
    and "timers T1 = map (mark_fired {tm_ID t}) (timers T0)"
proof -
  show tm: "timers T1 = map (mark_fired {tm_ID t}) (timers T0)" by (simp add: T1 mark_fired_insert)
  have ev: "events T1 = events T0 @ [e]" by (simp add: T1)
  from run_timers_mark_fired [OF d, of "[t]"] t have
    "run_timers tm_Fired w v i (timers T1) = run_timers tm_Fired w v i (timers T0) + run_timers (\<lambda>_. True) w v i [t]"
    "run_timers (\<lambda>_. True) w v i (timers T1) = run_timers (\<lambda>_. True) w v i (timers T0)" for w v i
    by (simp_all add: tm)
  with e show "timers_balanced T1" by (intro timers_balanced_delta [OF b ev]) (auto simp: is_event_of_def)
  have "executions T1 = executions T0" by (simp add: T1)
  from log_of_append [OF this ev _ x] e show "log_of T1 = (log_of T0)((tm_WorkflowID t, tm_RunID t) \<mapsto>
      (we_Status x, map fact_of (run_events (tm_WorkflowID t) (tm_RunID t) T0) @ [TimerFired (tm_TimerIndex t)]))"
    by (simp add: fact_of.simps)
qed

lemma fired_log_refines:
  assumes "fired_log E T now es ts tms ws" and "\<forall>t \<in> set tms. e_uuid E (tm_RunID t) = Some (tm_RunID t)"
    and "timers_balanced T0" and "distinct (map tm_ID (timers T0))" and "set tms \<subseteq> set (timers T0)"
    and "\<forall>t \<in> set tms. \<not> tm_Fired t" and "distinct tms" and "executions T0 = executions T"
  shows "spec_fires (map (\<lambda>t. (timer_run t, tm_TimerIndex t)) tms) (log_of T0) (log_of (apply_log ws T0))"
  using assms
proof (induction tms arbitrary: es ts ws T0)
  case (Cons t tms)
  from Cons.prems(1,2) obtain x e w vs where x: "find_execution (tm_WorkflowID t) (tm_RunID t) T = Some x"
    and ws: "ws = InsertEventRow e # SetFired (tm_ID t) # InsertTaskRow w # vs"
    and e: "is_event_of (tm_WorkflowID t) (tm_RunID t) e" "ev_EventType e = ''TimerFired''" "ev_TimerIndex e = tm_TimerIndex t"
    and vs: "fired_log E T now (es + 1) (ts + 1) tms vs"
    by (auto simp: Let_def is_event_of_def zero_Event_def)
  define T1 where "T1 = apply_log [InsertEventRow e, SetFired (tm_ID t), InsertTaskRow w] T0"
  have x0: "find_execution (tm_WorkflowID t) (tm_RunID t) T0 = Some x"
    using x Cons.prems(8) by (simp add: find_execution_def)
  have t: "t \<in> set (timers T0)" "\<not> tm_Fired t" using Cons.prems(5,6) by simp_all
  note one = fire_one [OF T1_def e Cons.prems(3,4) t x0]
  have ids: "tm_ID t' \<noteq> tm_ID t" if "t' \<in> set tms" for t'
    using that Cons.prems(4,5,7) distinct_map_eqD [of tm_ID "timers T0" t' t] by auto
  have "spec_fires (map (\<lambda>t. (timer_run t, tm_TimerIndex t)) tms) (log_of T1) (log_of (apply_log vs T1))"
  proof (rule Cons.IH [OF vs _ one(1)])
    show "distinct (map tm_ID (timers T1))"
      using Cons.prems(4) by (simp add: one(3) comp_def mark_fired_def if_distrib [of tm_ID] cong: if_cong)
    show "set tms \<subseteq> set (timers T1)"
    proof
      fix t' assume t': "t' \<in> set tms"
      with ids have "mark_fired {tm_ID t} t' = t'" by (simp add: mark_fired_def)
      moreover have "t' \<in> set (timers T0)" using t' Cons.prems(5) by auto
      ultimately show "t' \<in> set (timers T1)" unfolding one(3) by (metis imageI set_map)
    qed
    show "executions T1 = executions T" using Cons.prems(8) by (simp add: T1_def)
  qed (use Cons.prems(2,6,7) in auto)
  moreover have "apply_log ws T0 = apply_log vs T1" by (simp add: ws T1_def)
  ultimately show ?case using timer_pending_row [OF Cons.prems(3) t] x0
    by (simp add: timer_run_def log_of_iff one(2) del: fun_upd_apply)
qed simp

lemma ScanTimers_refines:
  assumes wf: "wf_store (e_uuid E) (s_store s)" and b: "timers_balanced (tabs (s_store s))"
    and "ScanTimers_effect E s tms s'"
  shows "spec U TickTimers (log_of (tabs (s_store s))) (log_of (tabs (s_store s')))"
proof -
  from assms(3) obtain ws where due: "due_timers E s tms"
    and f: "fired_log E (tabs (s_store s)) (begin_now E s) (event_seq (s_store s)) (task_seq (s_store s)) tms ws"
    and c: "committed ws (int (length tms)) (int (length tms)) 0 s s'"
    unfolding ScanTimers_effect_def by blast
  note sel = due_timers_select [OF due]
  have d: "distinct (map tm_ID (timers (tabs (s_store s))))" using wf by (simp add: wf_store_def wf_tables_def)
  have "spec_fires (map (\<lambda>t. (timer_run t, tm_TimerIndex t)) tms) (log_of (tabs (s_store s))) (log_of (apply_log ws (tabs (s_store s))))"
  proof (rule fired_log_refines [OF f _ b d])
    show "\<forall>t \<in> set tms. e_uuid E (tm_RunID t) = Some (tm_RunID t)" using wf_timers [OF wf] sel(1) by blast
    show "distinct tms" using due_timers_distinct [OF d due] by (simp add: distinct_map)
  qed (use sel in \<open>auto simp: timer_due_def\<close>)
  moreover have "length tms \<le> 100" using due by (auto simp: due_timers_def select_due_def)
  ultimately show ?thesis using c
    by (auto simp: committed_def intro!: exI [of _ "map (\<lambda>t. (timer_run t, tm_TimerIndex t)) tms"])
qed


section \<open>The engine\<close>

lemma request_refines:
  assumes wf: "wf_store (e_uuid E) (s_store s)" and ok: "answers_own_task E s q"
    and b: "activities_balanced (tabs (s_store s))" "timers_balanced (tabs (s_store s))"
    and eff: "request_effect q E s s'"
  shows "log_of (tabs (s_store s')) = log_of (tabs (s_store s)) \<or>
    spec (e_uuid E) q (log_of (tabs (s_store s))) (log_of (tabs (s_store s')))"
proof (cases q)
  case (RStart req)
  with StartWorkflow_refines [OF wf] eff show ?thesis by (auto simp del: spec.simps)
next
  case (RPollWorkflow req)
  with eff show ?thesis by (intro disjI1 log_of_same) (auto simp: PollTask_effect_def committed_def)
next
  case (RRespondWorkflow req)
  with CompleteWorkflowTask_refines eff show ?thesis by blast
next
  case (RPollActivity req)
  with eff show ?thesis by (intro disjI1 log_of_same) (auto simp: PollTask_effect_def committed_def)
next
  case (RRespondActivity req)
  with CompleteActivityTask_refines [OF wf _ b(1)] ok eff show ?thesis by blast
next
  case (RFailActivity req)
  with FailActivityTask_refines [OF wf _ b(1)] ok eff show ?thesis by blast
next
  case (RSignal req)
  with SignalWorkflow_refines [OF wf] eff show ?thesis by blast
next
  case TickReclaim
  with eff show ?thesis by (intro disjI1 log_of_same) (auto simp: committed_def)
next
  case TickTimers
  with ScanTimers_refines [OF wf b(2)] eff show ?thesis by (auto simp del: spec.simps)
qed

lemma serve_refines:
  assumes "reachable U answers_own_task s" and E: "serial E" "uuid_ok E" "e_uuid E = U" "answers_own_task E s q"
  shows "log_of (tabs (s_store (serve q E s))) = log_of (tabs (s_store s)) \<or>
    spec U q (log_of (tabs (s_store s))) (log_of (tabs (s_store (serve q E s))))"
proof -
  have b: "activities_balanced (tabs (s_store s))" "timers_balanced (tabs (s_store s))"
    using activities.inv_reachable [OF assms(1)] timers.inv_reachable [OF assms(1)] by blast+
  have wf: "wf_store (e_uuid E) (s_store s)" using reachable_wf [OF assms(1)] E(3) by simp
  from serve_served [OF E(1), of q s] request_refines [OF wf E(4) b] E(3) show ?thesis
    by (auto simp: served_def simp del: spec.simps)
qed

end
