(* ===== verification/RefinementProperties.thy ===== *)
theory RefinementProperties
  imports Samples Refinement
begin

text \<open>
  The refinement of the event-sourced log, and the executions of one workflow ID.
\<close>

text \<open>
  C3: the engine implements the event-sourced log of \<open>spec\<close>. Let requests
  and ticks be served one after another, and let every response, this one and those before, be one to a task of
  its own: a workflow answer names no activity task and no task that does not exist yet, and a result or
  failure names, unless its task is gone, an activity task of the run that it names. Then, with
  whatever faults, the log of every run either stays as it is or changes as the request allows: a start begins the log of a new run; an answer appends one fact
  per command and sets the status; an outcome is recorded only for a pending activity; a scan
  fires at most 100 timers, each pending at its turn; a signal reaches a running run only; polls
  and lease reclaims never change a log; and no request touches any other run.
\<close>

theorem engine_refines_log:
  assumes "reachable U answers_own_task s" and "serial E" and "uuid_ok E" and "e_uuid E = U"
    and "answers_own_task E s q"
  shows "log_of (tabs (s_store (serve q E s))) = log_of (tabs (s_store s)) \<or>
    spec U q (log_of (tabs (s_store s))) (log_of (tabs (s_store (serve q E s))))"
  using assms by (rule serve_refines)

definition sample_signal :: SignalWorkflowRequest where
  "sample_signal = \<lparr>sgq_WorkflowId = ''w'', sgq_RunId = '''', sgq_SignalName = ''go'', sgq_Input = Some ''1''\<rparr>"

theorem engine_refines_log_witness:
  "log_of (tabs (s_store sample_started)) (''w'', sample_run) = Some (''Running'', [WorkflowStarted ''7'']) \<and>
   log_of (tabs (s_store (serve (RSignal sample_signal) sample_env sample_started))) (''w'', sample_run) =
     Some (''Running'', [WorkflowStarted ''7'', SignalReceived ''go'' ''1'']) \<and>
   spec (e_uuid sample_env) (RSignal sample_signal) (log_of (tabs (s_store sample_started)))
     (log_of (tabs (s_store (serve (RSignal sample_signal) sample_env sample_started))))"
proof -
  have a: "log_of (tabs (s_store sample_started)) (''w'', sample_run) = Some (''Running'', [WorkflowStarted ''7''])"
    by code_simp
  have b: "log_of (tabs (s_store (serve (RSignal sample_signal) sample_env sample_started))) (''w'', sample_run) =
     Some (''Running'', [WorkflowStarted ''7'', SignalReceived ''go'' ''1''])" by code_simp
  have ok: "answers_own_task sample_env sample_started (RSignal sample_signal)" by simp
  have ok0: "answers_own_task sample_env sample_init (RStart sample_start)" by simp
  from engine_refines_log [OF sample_started_reachable [of answers_own_task, OF ok0] sample_env_ok(1,2) refl ok]
  show ?thesis using a b by auto
qed

text \<open>
  C26: when every start comes at a later instant of the database clock than
  the earlier starts of its workflow ID, a workflow ID has at most one running execution in every
  reachable state, and it is the one the lookup of the latest execution finds, in whatever order
  the database returns rows of the same start time.
\<close>

theorem single_running_execution:
  assumes "reachable U clock_advances s" and "x \<in> set (executions (tabs (s_store s)))" and "we_Status x = ''Running''"
  shows "latest_execution r (we_WorkflowID x) (tabs (s_store s)) = Some x \<and>
    (\<forall>y \<in> set (executions (tabs (s_store s))). we_WorkflowID y = we_WorkflowID x \<longrightarrow> we_Status y = ''Running'' \<longrightarrow> y = x)"
proof -
  have d: "distinct (map run_key (executions (tabs (s_store s))))"
    using reachable_wf [OF assms(1)] by (simp add: wf_store_def wf_tables_def)
  have inv: "one_running (tabs (s_store s))" by (rule executions.inv_reachable [OF assms(1)])
  note latest = latest_execution_running [OF inv _ _ d]
  from latest [OF assms(2,3)] latest show ?thesis by (metis option.inject)
qed

theorem single_running_execution_witness:
  "\<exists>x. we_Status x = ''Running'' \<and> latest_execution (\<lambda>k. k) ''w'' (tabs (s_store sample_started)) = Some x"
proof -
  have ok: "clock_advances sample_env sample_init (RStart sample_start)" by simp
  have "map (\<lambda>x. (we_WorkflowID x, we_Status x)) (executions (tabs (s_store sample_started))) = [(''w'', ''Running'')]" by code_simp
  then obtain x where x: "x \<in> set (executions (tabs (s_store sample_started)))" "we_WorkflowID x = ''w''" "we_Status x = ''Running''"
    by (auto simp: map_eq_Cons_conv)
  note single_running_execution [OF sample_started_reachable [of clock_advances, OF ok] x(1,3), of "\<lambda>k. k", THEN conjunct1]
  with x(2,3) show ?thesis by metis
qed

end
