(* ===== verification/DriverText.thy ===== *)
theory DriverText
  imports Engine
begin

text \<open>
  What the engine does with the texts of the database driver: nothing. Two runs that differ in
  these texts alone end in the same session, with the same value or with errors that differ in
  these texts alone (\<open>covered\<close>); and a status built from an error is the same for both.
\<close>

section \<open>Errors without the texts of the driver\<close>

primrec mask :: "go_error \<Rightarrow> go_error" where
  "mask ErrNotFound = ErrNotFound"
| "mask ErrWorkflowAlreadyRunning = ErrWorkflowAlreadyRunning"
| "mask ErrWorkflowNotRunning = ErrWorkflowNotRunning"
| "mask (ErrDriver t) = ErrDriver []"
| "mask (Errorf m e) = Errorf m (mask e)"

lemma mask_root: "root_error (mask e) = mask (root_error e)"
  by (induction e) auto

lemma mask_sentinel [simp]:
  "mask e = ErrNotFound \<longleftrightarrow> e = ErrNotFound"
  "mask e = ErrWorkflowAlreadyRunning \<longleftrightarrow> e = ErrWorkflowAlreadyRunning"
  "mask e = ErrWorkflowNotRunning \<longleftrightarrow> e = ErrWorkflowNotRunning"
  by (cases e; simp)+

lemma mask_eq_root:
  assumes "mask e = mask e'" and "S \<in> {ErrNotFound, ErrWorkflowAlreadyRunning, ErrWorkflowNotRunning}"
  shows "root_error e = S \<longleftrightarrow> root_error e' = S"
  using arg_cong [OF assms(1), of root_error] assms(2) unfolding mask_root by (auto dest: sym)

lemma mask_text: "mask e = mask e' \<Longrightarrow> (\<forall>t. root_error e \<noteq> ErrDriver t) \<Longrightarrow> e = e'"
proof (induction e arbitrary: e')
  case (Errorf m e)
  then show ?case by (cases e') auto
qed (auto dest: sym)

lemma toStatus_mask: "mask e = mask e' \<Longrightarrow> toStatus (Some e) = toStatus (Some e')"
  using mask_text [of e e'] mask_eq_root [of e e' ErrNotFound] mask_eq_root [of e e' ErrWorkflowAlreadyRunning]
    mask_eq_root [of e e' ErrWorkflowNotRunning]
  by (cases "root_error e") auto

section \<open>Runs that differ in the texts of the driver\<close>

definition cover :: "(go_error + 'a) \<times> sess \<Rightarrow> (go_error + 'a) \<times> sess" where
  "cover p = (map_sum mask id (fst p), snd p)"

definition covered :: "'a M \<Rightarrow> 'a M \<Rightarrow> bool" where
  "covered m m' \<longleftrightarrow> (\<forall>E d s. cover (m E s) = cover (m' (E\<lparr>e_driver_text := d\<rparr>) s))"

named_theorems covered_rules "independence of the driver's texts, one rule per combinator and statement"

lemma cover_eq [simp]:
  "cover (Inl e, s) = cover q \<longleftrightarrow> (\<exists>e'. q = (Inl e', s) \<and> mask e = mask e')"
  "cover (Inr x, s) = cover q \<longleftrightarrow> q = (Inr x, s)"
  by (cases q; cases "fst q"; auto simp: cover_def)+

lemma covered_cases:
  assumes "covered m m'"
  obtains (err) e e' s1 where "m E s = (Inl e, s1)" "m' (E\<lparr>e_driver_text := d\<rparr>) s = (Inl e', s1)" "mask e = mask e'"
    | (val) x s1 where "m E s = (Inr x, s1)" "m' (E\<lparr>e_driver_text := d\<rparr>) s = (Inr x, s1)"
proof -
  have c: "cover (m E s) = cover (m' (E\<lparr>e_driver_text := d\<rparr>) s)" using assms by (simp add: covered_def)
  obtain r s1 where m: "m E s = (r, s1)" by (cases "m E s")
  with c show thesis by (cases r) (auto intro: that)
qed

lemma covered_pure [covered_rules]:
  "covered (returnM x) (returnM x)" "covered time_Now time_Now" "covered uuid_New uuid_New"
  "covered rand_Float64 rand_Float64" "covered (metricM f) (metricM f)"
  "mask e = mask e' \<Longrightarrow> covered (raiseM e) (raiseM e')"
  by (auto simp: covered_def returnM_def time_Now_def uuid_New_def rand_Float64_def metricM_def raiseM_def)

lemma covered_bind [covered_rules]:
  assumes "covered m m'" and "\<And>x. covered (k x) (k' x)"
  shows "covered (bindM m k) (bindM m' k')"
proof (unfold covered_def, intro allI)
  fix E d s
  show "cover (bindM m k E s) = cover (bindM m' k' (E\<lparr>e_driver_text := d\<rparr>) s)"
    using assms(1)
  proof (cases rule: covered_cases [of _ _ E s d])
    case (val x s1)
    with assms(2) [of x] show ?thesis by (simp add: bindM_def covered_def)
  qed (simp add: bindM_def)
qed

lemma covered_inspect:
  assumes "covered m m" and "\<And>e e'. mask e = mask e' \<Longrightarrow> covered (k (Inl e)) (k (Inl e'))"
    and "\<And>x. covered (k (Inr x)) (k (Inr x))"
  shows "covered (bindM (tryM m) k) (bindM (tryM m) k)"
proof (unfold covered_def, intro allI)
  fix E d s
  show "cover (bindM (tryM m) k E s) = cover (bindM (tryM m) k (E\<lparr>e_driver_text := d\<rparr>) s)"
    using assms(1)
  proof (cases rule: covered_cases [of _ _ E s d])
    case (err e e' s1)
    with assms(2) [of e e'] show ?thesis by (simp add: bindM_def tryM_def covered_def)
  next
    case (val x s1)
    with assms(3) [of x] show ?thesis by (simp add: bindM_def tryM_def covered_def)
  qed
qed

lemma covered_map:
  assumes "covered m m'"
    and "\<And>E d s e e' s1. mask e = mask e' \<Longrightarrow>
      cover (f E s (Inl e, s1)) = cover (f (E\<lparr>e_driver_text := d\<rparr>) s (Inl e', s1))"
    and "\<And>E d s x s1. cover (f E s (Inr x, s1)) = cover (f (E\<lparr>e_driver_text := d\<rparr>) s (Inr x, s1))"
  shows "covered (\<lambda>E s. f E s (m E s)) (\<lambda>E s. f E s (m' E s))"
proof (unfold covered_def, intro allI)
  fix E d s
  show "cover (f E s (m E s)) = cover (f (E\<lparr>e_driver_text := d\<rparr>) s (m' (E\<lparr>e_driver_text := d\<rparr>) s))"
    using assms(1) by (cases rule: covered_cases [of _ _ E s d]) (auto simp: assms(2,3))
qed

lemma covered_wrap [covered_rules]:
  "covered m m' \<Longrightarrow> covered (wrapM t m) (wrapM t m')"
  "covered m m' \<Longrightarrow> covered (wrap_rows a b c m) (wrap_rows a b c m')"
  "covered m m' \<Longrightarrow> covered (deferring_Rollback m) (deferring_Rollback m')"
  unfolding wrapM_def wrap_rows_def deferring_Rollback_def by (erule covered_map; simp)+

lemma covered_Let [covered_rules]: "covered (k x) (k x) \<Longrightarrow> covered (let y = x in k y) (let y = x in k y)"
  by simp

lemma covered_if [covered_rules]:
  "(b \<Longrightarrow> covered m m') \<Longrightarrow> (\<not> b \<Longrightarrow> covered n n') \<Longrightarrow> covered (if b then m else n) (if b then m' else n')"
  by simp

lemma covered_case [covered_rules]:
  "covered a a \<Longrightarrow> (\<And>x. covered (b x) (b x)) \<Longrightarrow>
     covered (case z of None \<Rightarrow> a | Some x \<Rightarrow> b x) (case z of None \<Rightarrow> a | Some x \<Rightarrow> b x)"
  "covered (h (fst p) (snd p)) (h (fst p) (snd p)) \<Longrightarrow> covered (case p of (x, y) \<Rightarrow> h x y) (case p of (x, y) \<Rightarrow> h x y)"
  by (auto split: option.splits prod.splits)

lemma covered_call_step [simp]: "call_step (E\<lparr>e_driver_text := d\<rparr>) s = call_step E s"
  by (simp add: call_step_def)

lemma covered_driver_error [simp]: "mask (driver_error E n) = mask (driver_error E' n')"
  by (simp add: driver_error_def)

lemma covered_db_call [covered_rules]:
  "(\<And>n. covered (body n) (body n)) \<Longrightarrow> covered (db_call body) (db_call body)"
  unfolding covered_def [of "db_call body"] by (auto simp: db_call_def) (simp add: covered_def)

lemma covered_with_uuid [covered_rules]:
  "(\<And>u. covered (k u) (k u)) \<Longrightarrow> covered (with_uuid t n k) (with_uuid t n k)"
  unfolding covered_def [of "with_uuid t n k"] by (auto simp: with_uuid_def split: option.splits) (simp add: covered_def)

lemma covered_tx_call [covered_rules]:
  assumes "\<And>n tx. covered (body n tx) (body n tx)"
  shows "covered (tx_call body) (tx_call body)"
  unfolding tx_call_def
proof (rule covered_db_call)
  fix n
  have "covered (body n tx) (body n tx)" for tx by (rule assms)
  then show "covered (\<lambda>E s. case s_txn s of None \<Rightarrow> (Inl (driver_error E n), s) | Some tx \<Rightarrow> body n tx E s)
      (\<lambda>E s. case s_txn s of None \<Rightarrow> (Inl (driver_error E n), s) | Some tx \<Rightarrow> body n tx E s)"
    by (auto simp: covered_def split: option.splits)
qed

lemma covered_Commit [covered_rules]: "covered Commit Commit"
  by (auto simp: covered_def Commit_def Let_def split: option.splits fault.splits)

section \<open>Statements and operations\<close>

lemma covered_statements [covered_rules]:
  "covered BeginTx BeginTx" "covered (InsertWorkflowExecution x) (InsertWorkflowExecution x)"
  "covered (UpdateWorkflowStatus wid rid st) (UpdateWorkflowStatus wid rid st)"
  "covered (InsertEvent e) (InsertEvent e)" "covered (GetEvents wid rid) (GetEvents wid rid)"
  "covered (InsertTask t) (InsertTask t)" "covered (CompleteTask i) (CompleteTask i)"
  "covered (InsertTimer tm) (InsertTimer tm)" "covered GetDueTimers GetDueTimers"
  "covered (MarkTimerFired i) (MarkTimerFired i)"
  "covered (InsertWorkflowTaskIfNotExists t) (InsertWorkflowTaskIfNotExists t)"
  "covered (GetWorkflowExecution wid rid) (GetWorkflowExecution wid rid)"
  "covered (GetLatestExecution wid) (GetLatestExecution wid)" "covered (GetTask i) (GetTask i)"
  unfolding BeginTx_def InsertWorkflowExecution_def UpdateWorkflowStatus_def InsertEvent_def GetEvents_def InsertTask_def
    CompleteTask_def InsertTimer_def GetDueTimers_def MarkTimerFired_def InsertWorkflowTaskIfNotExists_def
    GetWorkflowExecution_def GetLatestExecution_def GetTask_def
  by (intro covered_rules; auto simp: covered_def split: prod.splits)+

lemma covered_ReclaimExpiredLeases: "covered ReclaimExpiredLeases ReclaimExpiredLeases"
  by (auto simp: covered_def ReclaimExpiredLeases_def Let_def split: fault.splits)

lemma covered_apply_commands [covered_rules]:
  "covered (apply_commands x wid rid cs st) (apply_commands x wid rid cs st)"
proof (induction cs arbitrary: st)
  case (Cons c cs)
  then show ?case unfolding apply_commands.simps apply_command_def by (intro covered_rules)
qed (simp add: covered_rules)

lemma covered_fire_timers [covered_rules]: "covered (fire_timers tms) (fire_timers tms)"
proof (induction tms)
  case (Cons t tms)
  then show ?case unfolding fire_timers.simps fire_timer_def by (intro covered_rules)
qed (simp add: covered_rules)

lemma covered_StartWorkflow: "covered (StartWorkflow wid wtype q input) (StartWorkflow wid wtype q input)"
  unfolding StartWorkflow_def in_tx_def
proof (rule covered_bind, rule covered_wrap, rule covered_statements, rule covered_wrap(3), rule covered_inspect, goal_cases)
  case (2 u e e')
  with mask_eq_root [of e e' ErrNotFound] show ?case by (auto intro!: covered_rules)
qed (auto intro!: covered_rules)

lemma covered_operations:
  "covered (CompleteWorkflowTask i wid rid cs) (CompleteWorkflowTask i wid rid cs)"
  "covered (CompleteActivityTask i wid rid result) (CompleteActivityTask i wid rid result)"
  "covered (FailActivityTask i wid rid msg) (FailActivityTask i wid rid msg)"
  "covered ScanTimers ScanTimers"
  "covered (SignalWorkflow wid rid name input) (SignalWorkflow wid rid name input)"
  "covered (PollTask q ty owner) (PollTask q ty owner)"
  unfolding CompleteWorkflowTask_def CompleteActivityTask_def FailActivityTask_def ScanTimers_def SignalWorkflow_def
    signal_run_def PollTask_def netxtRetryDelay_def in_tx_def
  by (intro covered_rules; auto simp: covered_def)+

section \<open>Replies\<close>

text \<open>A handler that catches every error of its operation does not depend on the texts at all.\<close>

definition uniform :: "'a M \<Rightarrow> bool" where
  "uniform m \<longleftrightarrow> (\<forall>E d s. m E s = m (E\<lparr>e_driver_text := d\<rparr>) s)"

lemma uniform_pure [intro]:
  "uniform (returnM x)" "uniform (metricM f)" "uniform (bindM (count_poll a b) (\<lambda>_. returnM x))"
  "uniform m \<Longrightarrow> uniform (bindM (count_poll a b) (\<lambda>_. m))"
  by (auto simp: uniform_def returnM_def metricM_def bindM_def count_poll_def)

lemma uniform_handler:
  assumes "covered m m" and "\<And>e e'. mask e = mask e' \<Longrightarrow> k (Inl e) = k (Inl e')"
    and "\<And>r. uniform (k r)"
  shows "uniform (bindM (tryM m) k)"
proof (unfold uniform_def, intro allI)
  fix E d s
  show "bindM (tryM m) k E s = bindM (tryM m) k (E\<lparr>e_driver_text := d\<rparr>) s"
    using assms(1)
  proof (cases rule: covered_cases [of _ _ E s d])
    case (err e e' s1)
    with assms(2) [of e e'] assms(3) [of "Inl e'"] show ?thesis by (simp add: bindM_def tryM_def uniform_def)
  next
    case (val x s1)
    with assms(3) [of "Inr x"] show ?thesis by (simp add: bindM_def tryM_def uniform_def)
  qed
qed

lemma uniform_case [intro]:
  "(\<And>e. uniform (f e)) \<Longrightarrow> (\<And>x. uniform (g x)) \<Longrightarrow> uniform (case r of Inl e \<Rightarrow> f e | Inr x \<Rightarrow> g x)"
  "uniform a \<Longrightarrow> (\<And>x. uniform (b x)) \<Longrightarrow> uniform (case z of None \<Rightarrow> a | Some x \<Rightarrow> b x)"
  by (auto split: sum.splits option.splits)

lemma uniform_handlers:
  "uniform (Handler_StartWorkflow sreq)" "uniform (Handler_RespondWorkflowTaskCompleted rreq)"
  "uniform (Handler_RespondActivityTaskCompleted creq)" "uniform (Handler_RespondActivityTaskFailed freq)"
  "uniform (Handler_SignalWorkflow greq)" "uniform reclaimLoop_tick"
  unfolding Handler_StartWorkflow_def Handler_RespondWorkflowTaskCompleted_def
    Handler_RespondActivityTaskCompleted_def Handler_RespondActivityTaskFailed_def
    Handler_SignalWorkflow_def reclaimLoop_tick_def
  by (rule uniform_handler, rule covered_StartWorkflow covered_operations covered_ReclaimExpiredLeases,
      (drule toStatus_mask)?, simp del: toStatus.simps, rule uniform_case, rule uniform_pure, rule uniform_pure)+

lemma uniform_scanTimers: "uniform scanTimers_tick"
  unfolding scanTimers_tick_def by (rule uniform_handler [OF covered_operations(4)]) (rule refl, rule uniform_pure)

lemma uniform_PollActivityTask: "uniform (Handler_PollActivityTask req)"
  unfolding Handler_PollActivityTask_def
  by (rule uniform_handler, rule covered_operations, (drule toStatus_mask)?, simp del: toStatus.simps, rule uniform_case,
      rule uniform_pure, rule uniform_case, rule uniform_pure, rule uniform_pure)

lemma uniform_PollWorkflowTask: "uniform (Handler_PollWorkflowTask req)"
  unfolding Handler_PollWorkflowTask_def
  by (rule uniform_handler, rule covered_operations, (drule toStatus_mask)?, simp del: toStatus.simps, rule uniform_case,
      rule uniform_pure, rule uniform_case, rule uniform_pure, rule uniform_pure, rule uniform_handler,
      rule covered_statements, (drule toStatus_mask)?, simp del: toStatus.simps, rule uniform_case, rule uniform_pure,
      rule uniform_pure)

text \<open>The whole reply of a request, its response and its status, and the session after it.\<close>

fun answers_alike :: "request \<Rightarrow> env \<Rightarrow> env \<Rightarrow> sess \<Rightarrow> bool" where
  "answers_alike (RStart req) E E' s \<longleftrightarrow> Handler_StartWorkflow req E s = Handler_StartWorkflow req E' s"
| "answers_alike (RPollWorkflow req) E E' s \<longleftrightarrow> Handler_PollWorkflowTask req E s = Handler_PollWorkflowTask req E' s"
| "answers_alike (RRespondWorkflow req) E E' s \<longleftrightarrow>
     Handler_RespondWorkflowTaskCompleted req E s = Handler_RespondWorkflowTaskCompleted req E' s"
| "answers_alike (RPollActivity req) E E' s \<longleftrightarrow> Handler_PollActivityTask req E s = Handler_PollActivityTask req E' s"
| "answers_alike (RRespondActivity req) E E' s \<longleftrightarrow>
     Handler_RespondActivityTaskCompleted req E s = Handler_RespondActivityTaskCompleted req E' s"
| "answers_alike (RFailActivity req) E E' s \<longleftrightarrow>
     Handler_RespondActivityTaskFailed req E s = Handler_RespondActivityTaskFailed req E' s"
| "answers_alike (RSignal req) E E' s \<longleftrightarrow> Handler_SignalWorkflow req E s = Handler_SignalWorkflow req E' s"
| "answers_alike TickReclaim E E' s \<longleftrightarrow> reclaimLoop_tick E s = reclaimLoop_tick E' s"
| "answers_alike TickTimers E E' s \<longleftrightarrow> scanTimers_tick E s = scanTimers_tick E' s"

lemma answers_alike_texts: "answers_alike q E (E\<lparr>e_driver_text := d\<rparr>) s"
  using uniform_handlers uniform_scanTimers uniform_PollActivityTask uniform_PollWorkflowTask by (cases q) (simp_all add: uniform_def)

end
