(* ===== verification/FrontendProperties.thy ===== *)
theory FrontendProperties
  imports Samples DriverText
begin

text \<open>
  What the clients of the gRPC API see: the status codes of each method, the reply to a poll, and
  the data of the messages.
\<close>

section \<open>The errors of an operation\<close>

text \<open>
  Every error of \<open>m\<close> comes down to a driver error or to one of the sentinels \<open>S\<close>, in every
  environment, with or without interference.
\<close>

definition raises :: "go_error set \<Rightarrow> 'a M \<Rightarrow> bool" where
  "raises S m \<longleftrightarrow> (\<forall>E s e s'. m E s = (Inl e, s') \<longrightarrow> (\<exists>t. root_error e = ErrDriver t) \<or> root_error e \<in> S)"

named_theorems raises_rules "errors of the combinators and of the methods"

lemma raises_combinators [raises_rules]:
  "raises S (returnM x)" "raises S time_Now" "raises S uuid_New" "raises S rand_Float64" "raises S (metricM f)"
  "raises S (tryM m)"
  by (auto simp: raises_def returnM_def time_Now_def uuid_New_def rand_Float64_def metricM_def tryM_def split: prod.splits)

lemma raises_raise [raises_rules]: "(\<exists>t. root_error e = ErrDriver t) \<or> root_error e \<in> S \<Longrightarrow> raises S (raiseM e)"
  by (auto simp: raises_def raiseM_def)

lemma raises_bind [raises_rules]: "raises S m \<Longrightarrow> (\<And>x. raises S (k x)) \<Longrightarrow> raises S (bindM m k)"
  by (fastforce simp: raises_def bindM_def split: prod.splits sum.splits)

lemma raises_wrap [raises_rules]: "raises S m \<Longrightarrow> raises S (wrapM t m)"
  by (fastforce simp: raises_def wrapM_def split: prod.splits sum.splits)

lemma raises_wrap_rows [raises_rules]: "raises S m \<Longrightarrow> raises S (wrap_rows a b c m)"
  by (fastforce simp: raises_def wrap_rows_def split: prod.splits sum.splits)

lemma raises_rollback [raises_rules]: "raises S m \<Longrightarrow> raises S (deferring_Rollback m)"
  by (fastforce simp: raises_def deferring_Rollback_def split: prod.splits)

lemma raises_Let [raises_rules]: "raises S (k x) \<Longrightarrow> raises S (let y = x in k y)"
  by simp

lemma raises_if [raises_rules]:
  "(b \<Longrightarrow> raises S m) \<Longrightarrow> (\<not> b \<Longrightarrow> raises S n) \<Longrightarrow> raises S (if b then m else n)"
  by simp

lemma raises_case [raises_rules]:
  "raises S a \<Longrightarrow> (\<And>x. raises S (b x)) \<Longrightarrow> raises S (case z of None \<Rightarrow> a | Some x \<Rightarrow> b x)"
  "(\<And>e. r = Inl e \<Longrightarrow> raises S (f e)) \<Longrightarrow> (\<And>x. raises S (g x)) \<Longrightarrow> raises S (case r of Inl e \<Rightarrow> f e | Inr x \<Rightarrow> g x)"
  "raises S (h (fst p) (snd p)) \<Longrightarrow> raises S (case p of (x, y) \<Rightarrow> h x y)"
  by (auto split: option.splits sum.splits prod.splits)

lemma raises_db_call [raises_rules]: "(\<And>n. raises S (body n)) \<Longrightarrow> raises S (db_call body)"
  by (auto simp: raises_def db_call_def driver_error_def split: if_splits)

lemma raises_with_uuid [raises_rules]: "(\<And>u. raises S (k u)) \<Longrightarrow> raises S (with_uuid t n k)"
  by (auto simp: raises_def with_uuid_def driver_error_def split: option.splits)

lemma raises_tx_call [raises_rules]:
  "(\<And>n tx. raises S (body n tx)) \<Longrightarrow> raises S (tx_call body)"
  unfolding tx_call_def
  by (rule raises_db_call) (auto simp: raises_def driver_error_def split: option.splits)

lemma raises_Commit [raises_rules]: "raises S Commit"
  by (auto simp: raises_def Commit_def Let_def driver_error_def split: option.splits fault.splits)

lemma raises_statements [raises_rules]:
  "raises S BeginTx" "raises S (InsertWorkflowExecution x)" "raises S (UpdateWorkflowStatus wid rid st)"
  "raises S (InsertEvent e)" "raises S (GetEvents wid rid)" "raises S (InsertTask t)" "raises S (CompleteTask i)"
  "raises S (InsertTimer tm)" "raises S GetDueTimers" "raises S (MarkTimerFired i)"
  "raises S (InsertWorkflowTaskIfNotExists t)"
  unfolding BeginTx_def InsertWorkflowExecution_def UpdateWorkflowStatus_def InsertEvent_def GetEvents_def InsertTask_def
    CompleteTask_def InsertTimer_def GetDueTimers_def MarkTimerFired_def InsertWorkflowTaskIfNotExists_def
  by (intro raises_rules; auto simp: raises_def driver_error_def split: if_splits prod.splits)+

lemma raises_lookups [raises_rules]:
  "ErrNotFound \<in> S \<Longrightarrow> raises S (GetWorkflowExecution wid rid)"
  "ErrNotFound \<in> S \<Longrightarrow> raises S (GetLatestExecution wid)"
  "ErrNotFound \<in> S \<Longrightarrow> raises S (GetTask i)"
  unfolding GetWorkflowExecution_def GetLatestExecution_def GetTask_def
  by (intro raises_rules; auto simp: raises_def)+


lemma raisesD: "raises S m \<Longrightarrow> m E s = (Inl e, s') \<Longrightarrow> (\<exists>t. root_error e = ErrDriver t) \<or> root_error e \<in> S"
  unfolding raises_def by blast

text \<open>An error that is inspected is one of its operation.\<close>

lemma raises_inspect:
  assumes "raises R m" and "\<And>e. (\<exists>t. root_error e = ErrDriver t) \<or> root_error e \<in> R \<Longrightarrow> raises S (k (Inl e))"
    and "\<And>x. raises S (k (Inr x))"
  shows "raises S (bindM (tryM m) k)"
  unfolding raises_def
proof (intro allI impI)
  fix E s e s'
  assume r: "bindM (tryM m) k E s = (Inl e, s')"
  obtain r1 s1 where m: "m E s = (r1, s1)" by (cases "m E s")
  with r have k: "k r1 E s1 = (Inl e, s')" by (simp add: bindM_def tryM_def)
  show "(\<exists>t. root_error e = ErrDriver t) \<or> root_error e \<in> S"
  proof (cases r1)
    case (Inl e1)
    with m assms(1) have "(\<exists>t. root_error e1 = ErrDriver t) \<or> root_error e1 \<in> R"
      unfolding raises_def by blast
    from assms(2) [OF this] have "raises S (k (Inl e1))" .
    with raisesD k Inl show ?thesis by metis
  next
    case (Inr x)
    with raisesD [OF assms(3)] k show ?thesis by metis
  qed
qed

lemma raises_StartWorkflow: "raises {ErrWorkflowAlreadyRunning} (StartWorkflow wid wtype q input)"
  unfolding StartWorkflow_def in_tx_def
  by (rule raises_bind, rule raises_wrap, rule raises_statements(1), rule raises_rollback,
      rule raises_inspect [OF raises_lookups(2), of "{ErrNotFound}"])
    (auto intro!: raises_rules)

lemma raises_apply_commands [raises_rules]: "raises S (apply_commands x wid rid cs st)"
proof (induction cs arbitrary: st)
  case (Cons c cs)
  then show ?case unfolding apply_commands.simps apply_command_def by (intro raises_rules)
qed (simp add: raises_rules)

lemma raises_fire_timers [raises_rules]: "ErrNotFound \<in> S \<Longrightarrow> raises S (fire_timers tms)"
proof (induction tms)
  case (Cons t tms)
  then show ?case unfolding fire_timers.simps fire_timer_def by (intro raises_rules) auto
qed (simp add: raises_rules)

lemma raises_operations:
  "raises {ErrNotFound} (CompleteWorkflowTask i wid rid cs)"
  "raises {ErrNotFound} (CompleteActivityTask i wid rid result)"
  "raises {ErrNotFound} (FailActivityTask i wid rid msg)"
  "raises {ErrNotFound} ScanTimers"
  "raises {ErrNotFound, ErrWorkflowNotRunning} (SignalWorkflow wid rid name input)"
  "raises {} (PollTask q ty owner)"
  unfolding CompleteWorkflowTask_def CompleteActivityTask_def FailActivityTask_def ScanTimers_def SignalWorkflow_def
    signal_run_def PollTask_def netxtRetryDelay_def in_tx_def
  by (intro raises_rules; simp add: raises_def)+


section \<open>Status codes\<close>

definition outcome_status :: "(go_error + 'r reply) \<times> sess \<Rightarrow> Status option" where
  "outcome_status r = (case r of (Inr (resp, st), s') \<Rightarrow> st | (Inl e, s') \<Rightarrow> None)"

fun reply_status :: "request \<Rightarrow> env \<Rightarrow> sess \<Rightarrow> Status option" where
  "reply_status (RStart req) E s = outcome_status (Handler_StartWorkflow req E s)"
| "reply_status (RPollWorkflow req) E s = outcome_status (Handler_PollWorkflowTask req E s)"
| "reply_status (RRespondWorkflow req) E s = outcome_status (Handler_RespondWorkflowTaskCompleted req E s)"
| "reply_status (RPollActivity req) E s = outcome_status (Handler_PollActivityTask req E s)"
| "reply_status (RRespondActivity req) E s = outcome_status (Handler_RespondActivityTaskCompleted req E s)"
| "reply_status (RFailActivity req) E s = outcome_status (Handler_RespondActivityTaskFailed req E s)"
| "reply_status (RSignal req) E s = outcome_status (Handler_SignalWorkflow req E s)"
| "reply_status TickReclaim E s = None"
| "reply_status TickTimers E s = None"

fun status_codes :: "request \<Rightarrow> code set" where
  "status_codes (RStart req) = {AlreadyExists, Internal}"
| "status_codes (RPollWorkflow req) = {Internal}"
| "status_codes (RPollActivity req) = {Internal}"
| "status_codes (RSignal req) = {NotFound, FailedPrecondition, Internal}"
| "status_codes q = {NotFound, Internal}"

text \<open>The end of a message with each code: the text of the sentinel, or a fixed text.\<close>

fun code_text :: "code \<Rightarrow> string" where
  "code_text AlreadyExists = ''workflow already running''"
| "code_text FailedPrecondition = ''workflow not running''"
| "code_text NotFound = ''not found''"
| "code_text Internal = ''internal error''"

fun sentinel_code :: "go_error \<Rightarrow> code" where
  "sentinel_code ErrWorkflowAlreadyRunning = AlreadyExists"
| "sentinel_code ErrWorkflowNotRunning = FailedPrecondition"
| "sentinel_code ErrNotFound = NotFound"
| "sentinel_code e = Internal"

lemma error_Error_root: "\<exists>p. error_Error e = p @ error_Error (root_error e)"
proof (induction e)
  case (Errorf m e)
  then obtain p where "error_Error e = p @ error_Error (root_error e)" by blast
  then have "error_Error (Errorf m e) = (m @ '': '' @ p) @ error_Error (root_error (Errorf m e))" by simp
  then show ?case by blast
qed auto

lemma toStatus_code:
  "\<exists>st. toStatus (Some err) = Some st \<and> status_code st = sentinel_code (root_error err) \<and>
     (status_code st = Internal \<longrightarrow> status_message st = ''internal error'') \<and>
     (\<exists>p. status_message st = p @ code_text (status_code st))"
  using error_Error_root [of err] by (cases "root_error err") auto

lemma raised_code:
  "raises S m \<Longrightarrow> m E s = (Inl e, s') \<Longrightarrow> sentinel_code (root_error e) \<in> insert Internal (sentinel_code ` S)"
  using raisesD [of S m E s e s'] by auto

definition coded :: "code set \<Rightarrow> Status \<Rightarrow> bool" where
  "coded C st \<longleftrightarrow> status_code st \<in> C \<and> (status_code st = Internal \<longrightarrow> status_message st = ''internal error'') \<and>
     (\<exists>p. status_message st = p @ code_text (status_code st))"

lemma toStatus_coded:
  assumes "raises S m" and "m E s = (Inl err, s')" and "insert Internal (sentinel_code ` S) \<subseteq> C"
    and "toStatus (Some err) = Some st"
  shows "coded C st"
  using raised_code [OF assms(1,2)] toStatus_code [of err] assms(3,4) by (auto simp: coded_def)

lemma outcome_status_simps [simp]:
  "outcome_status (returnM (r, st) E s) = st"
  "outcome_status (bindM (count_poll a b) k E s) =
     outcome_status (k () E (s\<lparr>s_metrics := (s_metrics s)\<lparr>TaskPolls := (TaskPolls (s_metrics s))
       ((a, b) := TaskPolls (s_metrics s) (a, b) + 1)\<rparr>\<rparr>))"
  by (simp_all add: outcome_status_def returnM_def bindM_def count_poll_def metricM_def)

text \<open>A handler that turns each error into its status, and goes on with a value.\<close>

lemma handler_codes:
  assumes "outcome_status (bindM (tryM m) k E s) = Some st" and "raises S m"
    and "insert Internal (sentinel_code ` S) \<subseteq> C"
    and "\<And>err E s. outcome_status (k (Inl err) E s) = toStatus (Some err)"
    and "\<And>x E s. outcome_status (k (Inr x) E s) = Some st \<Longrightarrow> coded C st"
  shows "coded C st"
proof -
  obtain r1 s1 where m: "m E s = (r1, s1)" by (cases "m E s")
  then have k: "outcome_status (k r1 E s1) = Some st" using assms(1) by (simp add: bindM_def tryM_def)
  show ?thesis
  proof (cases r1)
    case (Inl err)
    with k assms(4) have "toStatus (Some err) = Some st" by simp
    with toStatus_coded [OF assms(2) _ assms(3)] m Inl show ?thesis by metis
  next
    case (Inr x)
    with k assms(5) show ?thesis by metis
  qed
qed

lemma Handler_PollWorkflowTask_codes:
  assumes "outcome_status (Handler_PollWorkflowTask req E s) = Some st"
  shows "coded {Internal} st"
  using assms unfolding Handler_PollWorkflowTask_def
proof (rule handler_codes [OF _ raises_operations(6)])
  fix row :: "Task option" and E s
  assume "outcome_status ((case Inr row of Inl err \<Rightarrow> returnM (Some zero_PollWorkflowTaskResponse, toStatus (Some err))
     | Inr row \<Rightarrow> (case row of
         None \<Rightarrow> bindM (count_poll ''workflow'' ''miss'') (\<lambda>_. returnM (Some zero_PollWorkflowTaskResponse, None))
       | Some task \<Rightarrow> bindM (count_poll ''workflow'' ''hit'') (\<lambda>_.
           bindM (tryM (GetEvents (t_WorkflowID task) (t_RunID task))) (\<lambda>res. case res of
             Inl err \<Rightarrow> returnM (None, toStatus (Some err))
           | Inr evs \<Rightarrow> returnM (Some \<lparr>pwr_TaskId = t_ID task, pwr_WorkflowId = t_WorkflowID task,
                pwr_RunId = t_RunID task, pwr_WorkflowType = t_WorkflowType task,
                pwr_History = marshalEvents evs\<rparr>, None))))) E s) = Some st"
  then show "coded {Internal} st"
    by (cases row) (auto elim!: handler_codes [OF _ raises_statements(5) [of "{}"]])
qed simp_all

lemma Handler_PollActivityTask_codes:
  "outcome_status (Handler_PollActivityTask req E s) = Some st \<Longrightarrow> coded {Internal} st"
  unfolding Handler_PollActivityTask_def
  by (erule handler_codes [OF _ raises_operations(6)]) (auto split: option.splits)

lemma response_codes:
  "outcome_status (Handler_StartWorkflow sreq E s) = Some st \<Longrightarrow> coded {AlreadyExists, Internal} st"
  "outcome_status (Handler_RespondWorkflowTaskCompleted wreq E s) = Some st \<Longrightarrow> coded {NotFound, Internal} st"
  "outcome_status (Handler_RespondActivityTaskCompleted areq E s) = Some st \<Longrightarrow> coded {NotFound, Internal} st"
  "outcome_status (Handler_RespondActivityTaskFailed freq E s) = Some st \<Longrightarrow> coded {NotFound, Internal} st"
  "outcome_status (Handler_SignalWorkflow greq E s) = Some st \<Longrightarrow> coded {NotFound, FailedPrecondition, Internal} st"
  unfolding Handler_StartWorkflow_def Handler_RespondWorkflowTaskCompleted_def Handler_RespondActivityTaskCompleted_def
    Handler_RespondActivityTaskFailed_def Handler_SignalWorkflow_def
  by (erule handler_codes [OF _ raises_StartWorkflow] handler_codes [OF _ raises_operations(1)]
      handler_codes [OF _ raises_operations(2)] handler_codes [OF _ raises_operations(3)]
      handler_codes [OF _ raises_operations(5)]; auto)+

text \<open>
  C32: every failure of an RPC carries one of the codes of its method: \<open>AlreadyExists\<close> or
  \<open>Internal\<close> for a start, \<open>NotFound\<close>, \<open>FailedPrecondition\<close> or \<open>Internal\<close> for a signal, \<open>Internal\<close>
  for a poll, \<open>NotFound\<close> or \<open>Internal\<close> for a response. An internal error says nothing but
  "internal error", and any other message ends in the text of the engine's own error. No text of
  the database driver reaches a client: had the driver put its errors in other words, the
  response, the status with its message and the session after it would be the same. All this
  whatever fails and whatever runs concurrently.
\<close>

theorem reply_codes:
  assumes "reply_status q E s = Some st"
  shows "status_code st \<in> status_codes q \<and>
    (status_code st = Internal \<longrightarrow> status_message st = ''internal error'') \<and>
    (\<exists>p. status_message st = p @ code_text (status_code st)) \<and>
    (\<forall>d. answers_alike q E (E\<lparr>e_driver_text := d\<rparr>) s \<and> reply_status q (E\<lparr>e_driver_text := d\<rparr>) s = Some st)"
proof -
  have "coded (status_codes q) st"
    using assms by (cases q) (simp_all add: response_codes Handler_PollWorkflowTask_codes Handler_PollActivityTask_codes)
  moreover have "reply_status q (E\<lparr>e_driver_text := d\<rparr>) s = reply_status q E s" for d
    using answers_alike_texts [of q E d s] by (cases q) simp_all
  ultimately show ?thesis using assms answers_alike_texts [of q E _ s] by (simp add: coded_def)
qed

definition sample_pool_down :: env where
  "sample_pool_down = sample_env\<lparr>e_fault := (\<lambda>_. Fault), e_driver_text := (\<lambda>_. ''FATAL: password authentication failed'')\<rparr>"

theorem reply_codes_witness:
  "(\<exists>st. reply_status (RStart sample_start) sample_env sample_started = Some st \<and> status_code st = AlreadyExists \<and>
     status_message st = ''w: workflow already running'' \<and> AlreadyExists \<in> status_codes (RStart sample_start)) \<and>
   (\<exists>st. reply_status (RStart sample_start) sample_pool_down sample_started = Some st \<and> status_message st = ''internal error'' \<and>
     reply_status (RStart sample_start) (sample_pool_down\<lparr>e_driver_text := (\<lambda>_. [])\<rparr>) sample_started = Some st)"
proof -
  have r: "reply_status (RStart sample_start) sample_env sample_started =
      Some (Status AlreadyExists ''w: workflow already running'')" by code_simp
  have f: "reply_status (RStart sample_start) sample_pool_down sample_started = Some (Status Internal ''internal error'')"
    by code_simp
  from reply_codes [OF r] reply_codes [OF f] r f show ?thesis by simp
qed

section \<open>The reply to a poll\<close>

definition leased :: "Task \<Rightarrow> string \<Rightarrow> time \<Rightarrow> tables \<Rightarrow> tables" where
  "leased t owner expires T = T\<lparr>tasks := map (\<lambda>t'. if t_ID t' = t_ID t
     then t'\<lparr>t_LeaseOwner := Some owner, t_LeaseExpiresAt := Some expires\<rparr> else t') (tasks T)\<rparr>"

definition polls :: "sess \<Rightarrow> string \<Rightarrow> string \<Rightarrow> nat" where
  "polls s ttype result = TaskPolls (s_metrics s) (ttype, result)"

definition counted_poll :: "string \<Rightarrow> string \<Rightarrow> sess \<Rightarrow> sess" where
  "counted_poll a b s = s\<lparr>s_metrics := (s_metrics s)\<lparr>TaskPolls := (TaskPolls (s_metrics s))
     ((a, b) := TaskPolls (s_metrics s) (a, b) + 1)\<rparr>\<rparr>"

definition task_response :: "Task \<Rightarrow> Event list \<Rightarrow> PollWorkflowTaskResponse" where
  "task_response t evs = \<lparr>pwr_TaskId = t_ID t, pwr_WorkflowId = t_WorkflowID t, pwr_RunId = t_RunID t,
     pwr_WorkflowType = t_WorkflowType t, pwr_History = marshalEvents evs\<rparr>"

lemma counted_poll_simps [simp]:
  "s_store (counted_poll a b s) = s_store s"
  "polls (counted_poll a b s) a b = polls s a b + 1"
  by (simp_all add: counted_poll_def polls_def)

lemma Handler_PollWorkflowTask_run:
  assumes "PollTask (pwq_TaskQueue req) ''workflow'' (pwq_LeaseOwner req) E s = (r, s0)"
  shows "Handler_PollWorkflowTask req E s = (case r of
      Inl err \<Rightarrow> (Inr (Some zero_PollWorkflowTaskResponse, toStatus (Some err)), s0)
    | Inr None \<Rightarrow> (Inr (Some zero_PollWorkflowTaskResponse, None), counted_poll ''workflow'' ''miss'' s0)
    | Inr (Some t) \<Rightarrow> (case GetEvents (t_WorkflowID t) (t_RunID t) E (counted_poll ''workflow'' ''hit'' s0) of
        (Inl err, s2) \<Rightarrow> (Inr (None, toStatus (Some err)), s2)
      | (Inr evs, s2) \<Rightarrow> (Inr (Some (task_response t evs), None), s2)))"
  using assms
  by (auto simp: Handler_PollWorkflowTask_def bindM_def tryM_def returnM_def count_poll_def metricM_def
      counted_poll_def task_response_def split: sum.splits option.splits prod.splits)

lemma GetEvents_read:
  assumes "serial E" and "GetEvents wid rid E s = (g, s')"
  shows "s_store s' = s_store s" and "s_metrics s' = s_metrics s"
    and "g = Inr evs \<Longrightarrow> \<exists>u r. e_uuid E rid = Some u \<and> evs = select_events r wid u (tabs (s_store s))"
  using assms
  by (auto simp: GetEvents_def wrap_rows_def db_call_def with_uuid_def split: prod.splits sum.splits option.splits if_splits)

text \<open>After a poll took the task \<open>t\<close>.\<close>

lemma polled_hit:
  assumes E: "serial E" and wf: "wf_store (e_uuid E) (s_store s)" and d: "dense (tabs (s_store s))"
    and t: "t \<in> set (tasks (tabs (s_store s)))" and l: "tabs (s_store s0) = leased t owner expires (tabs (s_store s))"
    and m: "s_metrics s0 = s_metrics s"
    and g: "GetEvents (t_WorkflowID t) (t_RunID t) E (counted_poll ''workflow'' ''hit'' s0) = (g, s2)"
  shows "tabs (s_store s2) = tabs (s_store s0)" and "polls s2 ''workflow'' ''hit'' = polls s ''workflow'' ''hit'' + 1"
    and "g = Inr evs \<Longrightarrow> evs = run_events (t_WorkflowID t) (t_RunID t) (tabs (s_store s))"
proof -
  note read = GetEvents_read [OF E g]
  show "tabs (s_store s2) = tabs (s_store s0)" using read(1) by simp
  show "polls s2 ''workflow'' ''hit'' = polls s ''workflow'' ''hit'' + 1"
    using read(2) m by (simp add: polls_def counted_poll_def)
  have run: "run_events w v (tabs (s_store s0)) = run_events w v (tabs (s_store s))" for w v
    by (simp add: l leased_def run_events_def)
  then have "dense (tabs (s_store s0))" using d by (simp add: dense_def)
  with read(3) wf_run_uuid [OF wf t] run
  show "g = Inr evs \<Longrightarrow> evs = run_events (t_WorkflowID t) (t_RunID t) (tabs (s_store s))"
    by (auto simp: select_events_dense)
qed

text \<open>
  C33: a workflow poll that succeeds either leases nothing, counts a miss and answers with
  the empty response because every pollable row of the queue is locked by someone else; or leases
  for 30 seconds one task of the queue, counts a hit and answers with that task and the whole
  history of its run, in the order of the event IDs. One that fails after the lease (because the
  history could not be read) has counted a hit and keeps the lease, so the task comes back only
  when the lease expires.
\<close>

theorem poll_reply:
  assumes E: "serial E" and wf: "wf_store (e_uuid E) (s_store s)" and d: "dense (tabs (s_store s))"
    and r: "Handler_PollWorkflowTask req E s = (Inr (resp, st), s')" and "st = None \<or> resp = None"
  defines "now \<equiv> begin_now E s"
  shows "\<exists>n. (st = None \<and> resp = Some zero_PollWorkflowTaskResponse \<and> tabs (s_store s') = tabs (s_store s) \<and>
      (\<forall>t \<in> set (tasks (tabs (s_store s))). pollable (pwq_TaskQueue req) ''workflow'' now t \<longrightarrow> e_row_locked E n (t_ID t)) \<and>
      polls s' ''workflow'' ''miss'' = polls s ''workflow'' ''miss'' + 1) \<or>
    (\<exists>t \<in> set (tasks (tabs (s_store s))). pollable (pwq_TaskQueue req) ''workflow'' now t \<and> \<not> e_row_locked E n (t_ID t) \<and>
      tabs (s_store s') = leased t (pwq_LeaseOwner req) (now + 30 * 10 ^ 9) (tabs (s_store s)) \<and>
      polls s' ''workflow'' ''hit'' = polls s ''workflow'' ''hit'' + 1 \<and>
      resp = (if st = None then Some (task_response t (run_events (t_WorkflowID t) (t_RunID t) (tabs (s_store s)))) else None))"
proof -
  obtain r0 s0 where p: "PollTask (pwq_TaskQueue req) ''workflow'' (pwq_LeaseOwner req) E s = (r0, s0)"
    by (cases "PollTask (pwq_TaskQueue req) ''workflow'' (pwq_LeaseOwner req) E s")
  note run = r [unfolded Handler_PollWorkflowTask_run [OF p]] and effect = wpD [OF wp_PollTask [OF E] p]
  consider (failed) err where "r0 = Inl err" | (miss) "r0 = Inr None" | (hit) t where "r0 = Inr (Some t)"
    by (cases r0) auto
  then show ?thesis
  proof cases
    case failed
    with run assms(5) toStatus_code [of err] show ?thesis by auto
  next
    case miss
    with effect obtain n where "s_metrics s0 = s_metrics s" "tabs (s_store s0) = tabs (s_store s)" and
      "select_pollable (e_row_locked E n) (pwq_TaskQueue req) ''workflow'' (e_db_now E (s_tick s)) (tabs (s_store s)) = None"
      by (auto simp: quiet_def)
    with run miss show ?thesis unfolding now_def begin_now_def
      by (intro exI [of _ n]) (auto simp: select_pollable_None counted_poll_def polls_def)
  next
    case (hit t)
    with effect obtain n where m: "s_metrics s0 = s_metrics s" and
      sel: "select_pollable (e_row_locked E n) (pwq_TaskQueue req) ''workflow'' (e_db_now E (s_tick s)) (tabs (s_store s)) = Some t" and
      l: "tabs (s_store s0) = leased t (pwq_LeaseOwner req) (e_db_now E (s_tick s) + 30 * 10 ^ 9) (tabs (s_store s))"
      by (auto simp: PollTask_effect_def committed_def leased_def lease_interval_def)
    note t = select_pollable_Some [OF sel]
    obtain g s2 where g: "GetEvents (t_WorkflowID t) (t_RunID t) E (counted_poll ''workflow'' ''hit'' s0) = (g, s2)"
      by (cases "GetEvents (t_WorkflowID t) (t_RunID t) E (counted_poll ''workflow'' ''hit'' s0)")
    note after = polled_hit [OF E wf d t(1) l m g]
    from run hit g after toStatus_code have "s' = s2" and
      "resp = (if st = None then Some (task_response t (run_events (t_WorkflowID t) (t_RunID t) (tabs (s_store s)))) else None)"
      by (auto split: sum.splits simp del: toStatus.simps)
    with t l after(1,2) show ?thesis unfolding now_def begin_now_def
      by (intro exI [of _ n] disjI2 bexI [of _ t]) simp_all
  qed
qed

definition sample_poll :: PollWorkflowTaskRequest where
  "sample_poll = \<lparr>pwq_TaskQueue = ''q'', pwq_LeaseOwner = ''me''\<rparr>"

theorem poll_reply_witness:
  "\<exists>t \<in> set (tasks (tabs (s_store sample_started))).
     fst (Handler_PollWorkflowTask sample_poll sample_env sample_started) =
       Inr (Some (task_response t (run_events (t_WorkflowID t) (t_RunID t) (tabs (s_store sample_started)))), None)"
proof -
  have "map_sum id (\<lambda>(r, st). (map_option pwr_TaskId r, st)) (fst (Handler_PollWorkflowTask sample_poll sample_env sample_started)) =
      Inr (Some 1, None)" by code_simp
  then obtain r where r: "fst (Handler_PollWorkflowTask sample_poll sample_env sample_started) = Inr (Some r, None)"
    and i: "pwr_TaskId r = 1"
    by (cases "fst (Handler_PollWorkflowTask sample_poll sample_env sample_started)") auto
  then have "r \<noteq> zero_PollWorkflowTaskResponse" by (auto simp: zero_PollWorkflowTaskResponse_def)
  with poll_reply [OF sample_env_ok(1) sample_wf sample_dense ran [OF r]] r show ?thesis by auto
qed

end
