(* ===== verification/Leases.thy ===== *)
theory Leases
  imports Executions
begin

text \<open>
  Leases. A poll hands a task to one worker until a deadline on the database clock; nothing but a
  reclaim after the deadline gives the task to anyone else.
\<close>

section \<open>What a request does to the tasks\<close>

lemma fired_log_ids: "fired_log E T now es ts tms ws \<Longrightarrow> \<forall>t \<in> set (task_rows ws). ts < t_ID t"
proof (induction tms arbitrary: es ts ws)
  case (Cons t tms)
  then show ?case by (fastforce simp: Let_def dest!: Cons.IH)
qed simp

lemma command_log_tasks:
  assumes "command_log E x wid rid u now es ts ms n cs ws" and "t \<in> set (tasks (apply_log ws T))"
  shows "t \<in> set (tasks T) \<or> ts < t_ID t"
  using command_log_tables [OF assms(1)] command_log_ids [OF assms(1)] assms(2) by auto

lemma CompleteWorkflowTask_tasks:
  assumes "CompleteWorkflowTask_effect E s j wid rid cs s'" and "t \<in> set (tasks (tabs (s_store s')))"
  shows "t \<in> set (tasks (tabs (s_store s))) \<or> task_seq (s_store s) < t_ID t"
  using assms unfolding CompleteWorkflowTask_effect_def committed_def
  by (auto split: if_split_asm dest: command_log_tasks)

lemma ScanTimers_tasks:
  assumes wf: "wf_store (e_uuid E) (s_store s)" and "ScanTimers_effect E s tms s'"
    and t: "t \<in> set (tasks (tabs (s_store s')))"
  shows "t \<in> set (tasks (tabs (s_store s))) \<or> task_seq (s_store s) < t_ID t"
proof -
  from assms(2) obtain ws where due: "due_timers E s tms"
    and f: "fired_log E (tabs (s_store s)) (begin_now E s) (event_seq (s_store s)) (task_seq (s_store s)) tms ws"
    and c: "committed ws (int (length tms)) (int (length tms)) 0 s s'"
    unfolding ScanTimers_effect_def by blast
  have u: "\<forall>t \<in> set tms. e_uuid E (tm_RunID t) = Some (tm_RunID t)"
    using wf_timers [OF wf] due_timers_select(1) [OF due] by blast
  from fired_log_tables [OF f u] fired_log_ids [OF f] c t show ?thesis by (auto simp: committed_def)
qed

text \<open>A request that is no poll and no reclaim deletes tasks and inserts tasks under fresh IDs.\<close>

lemma request_tasks:
  assumes wf: "wf_store (e_uuid E) (s_store s)" and eff: "request_effect q E s s'"
    and "\<forall>req. q \<noteq> RPollWorkflow req" and "\<forall>req. q \<noteq> RPollActivity req" and "q \<noteq> TickReclaim"
    and t: "t \<in> set (tasks (tabs (s_store s')))"
  shows "t \<in> set (tasks (tabs (s_store s))) \<or> task_seq (s_store s) < t_ID t"
proof (cases q)
  case (RRespondWorkflow req)
  with eff t CompleteWorkflowTask_tasks show ?thesis by auto
next
  case TickTimers
  with eff t ScanTimers_tasks [OF wf] show ?thesis by auto
next
  case (RStart req)
  with eff t show ?thesis by (auto simp: StartWorkflow_effect_def committed_def new_event_def new_task_def)
next
  case (RRespondActivity req)
  with eff t show ?thesis by (auto simp: CompleteActivityTask_effect_def committed_def new_event_def new_task_def)
next
  case (RFailActivity req)
  with eff t show ?thesis
    by (auto simp: RetryActivityTask_effect_def ExhaustActivityTask_effect_def committed_def new_event_def new_task_def
        split: if_split_asm)
next
  case (RSignal req)
  with eff t show ?thesis
    by (auto simp: SignalWorkflow_effect_def committed_def signal_event_def wakeup_row_def split: if_split_asm)
qed (use assms in auto)

section \<open>Holding a lease\<close>

definition lease_held :: "int \<Rightarrow> string \<Rightarrow> time \<Rightarrow> sess \<Rightarrow> bool" where
  "lease_held i owner expires s \<longleftrightarrow> i \<le> task_seq (s_store s) \<and> (\<forall>t \<in> set (tasks (tabs (s_store s))).
     t_ID t = i \<longrightarrow> t_LeaseOwner t = Some owner \<and> t_LeaseExpiresAt t = Some expires)"

text \<open>No reclaim comes after the deadline.\<close>

definition reclaims_until :: "time \<Rightarrow> env \<Rightarrow> sess \<Rightarrow> request \<Rightarrow> bool" where
  "reclaims_until deadline E s q \<longleftrightarrow> (q = TickReclaim \<longrightarrow> begin_now E s \<le> deadline)"

lemma PollTask_effect_lease:
  assumes "PollTask_effect E s q ty owner' t0 s'" and held: "lease_held i owner expires s"
    and "t \<in> set (tasks (tabs (s_store s')))" and "t_ID t = i"
  shows "t_LeaseOwner t = Some owner \<and> t_LeaseExpiresAt t = Some expires"
proof -
  from assms(1) obtain n where
    sel: "select_pollable (e_row_locked E n) q ty (e_db_now E (s_tick s)) (tabs (s_store s)) = Some t0"
    and c: "tasks (tabs (s_store s')) = map (\<lambda>t. if t_ID t = t_ID t0 then t\<lparr>t_LeaseOwner := Some owner',
        t_LeaseExpiresAt := Some (e_db_now E (s_tick s) + lease_interval)\<rparr> else t) (tasks (tabs (s_store s)))"
    by (auto simp: PollTask_effect_def committed_def)
  from select_pollable_Some(1,2) [OF sel] held have "t_ID t0 \<noteq> i" by (auto simp: lease_held_def pollable_def)
  with c assms(3,4) held show ?thesis by (auto simp: lease_held_def)
qed

lemma request_keeps_lease:
  assumes wf: "wf_store (e_uuid E) (s_store s)" and held: "lease_held i owner expires s"
    and eff: "request_effect q E s s'" and ok: "reclaims_until expires E s q"
    and t: "t \<in> set (tasks (tabs (s_store s')))" "t_ID t = i"
  shows "t_LeaseOwner t = Some owner \<and> t_LeaseExpiresAt t = Some expires"
proof -
  consider (poll) "(\<exists>req. q = RPollWorkflow req) \<or> (\<exists>req. q = RPollActivity req)" | (reclaim) "q = TickReclaim"
    | (other) "\<forall>req. q \<noteq> RPollWorkflow req" "\<forall>req. q \<noteq> RPollActivity req" "q \<noteq> TickReclaim" by blast
  then show ?thesis
  proof cases
    case poll
    with eff PollTask_effect_lease [OF _ held t] show ?thesis by auto
  next
    case reclaim
    with eff t held ok show ?thesis
      by (auto simp: committed_def lease_held_def reclaims_until_def expired_def release_lease_def split: if_split_asm)
  next
    case other
    from request_tasks [OF wf eff other t(1)] t(2) held show ?thesis by (auto simp: lease_held_def)
  qed
qed

lemma lease_held_serve:
  assumes "serial E" "uuid_ok E" "wf_store (e_uuid E) (s_store s)" "lease_held i owner expires s"
    and "reclaims_until expires E s q"
  shows "lease_held i owner expires (serve q E s)"
proof -
  have "task_seq (s_store s) \<le> task_seq (s_store (serve q E s))"
    using engine_step_tasks [OF serve_step [OF assms(1-3)]] by blast
  with serve_served [OF assms(1), of q s] request_keeps_lease [OF assms(3,4) _ assms(5)] assms(4) show ?thesis
    by (auto simp: served_def lease_held_def)
qed

lemma lease_held_steps:
  assumes "(step U (reclaims_until expires))\<^sup>*\<^sup>* s s'" and "wf_store U (s_store s)" and "lease_held i owner expires s"
  shows "wf_store U (s_store s') \<and> lease_held i owner expires s'"
  using assms
proof (induction rule: rtranclp_induct)
  case (step s1 s2)
  then have s1: "wf_store U (s_store s1)" "lease_held i owner expires s1" by auto
  from step.hyps(2) obtain E q where "serial E" "uuid_ok E" "e_uuid E = U" "reclaims_until expires E s1 q" "s2 = serve q E s1"
    by (auto elim: stepE)
  with s1 lease_held_serve engine_step_wf [OF serve_step] show ?case by metis
qed auto

lemma lease_held_poll:
  assumes "serial E" and wf: "wf_store (e_uuid E) (s_store s)" and p: "PollTask q ty owner E s = (Inr (Some t), s')"
  shows "lease_held (t_ID t) owner (e_db_now E (s_tick s) + 30 * 10 ^ 9) s'"
proof -
  from wpD [OF wp_PollTask [OF assms(1)] p] obtain n where
    sel: "select_pollable (e_row_locked E n) q ty (e_db_now E (s_tick s)) (tabs (s_store s)) = Some t"
    and c: "committed [SetLease (t_ID t) owner (e_db_now E (s_tick s) + lease_interval)] 0 0 0 s s'"
    by (auto simp: PollTask_effect_def)
  from select_pollable_Some(1) [OF sel] wf have "t_ID t \<le> task_seq (s_store s)" by (auto simp: wf_store_def wf_tables_def)
  with c show ?thesis by (auto simp: lease_held_def committed_def lease_interval_def)
qed

lemma poll_not_held:
  assumes "serial E" and p: "PollTask q ty owner E s = (Inr (Some t), s')" and "lease_held i owner' expires s"
  shows "t_ID t \<noteq> i"
proof -
  from wpD [OF wp_PollTask [OF assms(1)] p] obtain n where
    "select_pollable (e_row_locked E n) q ty (e_db_now E (s_tick s)) (tabs (s_store s)) = Some t"
    by (auto simp: PollTask_effect_def)
  from select_pollable_Some(1,2) [OF this] assms(3) show ?thesis by (auto simp: lease_held_def pollable_def)
qed

end
