(* ===== verification/Progress.thy ===== *)
theory Progress
  imports Leases
begin

text \<open>
  Total correctness on a quiet database: when no call fails and no other transaction commits in
  between, an operation succeeds exactly when the rows it needs are there. The rules are those of
  \<open>Effects\<close> for the case without failures; they track only what success depends on, the
  committed tables and whether a transaction is open.
\<close>

definition calm :: "env \<Rightarrow> bool" where
  "calm E \<longleftrightarrow> serial E \<and> fault_free E"

definition goes_on :: "sess \<Rightarrow> sess \<Rightarrow> bool" where
  "goes_on s s' \<longleftrightarrow> tabs (s_store s') = tabs (s_store s) \<and> (in_txn s \<longrightarrow> in_txn s')"

lemma goes_on_refl [simp]: "goes_on s s"
  by (simp add: goes_on_def)

lemma goes_on_trans: "goes_on s s' \<Longrightarrow> goes_on s' s'' \<Longrightarrow> goes_on s s''"
  by (simp add: goes_on_def)

lemma calm_db_call:
  assumes "calm E" and "\<And>s'. goes_on s s' \<Longrightarrow> s_txn s' = s_txn s \<Longrightarrow> wp (body (s_tick s)) E s' Q F"
  shows "wp (db_call body) E s Q F"
  using assms(1) assms(2) [of "call_step E s"]
  by (simp add: wp_def db_call_def calm_def fault_free_def goes_on_def in_txn_def)

lemma calm_tx_call:
  assumes "calm E" and "in_txn s"
    and "\<And>tx s'. goes_on s s' \<Longrightarrow> s_txn s' = s_txn s \<Longrightarrow> s_txn s = Some tx \<Longrightarrow> wp (body (s_tick s) tx) E s' Q F"
  shows "wp (tx_call body) E s Q F"
  unfolding tx_call_def
proof (rule calm_db_call [OF assms(1)])
  fix s' assume s': "goes_on s s'" "s_txn s' = s_txn s"
  obtain tx where "s_txn s = Some tx" using assms(2) by (auto simp: in_txn_def)
  with assms(3) [OF s' this] s' show "wp (\<lambda>E s'. case s_txn s' of None \<Rightarrow> (Inl (driver_error E (s_tick s)), s')
      | Some tx \<Rightarrow> body (s_tick s) tx E s') E s' Q F" by (simp add: wp_def)
qed

lemma calm_with_uuid: "e_uuid E t = Some u \<Longrightarrow> wp (k u) E s Q F \<Longrightarrow> wp (with_uuid t n k) E s Q F"
  by (simp add: wp_def with_uuid_def)

lemma calm_wrap_rows: "wp m E s Q (\<lambda>_ _. False) \<Longrightarrow> wp (wrap_rows a b c m) E s Q F"
  by (auto simp: wp_def wrap_rows_def split: prod.splits sum.splits)

lemma goes_on_log [simp]: "goes_on s (log_write w tx s') \<longleftrightarrow> tabs (s_store s') = tabs (s_store s)"
  by (auto simp: goes_on_def log_write_def in_txn_def)

lemma goes_on_nextval [simp]:
  "goes_on s (snd (nextval_event s')) \<longleftrightarrow> goes_on s s'" "goes_on s (snd (nextval_task s')) \<longleftrightarrow> goes_on s s'"
  "goes_on s (snd (nextval_timer s')) \<longleftrightarrow> goes_on s s'"
  by (simp_all add: goes_on_def nextval_event_def nextval_task_def nextval_timer_def in_txn_def Let_def)

lemma calm_BeginTx:
  assumes "calm E" and "\<And>s'. tabs (s_store s') = tabs (s_store s) \<Longrightarrow> in_txn s' \<Longrightarrow> pending s' = [] \<Longrightarrow> Q () s'"
  shows "wp BeginTx E s Q F"
  unfolding BeginTx_def using assms
  by (intro calm_db_call) (auto simp: wp_def goes_on_def in_txn_def pending_def)

definition run_known :: "env \<Rightarrow> string \<Rightarrow> string \<Rightarrow> tables \<Rightarrow> bool" where
  "run_known E wid rid T \<longleftrightarrow> (\<exists>u. e_uuid E rid = Some u \<and> find_execution wid u T \<noteq> None)"

lemma calm_GetWorkflowExecution:
  assumes "calm E" and "run_known E wid rid (tabs (s_store s))"
    and "\<And>x u s'. goes_on s s' \<Longrightarrow> e_uuid E rid = Some u \<Longrightarrow> find_execution wid u (tabs (s_store s)) = Some x \<Longrightarrow> Q x s'"
  shows "wp (GetWorkflowExecution wid rid) E s Q F"
proof -
  from assms(2) obtain u x where "e_uuid E rid = Some u" and "find_execution wid u (tabs (s_store s)) = Some x"
    by (auto simp: run_known_def simp del: List_find_None)
  with assms(1,3) show ?thesis
    unfolding GetWorkflowExecution_def eval_simps
    by (intro calm_db_call calm_with_uuid)
      (auto simp: wp_def find_execution_def goes_on_def returnM_def simp del: List_find_None)
qed

lemma calm_GetLatestExecution:
  assumes "calm E" and "\<And>x n s'. latest_execution (e_row_rank E n) wid (tabs (s_store s)) = Some x \<Longrightarrow> goes_on s s' \<Longrightarrow>
      s_txn s' = s_txn s \<Longrightarrow> Q x s'"
    and "\<And>n s'. latest_execution (e_row_rank E n) wid (tabs (s_store s)) = None \<Longrightarrow> goes_on s s' \<Longrightarrow>
      s_txn s' = s_txn s \<Longrightarrow> F ErrNotFound s'"
  shows "wp (GetLatestExecution wid) E s Q F"
  unfolding GetLatestExecution_def eval_simps using assms
  by (intro calm_db_call) (auto simp: wp_def goes_on_def returnM_def raiseM_def split: option.splits)

lemma calm_GetEvents:
  assumes "calm E" and "e_uuid E rid \<noteq> None" and "\<And>evs s'. goes_on s s' \<Longrightarrow> Q evs s'"
  shows "wp (GetEvents wid rid) E s Q F"
  unfolding GetEvents_def using assms
  by (intro calm_wrap_rows calm_db_call calm_with_uuid [where u = "the (e_uuid E rid)"]) (auto simp: wp_def)

lemma calm_GetTask:
  assumes "calm E" and "find_task i (tabs (s_store s)) \<noteq> None"
    and "\<And>t s'. goes_on s s' \<Longrightarrow> find_task i (tabs (s_store s)) = Some t \<Longrightarrow> Q t s'"
  shows "wp (GetTask i) E s Q F"
proof -
  from assms(2) obtain t where "find_task i (tabs (s_store s)) = Some t" by blast
  with assms(1,3) show ?thesis
    unfolding GetTask_def eval_simps
    by (intro calm_db_call) (auto simp: wp_def find_task_def goes_on_def returnM_def simp del: List_find_None)
qed

lemma calm_statements:
  assumes "calm E" and "in_txn s" and "\<And>s'. goes_on s s' \<Longrightarrow> Q () s'"
  shows "e_uuid E (ev_RunID e) \<noteq> None \<Longrightarrow> wp (InsertEvent e) E s Q F"
    and "e_uuid E (t_RunID t) \<noteq> None \<Longrightarrow> wp (InsertTask t) E s Q F"
    and "e_uuid E rid \<noteq> None \<Longrightarrow> wp (UpdateWorkflowStatus wid rid st) E s Q F"
    and "wp (CompleteTask i) E s Q F"
    and "e_uuid E (tm_RunID tm) \<noteq> None \<Longrightarrow> wp (InsertTimer tm) E s Q F"
    and "wp (MarkTimerFired i) E s Q F"
    and "e_uuid E (t_RunID t) \<noteq> None \<Longrightarrow> wp (InsertWorkflowTaskIfNotExists t) E s Q F"
  unfolding InsertEvent_def InsertTask_def UpdateWorkflowStatus_def CompleteTask_def InsertTimer_def MarkTimerFired_def
    InsertWorkflowTaskIfNotExists_def Let_def eval_simps
  by (rule calm_tx_call [OF assms(1,2)];
      auto simp: wp_def with_uuid_def goes_on_def nextval_event_def nextval_task_def nextval_timer_def log_write_def in_txn_def Let_def
        intro!: assms(3) split: if_splits prod.splits)+

lemma calm_GetDueTimers:
  assumes "calm E" and "in_txn s" and "\<And>tms n s'. goes_on s s' \<Longrightarrow> set tms \<subseteq> set (timers (apply_log (pending s) (tabs (s_store s)))) \<Longrightarrow> Q tms s'"
  shows "wp GetDueTimers E s Q F"
  unfolding GetDueTimers_def
  by (rule calm_wrap_rows, rule calm_tx_call [OF assms(1,2)])
    (auto simp: wp_def select_due_def goes_on_def tx_view_def pending_def dest!: in_set_takeD intro!: assms(3))

lemma calm_Commit:
  assumes "calm E" and "in_txn s" and "\<And>s'. Q () s'"
  shows "wp Commit E s Q F"
  using assms by (auto simp: wp_def Commit_def Let_def calm_def fault_free_def in_txn_def)

lemmas calm_rules = calm_BeginTx calm_GetWorkflowExecution calm_GetEvents calm_GetTask calm_statements calm_Commit


section \<open>The methods of the history service\<close>

text \<open>Every row of the tables names a run by a UUID and belongs to an execution.\<close>

definition runs_stored :: "env \<Rightarrow> tables \<Rightarrow> bool" where
  "runs_stored E T \<longleftrightarrow> (\<forall>x \<in> set (executions T). e_uuid E (we_RunID x) \<noteq> None) \<and>
     (\<forall>t \<in> set (tasks T). e_uuid E (t_RunID t) \<noteq> None) \<and>
     (\<forall>t \<in> set (timers T). run_known E (tm_WorkflowID t) (tm_RunID t) T)"

lemma find_executionI: "(wid, u) \<in> run_keys T \<Longrightarrow> find_execution wid u T \<noteq> None"
  by (auto simp: run_keys_def run_key_def find_execution_def is_execution_def)

lemma wf_runs_stored:
  assumes wf: "wf_store (e_uuid E) st"
  shows "runs_stored E (tabs st)"
proof -
  have keys: "e_uuid E r = Some r" if "(w, r) \<in> run_keys (tabs st)" for w r
    using wf that by (auto simp: wf_store_def wf_tables_def run_keys_def run_key_def execution_ok_def)
  then have "run_known E w r (tabs st)" if "(w, r) \<in> run_keys (tabs st)" for w r
    using that find_executionI by (auto simp: run_known_def simp del: List_find_None)
  moreover have "\<forall>x \<in> set (executions (tabs st)). (we_WorkflowID x, we_RunID x) \<in> run_keys (tabs st)"
    by (auto simp: run_keys_def run_key_def)
  ultimately show ?thesis
    using wf keys unfolding runs_stored_def wf_store_def wf_tables_def by (metis option.distinct(1))
qed

lemma find_execution_uuid:
  "find_execution w u T = Some x \<Longrightarrow> runs_stored E T \<Longrightarrow> e_uuid E (we_RunID x) \<noteq> None"
  unfolding runs_stored_def find_execution_def using List_find_Some_iff by metis

lemma find_task_uuid:
  "find_task i T = Some t \<Longrightarrow> runs_stored E T \<Longrightarrow> e_uuid E (t_RunID t) \<noteq> None"
  unfolding runs_stored_def find_task_def using List_find_Some_iff by metis

lemma run_known_uuid: "run_known E w r T \<Longrightarrow> e_uuid E r \<noteq> None"
  by (auto simp: run_known_def)

lemmas stored_uuids = find_execution_uuid find_task_uuid run_known_uuid

lemma progress_CompleteActivityTask:
  assumes "calm E" and "runs_stored E (tabs (s_store s))" and "find_task i (tabs (s_store s)) \<noteq> None"
    and "run_known E wid rid (tabs (s_store s))"
  shows "wp (CompleteActivityTask i wid rid result) E s (\<lambda>_ _. True) (\<lambda>_ _. False)"
  unfolding CompleteActivityTask_def in_tx_def Let_def eval_simps
  by (intro calm_rules assms(1)) (use assms in \<open>auto simp: goes_on_def dest: stored_uuids\<close>)

lemma progress_FailActivityTask:
  assumes "calm E" and "runs_stored E (tabs (s_store s))" and "find_task i (tabs (s_store s)) = Some t"
    and "sint (t_Attempt t) < sint (t_MaxAttempts t) \<or> run_known E wid rid (tabs (s_store s))"
  shows "wp (FailActivityTask i wid rid errMsg) E s (\<lambda>_ _. True) (\<lambda>_ _. False)"
  unfolding FailActivityTask_def in_tx_def Let_def netxtRetryDelay_def eval_simps
  by (intro calm_rules assms(1) conjI impI) (use assms in \<open>auto simp: goes_on_def dest: stored_uuids\<close>)

lemma progress_fire_timers:
  assumes "calm E" and "in_txn s" and "runs_stored E (tabs (s_store s))"
    and "\<forall>t \<in> set tms. run_known E (tm_WorkflowID t) (tm_RunID t) (tabs (s_store s))"
  shows "wp (fire_timers tms) E s (\<lambda>_. goes_on s) (\<lambda>_ _. False)"
  using assms(2-4)
proof (induction tms arbitrary: s)
  case Nil
  then show ?case by (simp add: eval_simps)
next
  case (Cons t tms)
  have fire: "wp (fire_timer t) E s (\<lambda>_. goes_on s) (\<lambda>_ _. False)"
    unfolding fire_timer_def Let_def eval_simps
    by (intro calm_rules assms(1)) (use Cons.prems in \<open>auto simp: goes_on_def dest: stored_uuids\<close>)
  have "wp (fire_timers tms) E s' (\<lambda>_. goes_on s) (\<lambda>_ _. False)" if "goes_on s s'" for s'
    using Cons.IH [of s'] that Cons.prems by (auto simp: wp_def goes_on_def split: prod.splits sum.splits)
  with fire show ?case by (auto simp: wp_bind intro: wp_mono)
qed

lemma progress_ScanTimers:
  assumes "calm E" and "runs_stored E (tabs (s_store s))"
  shows "wp ScanTimers E s (\<lambda>_ _. True) (\<lambda>_ _. False)"
proof -
  have "wp (fire_timers tms) E s' (\<lambda>_ s''. wp Commit E s'' (\<lambda>_ _. True) (\<lambda>_ _. False)) (\<lambda>_ _. False)"
    if "in_txn s'" "tabs (s_store s') = tabs (s_store s)" "set tms \<subseteq> set (timers (tabs (s_store s)))" for tms s'
    by (rule wp_mono [OF progress_fire_timers [OF assms(1) that(1)]])
      (use assms that in \<open>auto simp: runs_stored_def goes_on_def intro!: calm_Commit\<close>)
  then show ?thesis
    unfolding ScanTimers_def in_tx_def Let_def eval_simps
    by (intro calm_BeginTx calm_GetDueTimers assms(1)) (auto simp: goes_on_def)
qed

lemma progress_apply_command:
  assumes "calm E" and "in_txn s" and "e_uuid E rid \<noteq> None"
  shows "wp (apply_command x wid rid c st) E s (\<lambda>_. goes_on s) (\<lambda>_ _. False)"
  unfolding apply_command_def eval_simps
  by (intro calm_rules assms(1) conjI impI) (use assms in \<open>auto simp: goes_on_def\<close>)

lemma progress_apply_commands:
  assumes "calm E" and "in_txn s" and "e_uuid E rid \<noteq> None"
  shows "wp (apply_commands x wid rid cs st) E s (\<lambda>_. goes_on s) (\<lambda>_ _. False)"
  using assms(2)
proof (induction cs arbitrary: s st)
  case Nil
  then show ?case by (simp add: eval_simps)
next
  case (Cons c cs)
  show ?case unfolding apply_commands.simps wp_bind
    by (rule wp_mono [OF progress_apply_command [OF assms(1) Cons.prems assms(3)]])
      (auto intro!: wp_mono [OF Cons.IH] simp: goes_on_def Cons.prems)
qed

lemma progress_CompleteWorkflowTask:
  assumes "calm E" and "run_known E wid rid (tabs (s_store s))"
  shows "wp (CompleteWorkflowTask i wid rid cs) E s (\<lambda>_ _. True) (\<lambda>_ _. False)"
proof -
  have *: "wp (apply_commands x wid rid cs st) E s' (\<lambda>p s''. wp (CompleteTask i) E s'' (\<lambda>_ s3.
      wp Commit E s3 (\<lambda>_ _. True) (\<lambda>_ _. False)) (\<lambda>_ _. False)) (\<lambda>_ _. False)" if "in_txn s'" for s' x st
    by (rule wp_mono [OF progress_apply_commands [OF assms(1) that]])
      (use assms that run_known_uuid in \<open>auto simp: goes_on_def intro!: calm_rules\<close>)
  show ?thesis
    unfolding CompleteWorkflowTask_def in_tx_def Let_def eval_simps
    by (intro calm_rules * assms(1) conjI impI) (use assms in \<open>auto simp: goes_on_def dest: stored_uuids\<close>)
qed

definition run_running :: "env \<Rightarrow> string \<Rightarrow> string \<Rightarrow> tables \<Rightarrow> bool" where
  "run_running E wid rid T \<longleftrightarrow> (\<exists>u x. e_uuid E rid = Some u \<and> find_execution wid u T = Some x \<and> we_Status x = ''Running'')"

lemma progress_signal_run:
  assumes "calm E" and "run_running E wid rid (tabs (s_store s))"
  shows "wp (signal_run wid rid name input) E s (\<lambda>_ _. True) (\<lambda>_ _. False)"
proof -
  from assms(2) have "run_known E wid rid (tabs (s_store s))" by (auto simp: run_running_def run_known_def simp del: List_find_None)
  with assms show ?thesis
    unfolding signal_run_def in_tx_def Let_def eval_simps
    by (intro calm_rules assms(1) conjI impI) (auto simp: goes_on_def run_running_def dest: stored_uuids)
qed

lemma calm_InsertWorkflowExecution:
  assumes "calm E" and "in_txn s" and "pending s = []" and "e_uuid E (we_RunID w) = Some u"
    and "\<forall>x \<in> set (executions (tabs (s_store s))). \<not> is_execution (we_WorkflowID w) u x"
    and "\<And>s'. goes_on s s' \<Longrightarrow> Q () s'"
  shows "wp (InsertWorkflowExecution w) E s Q F"
  unfolding InsertWorkflowExecution_def eval_simps
  by (rule calm_tx_call [OF assms(1,2)])
    (use assms(3-5) in \<open>auto simp: wp_def with_uuid_def goes_on_def tx_view_def pending_def log_write_def in_txn_def intro!: assms(6)\<close>)

text \<open>A new run can start: no execution of the workflow is running and fresh UUIDs are drawn.\<close>

definition startable :: "env \<Rightarrow> string \<Rightarrow> tables \<Rightarrow> bool" where
  "startable E wid T \<longleftrightarrow> (\<forall>x \<in> set (executions T). we_WorkflowID x = wid \<longrightarrow> we_Status x \<noteq> ''Running'') \<and>
     (\<forall>n. \<exists>u. e_uuid E (e_new_uuid E n) = Some u \<and> (\<forall>x \<in> set (executions T). \<not> is_execution wid u x))"

lemma latest_execution_in:
  assumes "latest_execution r wid T = Some x"
  shows "x \<in> set (executions T)" "we_WorkflowID x = wid"
proof -
  let ?xs = "heap_order r (filter (\<lambda>x. we_WorkflowID x = wid) (executions T))"
  from assms obtain xs where "sort_key (\<lambda>x. - we_StartedAt x) ?xs = x # xs"
    by (auto simp: latest_execution_def split: list.splits)
  then have "x \<in> set ?xs" by (metis list.set_intros(1) set_sort)
  then show "x \<in> set (executions T)" "we_WorkflowID x = wid" by auto
qed

lemma progress_StartWorkflow:
  assumes "calm E" and "startable E wid (tabs (s_store s))"
  shows "wp (StartWorkflow wid wtype queue input) E s (\<lambda>_ _. True) (\<lambda>_ _. False)"
proof -
  define the_uuid where "the_uuid n = the (e_uuid E (e_new_uuid E n))" for n
  from assms(2) have u: "e_uuid E (e_new_uuid E n) = Some (the_uuid n)"
      "\<forall>x \<in> set (executions (tabs (s_store s))). \<not> is_execution wid (the_uuid n) x" for n
    unfolding startable_def the_uuid_def by (metis option.sel)+
  have r: "we_Status x \<noteq> ''Running''" if "latest_execution r wid (tabs (s_store s)) = Some x" for r x
    using latest_execution_in [OF that] assms(2) by (auto simp: startable_def)
  show ?thesis
    unfolding StartWorkflow_def in_tx_def Let_def eval_simps
    by (intro calm_BeginTx calm_GetLatestExecution calm_InsertWorkflowExecution [where u = "the_uuid n" for n] calm_statements calm_Commit
          assms(1) conjI allI impI)
      (use u r in \<open>auto simp: goes_on_def zero_WorkflowExecution_def in_txn_def pending_def\<close>)
qed

lemma progress_SignalWorkflow:
  assumes "calm E" and "rid \<noteq> ''''" and "run_running E wid rid (tabs (s_store s))"
  shows "wp (SignalWorkflow wid rid name input) E s (\<lambda>_ _. True) (\<lambda>_ _. False)"
  using assms unfolding SignalWorkflow_def eval_simps by (simp add: progress_signal_run)

text \<open>Without a run ID the signal goes to the latest run, which is the running one if there is one.\<close>

lemma progress_SignalWorkflow_latest:
  assumes "calm E" and wf: "wf_store (e_uuid E) (s_store s)" and one: "one_running (tabs (s_store s))"
    and x: "x \<in> set (executions (tabs (s_store s)))" "we_Status x = ''Running''"
  shows "wp (SignalWorkflow (we_WorkflowID x) '''' name input) E s (\<lambda>_ _. True) (\<lambda>_ _. False)"
proof -
  let ?T = "tabs (s_store s)"
  have keys: "distinct (map run_key (executions ?T))" "e_uuid E (we_RunID x) = Some (we_RunID x)"
    using wf x by (auto simp: wf_store_def wf_tables_def execution_ok_def)
  note latest = latest_execution_running [OF one x keys(1)]
  have "(\<lambda>y. run_key y = run_key x) = is_execution (we_WorkflowID x) (we_RunID x)"
    by (auto simp: is_execution_def run_key_def)
  with find_unique_key [OF x(1) keys(1)] have "find_execution (we_WorkflowID x) (we_RunID x) ?T = Some x"
    by (simp add: find_execution_def)
  with keys x(2) have "run_running E (we_WorkflowID x) (we_RunID x) ?T" by (auto simp: run_running_def)
  then show ?thesis
    unfolding SignalWorkflow_def eval_simps
    by (intro calm_GetLatestExecution assms(1) conjI impI progress_signal_run) (auto simp: latest goes_on_def)
qed

end
