(* ===== verification/LivenessProperties.thy ===== *)
theory LivenessProperties
  imports TaskProperties Progress Loops
begin

text \<open>
  Leases are exclusive and end; on a database without failures the operations succeed exactly
  when their rows exist; timers drain; a lost task is delivered again.
\<close>

section \<open>Leases\<close>

text \<open>
  C10: whoever polls a task has it alone until 30 seconds after the transaction of the
  poll began: whatever requests and ticks, with whatever failures, come in between, as long as none
  of them is a lease reclaim later than that instant, no poll returns the task to anyone else.
\<close>

theorem lease_exclusive:
  assumes "serial E" and "uuid_ok E" and "wf_store (e_uuid E) (s_store s)"
    and "PollTask q ty owner E s = (Inr (Some t), s0)"
    and "(step (e_uuid E) (reclaims_until (e_db_now E (s_tick s) + 30 * 10 ^ 9)))\<^sup>*\<^sup>* s0 s1"
    and "serial E'" and "PollTask q' ty' owner' E' s1 = (Inr (Some t'), s2)"
  shows "t_ID t' \<noteq> t_ID t"
proof -
  have "wf_store (e_uuid E) (s_store s0)" using poll.keeps_wf [OF assms(1-4)] .
  from lease_held_steps [OF assms(5) this lease_held_poll [OF assms(1,3,4)]] poll_not_held [OF assms(6,7)]
  show ?thesis by blast
qed

theorem lease_exclusive_witness:
  "\<exists>t t'. fst (PollTask ''q'' ''activity'' ''me'' sample_env sample_two) = Inr (Some t) \<and>
     fst (PollTask ''q'' ''activity'' ''you'' sample_env (serve TickReclaim sample_env sample_polled)) = Inr (Some t') \<and>
     t_ID t' \<noteq> t_ID t"
proof -
  have "map_sum id (map_option t_ID) (fst (PollTask ''q'' ''activity'' ''me'' sample_env sample_two)) = Inr (Some 2)"
    by code_simp
  then obtain t where t: "fst (PollTask ''q'' ''activity'' ''me'' sample_env sample_two) = Inr (Some t)"
    by (rule polled_task)
  have "map_sum id (map_option t_ID) (fst (PollTask ''q'' ''activity'' ''you'' sample_env (serve TickReclaim sample_env sample_polled))) = Inr (Some 3)"
    by code_simp
  then obtain t' where t': "fst (PollTask ''q'' ''activity'' ''you'' sample_env (serve TickReclaim sample_env sample_polled)) = Inr (Some t')"
    by (rule polled_task)
  have p: "PollTask ''q'' ''activity'' ''me'' sample_env sample_two = (Inr (Some t), sample_polled)"
    using ran [OF t] by (simp add: sample_polled_def)
  let ?deadline = "e_db_now sample_env (s_tick sample_two) + 30 * 10 ^ 9"
  have "begin_now sample_env sample_polled \<le> ?deadline" by code_simp
  then have "step (e_uuid sample_env) (reclaims_until ?deadline) sample_polled (serve TickReclaim sample_env sample_polled)"
    by (intro step.step) (simp_all add: reclaims_until_def)
  from lease_exclusive [OF sample_env_ok(1,2) sample_two_wf(1) p r_into_rtranclp [of "step _ _", OF this] sample_env_ok(1) ran [OF t']] t t'
  show ?thesis by blast
qed

section \<open>Success on a database without failures\<close>

lemma succeeds: "wp m E s (\<lambda>_ _. True) (\<lambda>_ _. False) \<Longrightarrow> \<exists>x s'. m E s = (Inr x, s')"
  by (auto simp: wp_def split: prod.splits sum.splits)

lemma CompleteActivityTask_needs:
  "serial E \<Longrightarrow> CompleteActivityTask i wid rid result E s = (Inr (), s') \<Longrightarrow>
     find_task i (tabs (s_store s)) \<noteq> None \<and> run_known E wid rid (tabs (s_store s))"
  using wpD [OF CompleteActivityTask_spec [unfolded effect_spec_def]]
  by (fastforce simp: CompleteActivityTask_effect_def run_known_def simp del: List_find_None)

lemma FailActivityTask_needs:
  "serial E \<Longrightarrow> FailActivityTask i wid rid msg E s = (Inr (), s') \<Longrightarrow>
     \<exists>t. find_task i (tabs (s_store s)) = Some t \<and>
       (sint (t_Attempt t) < sint (t_MaxAttempts t) \<or> run_known E wid rid (tabs (s_store s)))"
  using wpD [OF wp_FailActivityTask]
  by (fastforce simp: ExhaustActivityTask_effect_def run_known_def simp del: List_find_None split: if_split_asm)

lemma CompleteWorkflowTask_needs:
  "serial E \<Longrightarrow> CompleteWorkflowTask i wid rid cs E s = (Inr (), s') \<Longrightarrow> run_known E wid rid (tabs (s_store s))"
  using wpD [OF CompleteWorkflowTask_spec [unfolded effect_spec_def]]
  by (fastforce simp: CompleteWorkflowTask_effect_def run_known_def simp del: List_find_None)

lemma SignalWorkflow_needs:
  "serial E \<Longrightarrow> SignalWorkflow wid rid name input E s = (Inr (), s') \<Longrightarrow> rid \<noteq> '''' \<Longrightarrow> run_running E wid rid (tabs (s_store s))"
  using wpD [OF wp_SignalWorkflow]
  by (fastforce simp: SignalWorkflow_effect_def signal_target_def run_running_def simp del: List_find_None)

text \<open>
  C17: when no database call fails and nothing interferes, an operation succeeds
  exactly when the rows it needs exist. Completing an activity needs its task and the run; failing
  one needs its task, and the run once the attempts are used up; answering a workflow task needs
  only the run, whatever the commands; a signal to a named run needs that run to be running. A timer
  scan always succeeds, and so does a start when no execution of the workflow is running and the
  UUIDs drawn are new.
\<close>

theorem succeeds_iff_stored:
  assumes "serial E" and "fault_free E" and "wf_store (e_uuid E) (s_store s)"
  defines "T \<equiv> tabs (s_store s)"
  shows "((\<exists>s'. CompleteActivityTask i wid rid result E s = (Inr (), s')) \<longleftrightarrow>
        find_task i T \<noteq> None \<and> run_known E wid rid T) \<and>
    ((\<exists>s'. FailActivityTask i wid rid msg E s = (Inr (), s')) \<longleftrightarrow> (\<exists>t. find_task i T = Some t \<and>
        (sint (t_Attempt t) < sint (t_MaxAttempts t) \<or> run_known E wid rid T))) \<and>
    ((\<exists>s'. CompleteWorkflowTask i wid rid cs E s = (Inr (), s')) \<longleftrightarrow> run_known E wid rid T) \<and>
    (rid \<noteq> '''' \<longrightarrow> ((\<exists>s'. SignalWorkflow wid rid name input E s = (Inr (), s')) \<longleftrightarrow> run_running E wid rid T)) \<and>
    (\<exists>s'. ScanTimers E s = (Inr (), s')) \<and>
    (startable E wid T \<longrightarrow> (\<exists>run s'. StartWorkflow wid wtype queue input E s = (Inr run, s')))"
proof (intro conjI impI)
  have calm: "calm E" using assms(1,2) by (simp add: calm_def)
  note stored = wf_runs_stored [OF assms(3), folded T_def]
  show "(\<exists>s'. CompleteActivityTask i wid rid result E s = (Inr (), s')) \<longleftrightarrow> find_task i T \<noteq> None \<and> run_known E wid rid T"
    using CompleteActivityTask_needs [OF assms(1)] succeeds [OF progress_CompleteActivityTask [OF calm]] stored
    unfolding T_def by (metis (full_types) old.unit.exhaust)
  show "(\<exists>s'. FailActivityTask i wid rid msg E s = (Inr (), s')) \<longleftrightarrow> (\<exists>t. find_task i T = Some t \<and>
       (sint (t_Attempt t) < sint (t_MaxAttempts t) \<or> run_known E wid rid T))"
    using FailActivityTask_needs [OF assms(1)] succeeds [OF progress_FailActivityTask [OF calm]] stored
    unfolding T_def by (metis (full_types) old.unit.exhaust)
  show "(\<exists>s'. CompleteWorkflowTask i wid rid cs E s = (Inr (), s')) \<longleftrightarrow> run_known E wid rid T"
    using CompleteWorkflowTask_needs [OF assms(1)] succeeds [OF progress_CompleteWorkflowTask [OF calm]]
    unfolding T_def by (metis (full_types) old.unit.exhaust)
  show "\<exists>s'. ScanTimers E s = (Inr (), s')"
    using succeeds [OF progress_ScanTimers [OF calm stored [unfolded T_def]]] by auto
  show "\<exists>run s'. StartWorkflow wid wtype queue input E s = (Inr run, s')" if "startable E wid T"
    using succeeds [OF progress_StartWorkflow [OF calm that [unfolded T_def]]] .
  show "(\<exists>s'. SignalWorkflow wid rid name input E s = (Inr (), s')) \<longleftrightarrow> run_running E wid rid T" if "rid \<noteq> ''''"
    using SignalWorkflow_needs [OF assms(1) _ that] succeeds [OF progress_SignalWorkflow [OF calm that]]
    unfolding T_def by (metis (full_types) old.unit.exhaust)
qed

lemma sample_fault_free [simp]: "fault_free sample_env" "fault_free (late_env t)"
  by (simp_all add: fault_free_def sample_env_def late_env_def)

theorem succeeds_iff_stored_witness:
  "(\<exists>s'. CompleteActivityTask 2 ''w'' sample_run (Some ''ok'') sample_env sample_scheduled = (Inr (), s')) \<and>
   (\<nexists>s'. CompleteActivityTask 9 ''w'' sample_run (Some ''ok'') sample_env sample_scheduled = (Inr (), s')) \<and>
   (\<exists>s'. SignalWorkflow ''w'' sample_run ''go'' None sample_env sample_scheduled = (Inr (), s'))"
proof -
  have "find_task 2 (tabs (s_store sample_scheduled)) \<noteq> None" "find_task 9 (tabs (s_store sample_scheduled)) = None"
    by code_simp+
  moreover have "map_option we_Status (find_execution ''w'' sample_run (tabs (s_store sample_scheduled))) = Some ''Running''"
    "e_uuid sample_env sample_run = Some sample_run" "sample_run \<noteq> ''''" by code_simp+
  then have "run_running sample_env ''w'' sample_run (tabs (s_store sample_scheduled))"
      "run_known sample_env ''w'' sample_run (tabs (s_store sample_scheduled))" "sample_run \<noteq> ''''"
    unfolding run_running_def run_known_def by (auto simp del: List_find_None)
  ultimately show ?thesis
    using succeeds_iff_stored [OF sample_env_ok(1) sample_fault_free(1) sample_after_wf(1), of 2 "''w''" sample_run]
      succeeds_iff_stored [OF sample_env_ok(1) sample_fault_free(1) sample_after_wf(1), of 9 "''w''" sample_run] by auto
qed

section \<open>Timers drain\<close>

definition unfired :: "Timer list \<Rightarrow> Timer list" where
  "unfired ts = filter (\<lambda>t. \<not> tm_Fired t) ts"

lemma length_filter_key:
  assumes "distinct (map f xs)" and "set ys \<subseteq> {x \<in> set xs. P x}" and "distinct ys"
  shows "length (filter (\<lambda>x. P x \<and> f x \<notin> f ` set ys) xs) + length ys = length (filter P xs)"
proof -
  have sub: "x \<in> set ys" if x: "x \<in> set xs" "f x \<in> f ` set ys" for x
  proof -
    from x(2) obtain y where "y \<in> set ys" "f x = f y" by blast
    with distinct_map_eqD [OF assms(1) x(1)] assms(2) show ?thesis by blast
  qed
  have eq: "set (filter (\<lambda>x. P x \<and> f x \<in> f ` set ys) xs) = set ys"
  proof
    show "set (filter (\<lambda>x. P x \<and> f x \<in> f ` set ys) xs) \<subseteq> set ys" using sub by auto
    show "set ys \<subseteq> set (filter (\<lambda>x. P x \<and> f x \<in> f ` set ys) xs)" using assms(2) by auto
  qed
  have "distinct (filter (\<lambda>x. P x \<and> f x \<in> f ` set ys) xs)" using assms(1) by (simp add: distinct_map)
  from distinct_card [OF this] eq distinct_card [OF assms(3)]
  have "length (filter (\<lambda>x. P x \<and> f x \<in> f ` set ys) xs) = length ys" by simp
  moreover have "length (filter (\<lambda>x. P x \<and> f x \<notin> K) xs) + length (filter (\<lambda>x. P x \<and> f x \<in> K) xs) = length (filter P xs)" for K
    by (induction xs) auto
  ultimately show ?thesis by metis
qed

lemma unfired_marked: "length (unfired (map (mark_fired ids) ts)) = length (filter (\<lambda>t. \<not> tm_Fired t \<and> tm_ID t \<notin> ids) ts)"
  by (induction ts) (auto simp: unfired_def mark_fired_def)

definition no_locks :: "env \<Rightarrow> bool" where
  "no_locks E \<longleftrightarrow> (\<forall>n i. \<not> e_row_locked E n i)"

text \<open>One scan without failures fires all timers due at its start, or 100 of them.\<close>

lemma scan_once:
  assumes "calm E" "no_locks E" and wf: "wf_store (e_uuid E) (s_store s)"
  defines "T \<equiv> tabs (s_store s)" and "T' \<equiv> tabs (s_store (serve TickTimers E s))"
  shows "\<exists>ids. timers T' = map (mark_fired ids) (timers T)" (is ?marked)
    and "(\<forall>t \<in> set (timers T'). \<not> timer_due (begin_now E s) t) \<or> length (unfired (timers T')) + 100 = length (unfired (timers T))"
      (is ?drained)
proof -
  have serial: "serial E" using assms(1) by (simp add: calm_def)
  from succeeds [OF progress_ScanTimers [OF assms(1) wf_runs_stored [OF wf]]] obtain s' where
    r: "ScanTimers E s = (Inr (), s')" by auto
  then have s': "serve TickTimers E s = s'" by (simp add: scanTimers_tick_def bindM_def tryM_def returnM_def)
  from wpD [OF wp_ScanTimers [OF serial] r] obtain tms ws where due: "due_timers E s tms"
    and f: "fired_log E T (begin_now E s) (event_seq (s_store s)) (task_seq (s_store s)) tms ws"
    and c: "T' = apply_log ws T" by (auto simp: ScanTimers_effect_def committed_def T_def T'_def s' simp del: serve.simps)
  have keys: "distinct (map tm_ID (timers T))" using wf by (simp add: wf_store_def wf_tables_def T_def)
  have "\<forall>t \<in> set tms. e_uuid E (tm_RunID t) = Some (tm_RunID t)"
    using due_timers_select(1) [OF due] wf_timers [OF wf] by blast
  with fired_log_tables [OF f] c have marked: "timers T' = map (mark_fired (tm_ID ` set tms)) (timers T)" by simp
  then show ?marked by blast
  from due assms(2) obtain n where sel: "tms = take 100 (heap_order (e_row_rank E n) (filter (timer_due (begin_now E s)) (timers T)))"
    by (auto simp: due_timers_def select_due_def no_locks_def T_def)
  show ?drained
  proof (cases "length (filter (timer_due (begin_now E s)) (timers T)) \<le> 100")
    case True
    with sel have "set tms = set (filter (timer_due (begin_now E s)) (timers T))" by simp
    then show ?thesis by (auto simp: marked mark_fired_def timer_due_def)
  next
    case False
    with sel have "length tms = 100" by simp
    moreover have "length (filter (\<lambda>t. \<not> tm_Fired t \<and> tm_ID t \<notin> tm_ID ` set tms) (timers T)) + length tms = length (unfired (timers T))"
      unfolding unfired_def
    proof (rule length_filter_key [OF keys])
      show "set tms \<subseteq> {t \<in> set (timers T). \<not> tm_Fired t}"
        using sel by (auto simp: timer_due_def dest!: in_set_takeD)
      show "distinct tms" using due_timers_distinct [OF _ due] keys by (simp add: T_def distinct_map)
    qed
    ultimately show ?thesis by (simp add: marked unfired_marked)
  qed
qed

text \<open>
  C18: a backlog of timers drains. Let the scanner's ticks follow one another with no
  request between them, on well-formed tables of a database without failures, locks and concurrent transactions, whose
  clock never reads less than an instant \<open>now\<close> at any tick. Then as many ticks as there are hundreds of
  unfired timers at first (rounded up) leave no timer unfired whose time is \<open>now\<close> or earlier, in
  whatever order the rows come, although a tick takes at most 100 and may spend them on timers that became due
  later than \<open>now\<close>.
\<close>

theorem timers_drain:
  assumes "wf_store U (s_store s)"
    and "\<forall>E \<in> set Es. serial E \<and> fault_free E \<and> uuid_ok E \<and> e_uuid E = U \<and> no_locks E \<and> (\<forall>n. now \<le> e_db_now E n)"
    and "length (unfired (timers (tabs (s_store s)))) \<le> 100 * length Es"
    and "t \<in> set (timers (tabs (s_store (scanTimers Es s))))" and "tm_FireAt t \<le> now"
  shows "tm_Fired t"
proof -
  have "\<forall>t \<in> set (timers (tabs (s_store (scanTimers Es s)))). \<not> timer_due now t"
    if "length (unfired (timers (tabs (s_store s)))) \<le> 100 * length Es \<or> (\<forall>t \<in> set (timers (tabs (s_store s))). \<not> timer_due now t)"
    using assms(1,2) that
  proof (induction Es arbitrary: s)
    case Nil
    then show ?case by (auto simp: unfired_def timer_due_def filter_empty_conv)
  next
    case (Cons E Es)
    let ?s' = "serve TickTimers E s"
    have loop: "scanTimers (E # Es) s = scanTimers Es ?s'" by (simp add: scanTimers_serve del: serve.simps)
    from Cons.prems(2) have E: "serial E" "uuid_ok E" "calm E" "no_locks E" "e_uuid E = U" "now \<le> begin_now E s"
      by (auto simp: calm_def begin_now_def)
    with Cons.prems(1) have wf: "wf_store (e_uuid E) (s_store s)" by simp
    note scan = scan_once [OF E(3,4) wf]
    have "wf_store U (s_store ?s')" using engine_step_wf [OF serve_step [OF E(1,2) wf] wf] E(5) by (simp del: serve.simps)
    moreover have "length (unfired (timers (tabs (s_store ?s')))) \<le> 100 * length Es \<or>
        (\<forall>t \<in> set (timers (tabs (s_store ?s'))). \<not> timer_due now t)"
      using scan Cons.prems(3) E(6) by (fastforce simp: timer_due_def mark_fired_def)
    ultimately show ?case unfolding loop using Cons.IH Cons.prems(2) by simp
  qed
  with assms(3-5) show ?thesis by (auto simp: timer_due_def)
qed

theorem timers_drain_witness:
  "length (unfired (timers (tabs (s_store sample_sleeping)))) = 1 \<and>
   (\<exists>t \<in> set (timers (tabs (s_store (scanTimers [late_env (10 ^ 10)] sample_sleeping)))).
      tm_FireAt t \<le> 10 ^ 10 \<and> tm_Fired t)"
proof (rule conjI)
  show n: "length (unfired (timers (tabs (s_store sample_sleeping)))) = 1" by code_simp
  have E: "\<forall>n. 10 ^ 10 \<le> e_db_now (late_env (10 ^ 10)) n" "no_locks (late_env (10 ^ 10))"
    by (simp_all add: late_env_def no_locks_def sample_env_def)
  have "list_ex (\<lambda>t. tm_FireAt t \<le> 10 ^ 10)
      (timers (tabs (s_store (scanTimers [late_env (10 ^ 10)] sample_sleeping))))" by code_simp
  then obtain t where t: "t \<in> set (timers (tabs (s_store (scanTimers [late_env (10 ^ 10)] sample_sleeping))))"
    "tm_FireAt t \<le> 10 ^ 10" by (auto simp: list_ex_iff)
  with timers_drain [OF sample_after_wf(3) _ _ t] n E show "\<exists>t \<in> set (timers (tabs (s_store
      (scanTimers [late_env (10 ^ 10)] sample_sleeping)))). tm_FireAt t \<le> 10 ^ 10 \<and> tm_Fired t" by simp blast
qed

section \<open>A lost task is delivered again\<close>

lemma wp_pure: "Q (f E s) (g E s) \<Longrightarrow> wp (\<lambda>E s. (Inr (f E s), g E s)) E s Q F"
  by (simp add: wp_def)

lemma progress_PollTask:
  assumes "calm E"
  shows "wp (PollTask q ty owner) E s (\<lambda>_ _. True) (\<lambda>_ _. False)"
  unfolding PollTask_def in_tx_def Let_def eval_simps
  by (intro calm_BeginTx calm_tx_call calm_Commit wp_pure assms conjI allI impI) (auto simp: goes_on_def in_txn_def log_write_def)

text \<open>
  C19: a worker that dies loses no task. When the tables are well formed, the lease of a task has expired when
  the reclaim loop ticks, and the tick does not fail, then the poll of its queue and type that follows
  the tick, if it does not fail either, comes when the task is visible and finds no row locked by another transaction,
  returns a task: this one, or one with a lower ID, that was queued before it. Neither step is
  interleaved with another transaction.
\<close>

theorem expired_task_redelivered:
  assumes "serial E" and "fault_free E" and "uuid_ok E" and "wf_store (e_uuid E) (s_store s)"
    and "t \<in> set (tasks (tabs (s_store s)))" and "expired (begin_now E s) t"
    and "serial E'" and "fault_free E'" and "e_uuid E' = e_uuid E" and "no_locks E'"
    and "t_VisibilityTime t \<le> begin_now E' (serve TickReclaim E s)"
  shows "\<exists>t' s2. PollTask (t_TaskQueue t) (t_TaskType t) owner E' (serve TickReclaim E s) = (Inr (Some t'), s2) \<and> t_ID t' \<le> t_ID t"
proof -
  let ?s1 = "serve TickReclaim E s"
  have wf: "wf_store (e_uuid E') (s_store ?s1)"
    using engine_step_wf [OF serve_step [OF assms(1,3,4)] assms(4)] assms(9) by (simp del: serve.simps)
  have "tasks (tabs (s_store ?s1)) = map (\<lambda>t. if expired (begin_now E s) t then release_lease t else t) (tasks (tabs (s_store s)))"
    using assms(1,2) by (simp add: reclaimLoop_tick_def bindM_def tryM_def returnM_def metricM_def ReclaimExpiredLeases_def
        fault_free_def begin_now_def Let_def)
  with assms(5,6) have t: "release_lease t \<in> set (tasks (tabs (s_store ?s1)))" by force
  with assms(11) have p: "pollable (t_TaskQueue t) (t_TaskType t) (e_db_now E' (s_tick ?s1)) (release_lease t)"
    by (simp add: pollable_def release_lease_def begin_now_def)
  have "calm E'" using assms(7,8) by (simp add: calm_def)
  from succeeds [OF progress_PollTask [OF this]] obtain r s2 where
    r: "PollTask (t_TaskQueue t) (t_TaskType t) owner E' ?s1 = (Inr r, s2)" by blast
  from PollTask_row [OF assms(7) wf r] t p assms(10) show ?thesis
    by (cases r) (auto simp: Let_def no_locks_def r release_lease_def simp del: serve.simps dest!: bspec)
qed

theorem expired_task_redelivered_witness:
  "\<exists>t t'. t \<in> set (tasks (tabs (s_store sample_polled))) \<and> t_LeaseOwner t = Some ''me'' \<and> t_ID t' \<le> t_ID t \<and>
     fst (PollTask ''q'' ''activity'' ''you'' (late_env (10 ^ 12)) (serve TickReclaim (late_env (10 ^ 12)) sample_polled)) = Inr (Some t')"
proof -
  let ?E = "late_env (10 ^ 12)"
  have "list_ex (\<lambda>t. expired (begin_now ?E sample_polled) t \<and> t_LeaseOwner t = Some ''me'' \<and> t_TaskQueue t = ''q'' \<and>
      t_TaskType t = ''activity'' \<and> t_VisibilityTime t \<le> begin_now ?E (serve TickReclaim ?E sample_polled))
      (tasks (tabs (s_store sample_polled)))" by code_simp
  then obtain t where t: "t \<in> set (tasks (tabs (s_store sample_polled)))" "expired (begin_now ?E sample_polled) t"
    "t_LeaseOwner t = Some ''me''" "t_TaskQueue t = ''q''" "t_TaskType t = ''activity''"
    "t_VisibilityTime t \<le> begin_now ?E (serve TickReclaim ?E sample_polled)" by (auto simp: list_ex_iff)
  have "no_locks ?E" by (simp add: late_env_def no_locks_def sample_env_def)
  from expired_task_redelivered [OF sample_env_ok(5) sample_fault_free(2) sample_env_ok(6) _ t(1,2) sample_env_ok(5)
      sample_fault_free(2) refl this t(6), of "''you''"] sample_two_wf(2) t(4,5) obtain t' s2 where
    "PollTask ''q'' ''activity'' ''you'' ?E (serve TickReclaim ?E sample_polled) = (Inr (Some t'), s2)" "t_ID t' \<le> t_ID t"
    by (auto simp del: serve.simps)
  with t(1,3) show ?thesis by (intro exI [of _ t] exI [of _ t']) (simp del: serve.simps)
qed

end
