(* ===== verification/DeliveryProperties.thy ===== *)
theory DeliveryProperties
  imports LivenessProperties FrontendProperties WorkerProperties
begin

text \<open>
  The worker and the engine together: what one turn of the activity loop leaves in the history.
\<close>

lemma leased_task:
  assumes "wf_store U (s_store s)" and "PollTask_effect E s q ty owner t s1"
  shows "\<exists>ow ex. find_task (t_ID t) (tabs (s_store s1)) = Some (t\<lparr>t_LeaseOwner := ow, t_LeaseExpiresAt := ex\<rparr>) \<and>
    events (tabs (s_store s1)) = events (tabs (s_store s)) \<and>
    executions (tabs (s_store s1)) = executions (tabs (s_store s)) \<and>
    (\<forall>w u. next_event_id w u (tabs (s_store s1)) = next_event_id w u (tabs (s_store s)))"
proof -
  let ?T = "tabs (s_store s)"
  from assms(2) obtain n where sel: "select_pollable (e_row_locked E n) q ty (e_db_now E (s_tick s)) ?T = Some t"
    and c: "tabs (s_store s1) = apply_write (SetLease (t_ID t) owner (e_db_now E (s_tick s) + lease_interval)) ?T"
    by (auto simp: PollTask_effect_def committed_def)
  have d: "distinct (map t_ID (tasks ?T))" using assms(1) by (simp add: wf_store_def wf_tables_def)
  let ?t1 = "t\<lparr>t_LeaseOwner := Some owner, t_LeaseExpiresAt := Some (e_db_now E (s_tick s) + lease_interval)\<rparr>"
  have "?t1 \<in> set (tasks (tabs (s_store s1)))" using select_pollable_Some(1) [OF sel] unfolding c by force
  moreover have "distinct (map t_ID (tasks (tabs (s_store s1))))" using d unfolding c by (simp add: comp_def if_distrib cong: if_cong)
  ultimately have "find_task (t_ID t) (tabs (s_store s1)) = Some ?t1"
    using find_unique_key [of ?t1 "tasks (tabs (s_store s1))" t_ID] by (simp add: find_task_def)
  moreover have "run_events w u (tabs (s_store s1)) = run_events w u ?T" for w u unfolding c by (simp add: run_events_def)
  ultimately show ?thesis using c
    by (intro exI [of _ "Some owner"] exI [of _ "Some (e_db_now E (s_tick s) + lease_interval)"]) (simp add: next_event_id_def)
qed


text \<open>
  The task's call is resolved: one event says how it ended. Or it is put back: the next attempt of the same
  call.
\<close>

definition resolved :: "tables \<Rightarrow> tables \<Rightarrow> Task \<Rightarrow> string \<Rightarrow> bytes \<Rightarrow> bool" where
  "resolved T T' t ty d \<longleftrightarrow> (\<exists>e. events T' = events T @ [e] \<and> is_event_of (t_WorkflowID t) (t_RunID t) e \<and>
     ev_EventID e = next_event_id (t_WorkflowID t) (t_RunID t) T \<and> ev_EventType e = ty \<and>
     ev_ActivityName e = t_ActivityName t \<and> ev_ActivityIndex e = t_ActivityIndex t \<and> ev_Data e = Some d)"

definition put_back :: "tables \<Rightarrow> tables \<Rightarrow> Task \<Rightarrow> bool" where
  "put_back T T' t \<longleftrightarrow> events T' = events T \<and> (\<exists>r \<in> set (tasks T'). t_WorkflowID r = t_WorkflowID t \<and>
     t_RunID r = t_RunID t \<and> t_TaskQueue r = t_TaskQueue t \<and> t_TaskType r = ''activity'' \<and>
     t_ActivityName r = t_ActivityName t \<and> t_ActivityIndex r = t_ActivityIndex t \<and> t_Input r = t_Input t \<and>
     t_Attempt r = t_Attempt t + 1 \<and> t_LeaseOwner r = None)"

lemma known_task:
  assumes "wf_store (e_uuid E) (s_store s)" and "find_task i (tabs (s_store s)) = Some t"
  shows "run_known E (t_WorkflowID t) (t_RunID t) (tabs (s_store s))"
  using wf_task(1,5) [OF assms] find_executionI by (auto simp: run_known_def simp del: List_find_None)

lemma CompleteActivityTask_resolves:
  assumes "calm E" and wf: "wf_store (e_uuid E) (s_store s)" and t: "find_task i (tabs (s_store s)) = Some t"
  shows "\<exists>s'. CompleteActivityTask i (t_WorkflowID t) (t_RunID t) (Some d) E s = (Inr (), s') \<and>
    resolved (tabs (s_store s)) (tabs (s_store s')) t ''ActivityCompleted'' d \<and> find_task i (tabs (s_store s')) = None"
proof -
  have serial: "serial E" using assms(1) by (simp add: calm_def)
  obtain s' where r: "CompleteActivityTask i (t_WorkflowID t) (t_RunID t) (Some d) E s = (Inr (), s')"
    using succeeds [OF progress_CompleteActivityTask [OF assms(1) wf_runs_stored [OF wf] _ known_task [OF wf t]]] t by auto
  from wpD [OF CompleteActivityTask_spec [unfolded effect_spec_def, OF serial] r]
  have "CompleteActivityTask_effect E s i (t_WorkflowID t) (t_RunID t) (Some d) s'" by simp
  moreover have "task_seq (s_store s) + 1 \<noteq> i" using wf_task(3,4) [OF wf t] wf by (auto simp: wf_store_def wf_tables_def)
  ultimately show ?thesis using r t wf_task(5) [OF wf t]
    by (auto simp: CompleteActivityTask_effect_def committed_def new_event_def new_task_def resolved_def zero_defs
      is_event_of_def find_task_def List_find_append split: option.splits)
qed

lemma FailActivityTask_resolves:
  assumes "calm E" and wf: "wf_store (e_uuid E) (s_store s)" and t: "find_task i (tabs (s_store s)) = Some t"
  shows "\<exists>s'. FailActivityTask i (t_WorkflowID t) (t_RunID t) msg E s = (Inr (), s') \<and>
    (if sint (t_Attempt t) < sint (t_MaxAttempts t) then put_back (tabs (s_store s)) (tabs (s_store s')) t
     else resolved (tabs (s_store s)) (tabs (s_store s')) t ''ActivityFailed'' msg) \<and> find_task i (tabs (s_store s')) = None"
proof -
  have serial: "serial E" using assms(1) by (simp add: calm_def)
  obtain s' where r: "FailActivityTask i (t_WorkflowID t) (t_RunID t) msg E s = (Inr (), s')"
    using succeeds [OF progress_FailActivityTask [OF assms(1) wf_runs_stored [OF wf] t disjI2 [OF known_task [OF wf t]]]] by auto
  have d: "task_seq (s_store s) + 1 \<noteq> i" using wf_task(3,4) [OF wf t] wf by (auto simp: wf_store_def wf_tables_def)
  show ?thesis
  proof (cases "sint (t_Attempt t) < sint (t_MaxAttempts t)")
    case True
    from wpD [OF wp_FailActivityTask [OF serial] r] t True have "RetryActivityTask_effect E s i t s'" by auto
    with True r d wf_task(5) [OF wf t] show ?thesis
      by (auto simp: RetryActivityTask_effect_def committed_def new_task_def put_back_def zero_defs find_task_def List_find_append
        split: option.splits)
  next
    case False
    from wpD [OF wp_FailActivityTask [OF serial] r] t False
    have "ExhaustActivityTask_effect E s i (t_WorkflowID t) (t_RunID t) msg t s'" by auto
    with False r d wf_task(5) [OF wf t] show ?thesis
      by (auto simp: ExhaustActivityTask_effect_def committed_def new_event_def new_task_def resolved_def zero_defs
        is_event_of_def find_task_def List_find_append split: option.splits)
  qed
qed


text \<open>The report of an activity, as the call it makes of the engine.\<close>

lemma polled_over_connection:
  assumes "PollTask q ''activity'' owner E s = (Inr (Some t), s1)"
  shows "\<exists>m. Client_PollActivityTask (connect E) q owner s =
    (Inr \<lparr>par_TaskId = t_ID t, par_WorkflowId = t_WorkflowID t, par_RunId = t_RunID t,
       par_ActivityName = t_ActivityName t, par_Input = t_Input t\<rparr>, s1\<lparr>s_metrics := m\<rparr>)"
  using assms by (auto simp: Client_PollActivityTask_def connect_def call_def Handler_PollActivityTask_def bindM_def tryM_def
    returnM_def count_poll_def metricM_def)

lemma reports_over_connection:
  "snd (Client_RespondActivityTaskCompleted (connect E) i wid rid result s) = snd (CompleteActivityTask i wid rid result E s)"
  "snd (Client_RespondActivityTaskFailed (connect E) i wid rid msg s) = snd (FailActivityTask i wid rid msg E s)"
  by (auto simp: Client_RespondActivityTaskCompleted_def Client_RespondActivityTaskFailed_def connect_def call_def
    Handler_RespondActivityTaskCompleted_def Handler_RespondActivityTaskFailed_def bindM_def tryM_def returnM_def
    simp del: toStatus.simps split: prod.splits sum.splits option.splits)

lemma executed_activity:
  assumes "wk_activityFunctions w (par_ActivityName task) = Some (zero, fn)"
    and "decode_input js (case par_Input task of None \<Rightarrow> [] | Some b \<Rightarrow> b) zero = Inr v"
    and "fn v world = (ActivityReturn (TwoResults y err), world')" and "json_Marshal js y = Inr b"
  shows "executeActivityTask js w task world =
    (case err of None \<Rightarrow> reportActivitySuccess b | Some msg \<Rightarrow> reportActivityFailure msg, world')"
  using assms by (simp add: executeActivityTask_def split: option.splits)

lemma activity_step_reports:
  assumes "PollTask (wk_queue w) ''activity'' (wk_id w) E s = (Inr (Some t), s1)" and "t_ID t \<noteq> 0"
    and "wk_activityFunctions w (t_ActivityName t) = Some (zero, fn)"
    and "decode_input js (case t_Input t of None \<Rightarrow> [] | Some b \<Rightarrow> b) zero = Inr v"
    and "fn v world = (ActivityReturn (TwoResults y err), world')" and "json_Marshal js y = Inr b"
  shows "\<exists>m. pollActivityTasks_step js (connect E) w (s, world) = (Worked,
    (case err of
       None \<Rightarrow> snd (CompleteActivityTask (t_ID t) (t_WorkflowID t) (t_RunID t) (Some b) E (s1\<lparr>s_metrics := m\<rparr>))
     | Some msg \<Rightarrow> snd (FailActivityTask (t_ID t) (t_WorkflowID t) (t_RunID t) msg E (s1\<lparr>s_metrics := m\<rparr>))), world')"
proof -
  let ?task = "\<lparr>par_TaskId = t_ID t, par_WorkflowId = t_WorkflowID t, par_RunId = t_RunID t,
       par_ActivityName = t_ActivityName t, par_Input = t_Input t\<rparr>"
  from polled_over_connection [OF assms(1)] obtain m where
    p: "Client_PollActivityTask (connect E) (wk_queue w) (wk_id w) s = (Inr ?task, s1\<lparr>s_metrics := m\<rparr>)" by blast
  have "executeActivityTask js w ?task world = (case err of None \<Rightarrow> reportActivitySuccess b | Some msg \<Rightarrow> reportActivityFailure msg, world')"
    by (rule executed_activity [of w ?task zero fn js v world y err world' b]) (use assms in simp_all)
  with p assms(2) show ?thesis
    by (intro exI [of _ m]) (simp add: pollActivityTasks_step_def reports_over_connection split: option.splits)
qed

text \<open>
  C8: one turn of the activity loop, on a database without failures, takes a polled task
  to its end. When the activity is registered, its input decodes and its result marshals, the
  function has run once, and the history has got the one event that resolves the call: the result
  that the function returned, or its error once the attempts are used up. Before that an error puts the
  call back, unleased, on the next attempt. In each case the polled task is gone, so no other worker
  is given it again.
\<close>

theorem activity_turn_resolves:
  assumes "serial E" and "fault_free E" and "uuid_ok E" and "wf_store (e_uuid E) (s_store s)"
    and "PollTask (wk_queue w) ''activity'' (wk_id w) E s = (Inr (Some t), s1)" and "t_ID t \<noteq> 0"
    and "wk_activityFunctions w (t_ActivityName t) = Some (zero, fn)"
    and "decode_input js (case t_Input t of None \<Rightarrow> [] | Some b \<Rightarrow> b) zero = Inr v"
    and "fn v world = (ActivityReturn (TwoResults y err), world')" and "json_Marshal js y = Inr b"
  defines "T \<equiv> tabs (s_store s)"
  shows "\<exists>s'. pollActivityTasks_step js (connect E) w (s, world) = (Worked, s', world') \<and>
    find_task (t_ID t) (tabs (s_store s')) = None \<and>
    (case err of
       None \<Rightarrow> resolved T (tabs (s_store s')) t ''ActivityCompleted'' b
     | Some msg \<Rightarrow> if sint (t_Attempt t) < sint (t_MaxAttempts t) then put_back T (tabs (s_store s')) t
                  else resolved T (tabs (s_store s')) t ''ActivityFailed'' msg)"
proof -
  have calm: "calm E" using assms(1,2) by (simp add: calm_def)
  from wpD [OF wp_PollTask [OF assms(1)] assms(5)] have eff: "PollTask_effect E s (wk_queue w) ''activity'' (wk_id w) t s1" by simp
  obtain ow ex where t1: "find_task (t_ID t) (tabs (s_store s1)) = Some (t\<lparr>t_LeaseOwner := ow, t_LeaseExpiresAt := ex\<rparr>)"
    and same: "events (tabs (s_store s1)) = events T" "\<And>w u. next_event_id w u (tabs (s_store s1)) = next_event_id w u T"
    using leased_task [OF assms(4) eff, folded T_def] by blast
  let ?t1 = "t\<lparr>t_LeaseOwner := ow, t_LeaseExpiresAt := ex\<rparr>"
  have fields: "resolved (tabs (s_store s1)) T' ?t1 ty d = resolved T T' t ty d"
    "put_back (tabs (s_store s1)) T' ?t1 = put_back T T' t" for T' ty d
    by (simp_all add: resolved_def put_back_def same)
  have wf: "wf_store (e_uuid E) (s_store (s1\<lparr>s_metrics := m\<rparr>))" for m
    using engine_step_wf [OF PollTask_step [OF eff] assms(4)] by simp
  have t1': "find_task (t_ID t) (tabs (s_store (s1\<lparr>s_metrics := m\<rparr>))) = Some ?t1" for m using t1 by simp
  obtain m where step: "pollActivityTasks_step js (connect E) w (s, world) = (Worked,
    (case err of
       None \<Rightarrow> snd (CompleteActivityTask (t_ID t) (t_WorkflowID t) (t_RunID t) (Some b) E (s1\<lparr>s_metrics := m\<rparr>))
     | Some msg \<Rightarrow> snd (FailActivityTask (t_ID t) (t_WorkflowID t) (t_RunID t) msg E (s1\<lparr>s_metrics := m\<rparr>))), world')"
    using activity_step_reports [OF assms(5-10)] by blast
  show ?thesis
  proof (cases err)
    case None
    with step CompleteActivityTask_resolves [OF calm wf t1', of b m] show ?thesis by (auto simp: fields)
  next
    case (Some msg)
    with step FailActivityTask_resolves [OF calm wf t1', of msg m] show ?thesis by (auto simp: fields)
  qed
qed


theorem activity_turn_resolves_witness:
  "\<exists>s' e. pollActivityTasks_step sample_json (connect sample_env) sample_worker (sample_scheduled, ()) = (Worked, s', ()) \<and>
     find_task 2 (tabs (s_store s')) = None \<and> events (tabs (s_store s')) = events (tabs (s_store sample_scheduled)) @ [e] \<and>
     ev_EventType e = ''ActivityCompleted'' \<and> ev_Data e = Some ''1''"
proof -
  let ?t = "\<lparr>t_ID = 2, t_TaskQueue = ''q'',
     t_TaskType = ''activity'', t_WorkflowType = ''T'', t_WorkflowID = ''w'', t_RunID = sample_run,
     t_ScheduledEventID = 2, t_Input = Some ''1'', t_ActivityName = ''A'', t_ActivityIndex = 0,
     t_Attempt = 1, t_MaxAttempts = 3, t_VisibilityTime = zero_time, t_LeaseOwner = None,
     t_LeaseExpiresAt = None\<rparr> :: Task"
  have "fst (PollTask (wk_queue sample_worker) ''activity'' (wk_id sample_worker) sample_env sample_scheduled) = Inr (Some ?t)"
    by code_simp
  from activity_turn_resolves [OF sample_env_ok(1) sample_fault_free(1) sample_env_ok(2) sample_after_wf(1) ran [OF this],
      of "''''" "\<lambda>v. Pair (ActivityReturn (TwoResults v None))" sample_json "''1''" "()" "''1''" None "()" "''1''"]
  show ?thesis by (auto simp: resolved_def sample_worker_def sample_json_def decode_input_def)
qed

section \<open>A turn of the workflow loop\<close>

text \<open>The command that ends the workflow, and the end of the execution, by the outcome of the replay.\<close>

fun ending :: "outcome \<Rightarrow> pbCommand list" where
  "ending (Returned None) = [zero_pbCommand\<lparr>pc_Type := ''CompleteWorkflow''\<rparr>]"
| "ending (Returned (Some err)) = [zero_pbCommand\<lparr>pc_Type := ''FailWorkflow'', pc_Input := Some err\<rparr>]"
| "ending out = []"

fun ended :: "outcome \<Rightarrow> string \<Rightarrow> string \<Rightarrow> time \<Rightarrow> WorkflowExecution list \<Rightarrow> WorkflowExecution list" where
  "ended (Returned None) wid u now xs = close_execution wid u now ''Completed'' xs"
| "ended (Returned (Some err)) wid u now xs = close_execution wid u now ''Failed'' xs"
| "ended out wid u now xs = xs"

lemma polled_workflow_over_connection:
  assumes "calm E" and "wf_store (e_uuid E) (s_store s)" and "dense (tabs (s_store s))"
    and poll: "PollTask q ''workflow'' owner E s = (Inr (Some t), s1)"
  shows "\<exists>s2. Client_PollWorkflowTask (connect E) q owner s =
      (Inr (task_response t (run_events (t_WorkflowID t) (t_RunID t) (tabs (s_store s)))), s2) \<and> s_store s2 = s_store s1"
proof -
  have serial: "serial E" using assms(1) by (simp add: calm_def)
  from wpD [OF wp_PollTask [OF serial] poll] have eff: "PollTask_effect E s q ''workflow'' owner t s1" by simp
  then have ev: "events (tabs (s_store s1)) = events (tabs (s_store s))" using leased_task [OF assms(2)] by blast
  then have runs: "run_events w u (tabs (s_store s1)) = run_events w u (tabs (s_store s))" for w u by (simp add: run_events_def)
  with assms(3) have dense: "dense (tabs (s_store s1))" by (simp add: dense_def)
  from eff select_pollable_Some(1) wf_run_uuid [OF assms(2)] have u: "e_uuid E (t_RunID t) = Some (t_RunID t)"
    by (auto simp: PollTask_effect_def)
  let ?s = "counted_poll ''workflow'' ''hit'' s1"
  have "wp (GetEvents (t_WorkflowID t) (t_RunID t)) E ?s (\<lambda>_ _. True) (\<lambda>_ _. False)"
    by (rule calm_GetEvents [OF assms(1)]) (simp_all add: u)
  then obtain evs s2 where g: "GetEvents (t_WorkflowID t) (t_RunID t) E ?s = (Inr evs, s2)" using succeeds by blast
  note r = GetEvents_read [OF serial g]
  from r(3) [OF refl] u obtain k where "evs = select_events k (t_WorkflowID t) (t_RunID t) (tabs (s_store s1))" by auto
  then have "evs = run_events (t_WorkflowID t) (t_RunID t) (tabs (s_store s))" by (simp add: select_events_dense [OF dense] runs)
  with g r(1) Handler_PollWorkflowTask_run [of "\<lparr>pwq_TaskQueue = q, pwq_LeaseOwner = owner\<rparr>" E s "Inr (Some t)" s1] poll
  show ?thesis by (auto simp: Client_PollWorkflowTask_def connect_def call_def)
qed

lemma answer_over_connection:
  "snd (rpc_RespondWorkflowTaskCompleted (connect E) req s) =
     snd (CompleteWorkflowTask (rwq_TaskId req) (rwq_WorkflowId req) (rwq_RunId req) (unmarshalCommands (rwq_Commands req)) E s)"
  by (auto simp: connect_def call_def Handler_RespondWorkflowTaskCompleted_def bindM_def tryM_def returnM_def
    simp del: toStatus.simps split: prod.splits sum.splits option.splits)

lemma executed_workflow:
  assumes "wk_workflowFunctions w (pwr_WorkflowType task) = Some (zero, body)"
    and "decode_input js (started_input (pwr_History task)) zero = Inr v"
    and "replay js (body v) (New (pwr_History task) (wk_queue w)) = (out, c)" and "\<forall>r. out \<noteq> Panicked r"
  shows "executeWorkflowTask js w task = Respond \<lparr>rwq_TaskId = pwr_TaskId task, rwq_WorkflowId = pwr_WorkflowId task,
    rwq_RunId = pwr_RunId task, rwq_Commands = Commands c @ ending out\<rparr>"
  using assms by (cases out rule: ending.cases) (simp_all add: executeWorkflowTask_def Let_def)


lemma filter_known:
  assumes "\<forall>d \<in> set ds. pc_Type d \<in> {''ScheduleActivity'', ''StartTimer''}"
  shows "filter known_command (unmarshalCommands (ds @ ending out)) = unmarshalCommands (ds @ ending out)"
    and "fold (close_execution wid u now) (map terminal_status (filter terminal_command (unmarshalCommands (ds @ ending out)))) xs =
      ended out wid u now xs"
proof -
  note ds = unmarshal_nonterminal [OF assms]
  have known: "filter known_command (unmarshalCommands ds) = unmarshalCommands ds" using ds by (simp add: filter_id_conv)
  have plain: "filter terminal_command (unmarshalCommands ds) = []" using ds by (simp add: filter_empty_conv)
  show "filter known_command (unmarshalCommands (ds @ ending out)) = unmarshalCommands (ds @ ending out)"
    by (cases out rule: ending.cases) (simp_all add: known, simp_all add: unmarshalCommands_def known_command_def)
  show "fold (close_execution wid u now) (map terminal_status (filter terminal_command (unmarshalCommands (ds @ ending out)))) xs =
      ended out wid u now xs"
    by (cases out rule: ending.cases)
      (simp_all add: plain, simp_all add: unmarshalCommands_def terminal_command_def terminal_status_def)
qed

lemma CompleteWorkflowTask_records:
  assumes "calm E" and wf: "wf_store (e_uuid E) (s_store s)" and "i \<le> task_seq (s_store s)"
    and u: "e_uuid E rid = Some u" and x: "find_execution wid u (tabs (s_store s)) = Some x" and "we_Status x = ''Running''"
    and cs: "\<forall>d \<in> set ds. pc_Type d \<in> {''ScheduleActivity'', ''StartTimer''}"
  shows "\<exists>s' now es. CompleteWorkflowTask i wid rid (unmarshalCommands (ds @ ending out)) E s = (Inr (), s') \<and>
    events (tabs (s_store s')) = events (tabs (s_store s)) @ es \<and>
    list_all2 (row_of wid rid u now) es (unmarshalCommands (ds @ ending out)) \<and>
    executions (tabs (s_store s')) = ended out wid u now (executions (tabs (s_store s))) \<and>
    find_task i (tabs (s_store s')) = None"
proof -
  let ?cs = "unmarshalCommands (ds @ ending out)" and ?T = "tabs (s_store s)"
  have serial: "serial E" using assms(1) by (simp add: calm_def)
  have "run_known E wid rid ?T" using u x by (simp add: run_known_def)
  then obtain s' where r: "CompleteWorkflowTask i wid rid ?cs E s = (Inr (), s')"
    using succeeds [OF progress_CompleteWorkflowTask [OF assms(1)]] by (metis old.unit.exhaust)
  from wpD [OF CompleteWorkflowTask_spec [unfolded effect_spec_def, OF serial] r]
  have "CompleteWorkflowTask_effect E s i wid rid ?cs s'" by simp
  with u x assms(6) obtain ws where log: "command_log E x wid rid u (begin_now E s) (event_seq (s_store s)) (task_seq (s_store s))
      (timer_seq (s_store s)) (next_event_id wid u ?T) ?cs ws"
    and T': "tabs (s_store s') = apply_write (DeleteTask i) (apply_log ws ?T)"
    by (auto simp: CompleteWorkflowTask_effect_def committed_def)
  have "executions (tabs (s_store s')) = ended out wid u (begin_now E s) (executions ?T)"
    using command_log_tables [OF log] filter_known(2) [OF cs] by (simp add: T')
  moreover have "list_all2 (row_of wid rid u (begin_now E s)) (event_rows ws) ?cs"
    using command_log_rows [OF log] filter_known(1) [OF cs] by simp
  moreover have "find_task i (tabs (s_store s')) = None" by (simp add: T' find_task_def)
  ultimately show ?thesis using r
    by (intro exI [of _ s'] exI [of _ "begin_now E s"] exI [of _ "event_rows ws"]) (simp add: T' events_apply_log)
qed

text \<open>
  C7: one turn of the workflow loop, on a database without failures, takes a
  polled task of a running execution to its end. When the type is registered, the input decodes and
  the replay over the history of the run does not panic, the history has got exactly one event per
  command of the replay, in their order, and the one that ends the workflow if the function
  returned; the execution is then completed or failed, and stays as it was if the function is
  suspended; and the task is gone.
\<close>

theorem workflow_turn_records:
  assumes "serial E" and "fault_free E" and wf: "wf_store (e_uuid E) (s_store s)" and dense: "dense (tabs (s_store s))"
    and poll: "PollTask (wk_queue w) ''workflow'' (wk_id w) E s = (Inr (Some t), s1)" and "t_ID t \<noteq> 0"
    and "find_execution (t_WorkflowID t) (t_RunID t) (tabs (s_store s)) = Some x" and "we_Status x = ''Running''"
    and "wk_workflowFunctions w (t_WorkflowType t) = Some (zero, body)"
    and "decode_input js (started_input h) zero = Inr v"
    and replay: "replay js (body v) (New h (wk_queue w)) = (out, c)" and "\<forall>r. out \<noteq> Panicked r"
    and h: "h = marshalEvents (run_events (t_WorkflowID t) (t_RunID t) (tabs (s_store s)))"
  defines "T \<equiv> tabs (s_store s)"
  shows "\<exists>s' now es. pollWorkflowTasks_step js (connect E) w s = (Worked, s') \<and>
    events (tabs (s_store s')) = events T @ es \<and>
    list_all2 (row_of (t_WorkflowID t) (t_RunID t) (t_RunID t) now) es (unmarshalCommands (Commands c @ ending out)) \<and>
    executions (tabs (s_store s')) = ended out (t_WorkflowID t) (t_RunID t) now (executions T) \<and>
    find_task (t_ID t) (tabs (s_store s')) = None"
proof -
  have calm: "calm E" using assms(1,2) by (simp add: calm_def)
  from wpD [OF wp_PollTask [OF assms(1)] poll] have eff: "PollTask_effect E s (wk_queue w) ''workflow'' (wk_id w) t s1" by simp
  obtain s2 where p: "Client_PollWorkflowTask (connect E) (wk_queue w) (wk_id w) s =
      (Inr (task_response t (run_events (t_WorkflowID t) (t_RunID t) (tabs (s_store s)))), s2)" and s2: "s_store s2 = s_store s1"
    using polled_workflow_over_connection [OF calm wf dense poll] by blast
  have wf2: "wf_store (e_uuid E) (s_store s2)" using engine_step_wf [OF PollTask_step [OF eff] wf] s2 by simp
  have t1: "find_task (t_ID t) (tabs (s_store s2)) \<noteq> None" and same: "events (tabs (s_store s2)) = events T"
    "executions (tabs (s_store s2)) = executions T" using leased_task [OF wf eff] s2 by (auto simp: T_def)
  then obtain t1 where "find_task (t_ID t) (tabs (s_store s2)) = Some t1" by blast
  from wf_task(3,4) [OF wf2 this] wf2 have i: "t_ID t \<le> task_seq (s_store s2)" by (auto simp: wf_store_def wf_tables_def)
  have u: "e_uuid E (t_RunID t) = Some (t_RunID t)"
    using eff select_pollable_Some(1) wf_run_uuid [OF wf] by (auto simp: PollTask_effect_def)
  have x: "find_execution (t_WorkflowID t) (t_RunID t) (tabs (s_store s2)) = Some x"
    using assms(7) same(2) by (simp add: find_execution_def T_def)
  let ?task = "task_response t (run_events (t_WorkflowID t) (t_RunID t) (tabs (s_store s)))"
  have "executeWorkflowTask js w ?task = Respond \<lparr>rwq_TaskId = t_ID t, rwq_WorkflowId = t_WorkflowID t,
      rwq_RunId = t_RunID t, rwq_Commands = Commands c @ ending out\<rparr>"
    using executed_workflow [of w ?task zero body js v out c] assms(9-12) h by (simp add: task_response_def)
  then have step: "pollWorkflowTasks_step js (connect E) w s = (Worked, snd (CompleteWorkflowTask (t_ID t) (t_WorkflowID t)
      (t_RunID t) (unmarshalCommands (Commands c @ ending out)) E s2))"
    using p assms(6) by (simp add: pollWorkflowTasks_step_def answer_over_connection task_response_def)
  from CompleteWorkflowTask_records [OF calm wf2 i u x assms(8) replay_command_types [OF replay], of out] step same
  show ?thesis by auto
qed


theorem workflow_turn_records_witness:
  "\<exists>s' es. pollWorkflowTasks_step sample_json (connect sample_env) sample_worker sample_started = (Worked, s') \<and>
     events (tabs (s_store s')) = events (tabs (s_store sample_started)) @ es \<and> length es = 1 \<and>
     find_task 1 (tabs (s_store s')) = None"
proof -
  let ?T = "tabs (s_store sample_started)"
  let ?t = "the (List.find (\<lambda>t. t_ID t = 1) (tasks ?T))"
  let ?h = "marshalEvents (run_events (t_WorkflowID ?t) (t_RunID ?t) ?T)"
  let ?r = "replay sample_json (sample_wf_term ''7'') (New ?h (wk_queue sample_worker))"
  have p: "fst (PollTask (wk_queue sample_worker) ''workflow'' (wk_id sample_worker) sample_env sample_started) = Inr (Some ?t)"
    by code_simp
  have t: "t_ID ?t = 1" "t_WorkflowType ?t = ''T''" by code_simp+
  obtain x where x: "find_execution (t_WorkflowID ?t) (t_RunID ?t) ?T = Some x" "we_Status x = ''Running''"
  proof -
    have "map_option we_Status (find_execution (t_WorkflowID ?t) (t_RunID ?t) ?T) = Some ''Running''" by code_simp
    with that show ?thesis by auto
  qed
  have f: "wk_workflowFunctions sample_worker (t_WorkflowType ?t) = Some ([], sample_wf_term)" by (simp add: t sample_worker_def)
  have d: "decode_input sample_json (started_input ?h) [] = Inr ''7''" by code_simp
  have out: "fst ?r = Suspended" by code_simp
  have n: "length (unmarshalCommands (Commands (snd ?r) @ ending Suspended)) = 1" by code_simp
  from workflow_turn_records [OF sample_env_ok(1) sample_fault_free(1) sample_wf sample_dense ran [OF p] _ x f d
      prod_eqI [of ?r "(Suspended, snd ?r)"] _ refl] t n out
  show ?thesis by (auto dest: list_all2_lengthD)
qed

end
