(* ===== verification/Counting.thy ===== *)
theory Counting
  imports Invariants Rollback
begin

text \<open>
  The domain counters against the durable history: a counter that counts an outcome the history
  records never runs ahead of the events, and keeps step with them while no reply to a COMMIT is
  lost.
\<close>

section \<open>Counters and events\<close>

text \<open>The counter that goes with a type of event.\<close>

definition counter :: "string \<Rightarrow> metrics \<Rightarrow> nat" where
  "counter ty m =
     (if ty = ''WorkflowStarted'' then WorkflowsStarted m
      else if ty = ''WorkflowCompleted'' then WorkflowsTerminated m ''completed''
      else if ty = ''WorkflowFailed'' then WorkflowsTerminated m ''failed''
      else if ty = ''ActivityScheduled'' then ActivitiesScheduled m
      else if ty = ''ActivityCompleted'' then ActivitiesFinished m ''completed''
      else if ty = ''ActivityFailed'' then ActivitiesFinished m ''failed''
      else if ty = ''TimerStarted'' then TimersStarted m
      else if ty = ''TimerFired'' then TimersFired m
      else if ty = ''SignalReceived'' then SignalsDelivered m
      else 0)"

text \<open>What each increment does to the counters.\<close>

lemma counter_increments [simp]:
  "counter ty (m\<lparr>WorkflowsStarted := Suc (WorkflowsStarted m)\<rparr>) = counter ty m + (if ''WorkflowStarted'' = ty then 1 else 0)"
  "counter ty (m\<lparr>ActivitiesFinished := (ActivitiesFinished m)(''completed'' := Suc (ActivitiesFinished m ''completed''))\<rparr>) =
     counter ty m + (if ''ActivityCompleted'' = ty then 1 else 0)"
  "counter ty (m\<lparr>ActivitiesFinished := (ActivitiesFinished m)(''failed'' := Suc (ActivitiesFinished m ''failed''))\<rparr>) =
     counter ty m + (if ''ActivityFailed'' = ty then 1 else 0)"
  "counter ty (m\<lparr>SignalsDelivered := Suc (SignalsDelivered m)\<rparr>) = counter ty m + (if ''SignalReceived'' = ty then 1 else 0)"
  "counter ty (m\<lparr>TimersFired := TimersFired m + n\<rparr>) = counter ty m + (if ''TimerFired'' = ty then n else 0)"
  "counter ty (m\<lparr>ActivityRetries := r\<rparr>) = counter ty m"
  "counter ty (m\<lparr>LeasesReclaimed := r\<rparr>) = counter ty m"
  "counter ty (m\<lparr>TaskPolls := p\<rparr>) = counter ty m"
  by (auto simp: counter_def)

definition of_type :: "string \<Rightarrow> Event list \<Rightarrow> nat" where
  "of_type ty es = length (filter (\<lambda>e. ev_EventType e = ty) es)"

lemma of_type_simps [simp]:
  "of_type ty [] = 0" "of_type ty (e # es) = (if ev_EventType e = ty then 1 else 0) + of_type ty es"
  "of_type ty (es @ es') = of_type ty es + of_type ty es'"
  by (simp_all add: of_type_def)

definition exact :: "sess \<Rightarrow> sess \<Rightarrow> bool" where
  "exact s s' \<longleftrightarrow> (\<forall>ty. counter ty (s_metrics s') + of_type ty (events (tabs (s_store s))) =
     counter ty (s_metrics s) + of_type ty (events (tabs (s_store s'))))"

definition behind :: "sess \<Rightarrow> sess \<Rightarrow> bool" where
  "behind s s' \<longleftrightarrow> (\<forall>ty. counter ty (s_metrics s') + of_type ty (events (tabs (s_store s))) \<le>
     counter ty (s_metrics s) + of_type ty (events (tabs (s_store s'))))"

lemma exact_behind: "exact s s' \<Longrightarrow> behind s s'"
  by (simp add: exact_def behind_def)

lemma quiet_exact: "quiet s s' \<Longrightarrow> exact s s'"
  by (simp add: quiet_def exact_def)

lemma committed_events: "committed ws a b c s s' \<Longrightarrow> events (tabs (s_store s')) = events (tabs (s_store s)) @ event_rows ws"
  by (simp add: committed_def events_apply_log)

lemmas count_simps = exact_def behind_def quiet_def zero_Event_def new_event_def new_task_def signal_event_def

section \<open>The operations\<close>

definition counts :: "env \<Rightarrow> sess \<Rightarrow> 'a M \<Rightarrow> bool" where
  "counts E s m \<longleftrightarrow> wp m E s (\<lambda>_. exact s) (\<lambda>_. behind s) \<and>
     (acknowledged E \<longrightarrow> wp m E s (\<lambda>_. exact s) (\<lambda>_. exact s))"

lemma countsI:
  assumes "serial E" and "rolls_back m" and "wp m E s (\<lambda>_. exact s) (\<lambda>_. behind s)"
  shows "counts E s m"
proof -
  have "wp m E s (\<lambda>_. exact s) (\<lambda>_. exact s)" if "acknowledged E"
  proof -
    have "wp m E s (\<lambda>_ _. True) (\<lambda>_. quiet s)" using assms(1,2) that by (simp add: rolls_back_def)
    with assms(3) show ?thesis by (auto simp: wp_def quiet_exact split: prod.splits sum.splits)
  qed
  with assms(3) show ?thesis by (simp add: counts_def)
qed

definition tallied :: "string \<Rightarrow> tally \<Rightarrow> nat" where
  "tallied ty n = (if ty = ''ActivityScheduled'' then n_scheduled n else if ty = ''TimerStarted'' then n_timersStarted n
     else if ty = ''WorkflowCompleted'' then n_completed n else if ty = ''WorkflowFailed'' then n_failed n else 0)"

lemma tallied_Cons:
  "tallied ty (tally_of (c # cs)) = tallied ty (tally_of cs) + (if known_command c \<and>
     ev_EventType (command_event wid rid n c) = ty then 1 else 0)"
  by (auto simp: tallied_def tally_of_def count_type_def known_command_def command_event_def zero_Event_def)

lemma command_log_types:
  "command_log E x wid rid u now es ts ms n cs ws \<Longrightarrow> of_type ty (event_rows ws) = tallied ty (tally_of cs)"
proof (induction cs arbitrary: es ts ms n ws)
  case (Cons c cs)
  then show ?case
    unfolding tallied_Cons [of ty c cs wid rid n]
    by (auto simp: Let_def known_command_def split: if_split_asm dest!: Cons.IH)
qed (simp add: tallied_def tally_of_def count_type_def)

lemma counter_outcomes: "counter ty (count_outcomes n m) = counter ty m + tallied ty n"
  by (simp add: counter_def count_outcomes_def tallied_def)

lemma StartWorkflow_event:
  assumes "StartWorkflow_effect E s wid wtype q input rid s'"
  shows "of_type ty (events (tabs (s_store s'))) =
    of_type ty (events (tabs (s_store s))) + (if ''WorkflowStarted'' = ty then 1 else 0)"
  using assms unfolding StartWorkflow_effect_def
  by (elim exE conjE) (drule committed_events, simp add: new_event_def new_task_def zero_Event_def)

lemma counts_StartWorkflow: "serial E \<Longrightarrow> counts E s (StartWorkflow wid wtype q input)"
  by (rule countsI [OF _ StartWorkflow_rolls_back], assumption, rule wp_mono [OF wp_StartWorkflow], assumption)
    (auto simp: count_simps StartWorkflow_event)

lemma CompleteWorkflowTask_event:
  assumes "CompleteWorkflowTask_effect E s i wid rid cs s'"
  shows "of_type ty (events (tabs (s_store s'))) = of_type ty (events (tabs (s_store s))) +
    (if workflow_running E s wid rid then tallied ty (tally_of cs) else 0)"
proof -
  from assms obtain u x where x: "e_uuid E rid = Some u" "find_execution wid u (tabs (s_store s)) = Some x"
    and c: "if we_Status x \<noteq> ''Running'' then committed [DeleteTask i] 0 0 0 s s'
        else (\<exists>ws. command_log E x wid rid u (begin_now E s) (event_seq (s_store s)) (task_seq (s_store s))
             (timer_seq (s_store s)) (next_event_id wid u (tabs (s_store s))) cs ws \<and>
           committed (ws @ [DeleteTask i]) (int (length (filter known_command cs)))
             (int (count_type ''ScheduleActivity'' cs)) (int (count_type ''StartTimer'' cs)) s s')"
    unfolding CompleteWorkflowTask_effect_def by blast
  have r: "workflow_running E s wid rid \<longleftrightarrow> we_Status x = ''Running''" using x by (simp add: workflow_running_def)
  show ?thesis
  proof (cases "we_Status x = ''Running''")
    case True
    with c obtain ws where log: "command_log E x wid rid u (begin_now E s) (event_seq (s_store s)) (task_seq (s_store s))
        (timer_seq (s_store s)) (next_event_id wid u (tabs (s_store s))) cs ws"
      and com: "committed (ws @ [DeleteTask i]) (int (length (filter known_command cs)))
             (int (count_type ''ScheduleActivity'' cs)) (int (count_type ''StartTimer'' cs)) s s'" by auto
    from committed_events [OF com] command_log_types [OF log, of ty] True r show ?thesis by simp
  next
    case False
    with c committed_events [of "[DeleteTask i]"] r show ?thesis by simp
  qed
qed

lemma counts_CompleteWorkflowTask: "serial E \<Longrightarrow> counts E s (CompleteWorkflowTask i wid rid cs)"
  by (rule countsI [OF _ CompleteWorkflowTask_rolls_back], assumption,
      rule wp_mono [OF CompleteWorkflowTask_spec [unfolded effect_spec_def]], assumption)
    (auto simp: count_simps CompleteWorkflowTask_event counter_outcomes)

lemma counts_CompleteActivityTask: "serial E \<Longrightarrow> counts E s (CompleteActivityTask i wid rid result)"
  by (rule countsI [OF _ CompleteActivityTask_rolls_back], assumption,
      rule wp_mono [OF CompleteActivityTask_spec [unfolded effect_spec_def]], assumption)
    (auto simp: CompleteActivityTask_effect_def count_simps dest!: committed_events)

lemma counts_FailActivityTask: "serial E \<Longrightarrow> counts E s (FailActivityTask i wid rid msg)"
  by (rule countsI [OF _ FailActivityTask_rolls_back], assumption, rule wp_mono [OF wp_FailActivityTask], assumption)
    (auto simp: RetryActivityTask_effect_def ExhaustActivityTask_effect_def count_simps split: if_split_asm dest!: committed_events)

lemma counts_SignalWorkflow: "serial E \<Longrightarrow> counts E s (SignalWorkflow wid rid name input)"
  by (rule countsI [OF _ SignalWorkflow_rolls_back], assumption, rule wp_mono [OF wp_SignalWorkflow], assumption)
    (auto simp: SignalWorkflow_effect_def count_simps split: if_split_asm dest!: committed_events)

lemma fired_log_types:
  "fired_log E T now es ts tms ws \<Longrightarrow> of_type ty (event_rows ws) = (if ''TimerFired'' = ty then length tms else 0)"
  by (induction tms arbitrary: es ts ws) (fastforce simp: Let_def zero_Event_def)+

lemma counts_ScanTimers: "serial E \<Longrightarrow> counts E s ScanTimers"
  by (rule countsI [OF _ ScanTimers_rolls_back], assumption, rule wp_mono [OF wp_ScanTimers], assumption)
    (auto simp: ScanTimers_effect_def fired_log_types count_simps split: if_split_asm dest!: committed_events)

section \<open>The requests\<close>

definition keeps_counters :: "'a M \<Rightarrow> bool" where
  "keeps_counters m \<longleftrightarrow> (\<forall>E s. serial E \<longrightarrow> (\<forall>ty. counter ty (s_metrics (snd (m E s))) = counter ty (s_metrics s)) \<and>
     tabs (s_store (snd (m E s))) = tabs (s_store s))"

lemma keeps_counters_simps [simp]:
  "keeps_counters (returnM x)" "keeps_counters (count_poll ty r)"
  "keeps_counters (metricM (\<lambda>m. m\<lparr>LeasesReclaimed := f m\<rparr>))"
  by (simp_all add: keeps_counters_def returnM_def count_poll_def metricM_def)

lemma snd_tryM: "snd (tryM m E s) = snd (m E s)"
  by (cases "m E s") (simp add: tryM_def)

lemma keeps_counters_GetEvents [simp]: "keeps_counters (tryM (GetEvents wid rid))"
proof -
  have w: "wp (GetEvents wid rid) E s (\<lambda>_. quiet s) (\<lambda>_. quiet s)" if "serial E" for E s
    by (rule wp_GetEvents [OF that]) (auto simp: driver_failure_def session_simps)
  have "quiet s (snd (GetEvents wid rid E s))" if "serial E" for E s
    using w [OF that, of s] by (cases "GetEvents wid rid E s") (simp add: wp_def split: sum.splits)
  then show ?thesis by (simp add: keeps_counters_def quiet_def snd_tryM)
qed

lemma keeps_counters_bind:
  assumes m: "keeps_counters m" and k: "\<And>x. keeps_counters (k x)"
  shows "keeps_counters (bindM m k)"
  unfolding keeps_counters_def
proof (intro allI impI)
  fix E :: env and s assume E: "serial E"
  obtain r s1 where r: "m E s = (r, s1)" by (cases "m E s")
  with m E have "\<forall>ty. counter ty (s_metrics s1) = counter ty (s_metrics s)" "tabs (s_store s1) = tabs (s_store s)"
    unfolding keeps_counters_def by (metis snd_conv)+
  moreover have "\<forall>ty. counter ty (s_metrics (snd (k x E s1))) = counter ty (s_metrics s1)"
    "tabs (s_store (snd (k x E s1))) = tabs (s_store s1)" for x
    using k [of x] E unfolding keeps_counters_def by blast+
  ultimately show "(\<forall>ty. counter ty (s_metrics (snd (bindM m k E s))) = counter ty (s_metrics s)) \<and>
      tabs (s_store (snd (bindM m k E s))) = tabs (s_store s)"
    by (cases r) (simp_all add: bindM_def r)
qed

lemma keeps_counters_case:
  "(\<And>e. keeps_counters (f e)) \<Longrightarrow> (\<And>x. keeps_counters (g x)) \<Longrightarrow> keeps_counters (case r of Inl e \<Rightarrow> f e | Inr x \<Rightarrow> g x)"
  "keeps_counters m \<Longrightarrow> (\<And>x. keeps_counters (h x)) \<Longrightarrow> keeps_counters (case p of None \<Rightarrow> m | Some x \<Rightarrow> h x)"
  by (auto split: sum.splits option.splits)

definition keeps_count :: "env \<Rightarrow> sess \<Rightarrow> sess \<Rightarrow> bool" where
  "keeps_count E s s' \<longleftrightarrow> behind s s' \<and> (acknowledged E \<longrightarrow> exact s s')"

lemma counted_handler:
  assumes "serial E" and "counts E s m" and "\<And>res. keeps_counters (k res)"
  shows "keeps_count E s (snd (bindM (tryM m) k E s))"
proof -
  obtain r s1 where m: "m E s = (r, s1)" by (cases "m E s")
  with assms(2) have "behind s s1" "acknowledged E \<longrightarrow> exact s s1"
    by (auto simp: counts_def wp_def exact_behind split: sum.splits)
  with assms(1,3) m show ?thesis
    by (auto simp: keeps_counters_def keeps_count_def bindM_def tryM_def behind_def exact_def)
qed

lemma counts_PollTask: "serial E \<Longrightarrow> counts E s (PollTask q ty owner)"
  unfolding counts_def
  by (intro conjI impI; rule wp_mono [OF wp_PollTask], assumption)
    (auto simp: PollTask_effect_def count_simps split: option.splits dest!: committed_events)

lemma counts_ReclaimExpiredLeases: "serial E \<Longrightarrow> counts E s ReclaimExpiredLeases"
  unfolding counts_def
  by (intro conjI impI; rule wp_mono [OF wp_ReclaimExpiredLeases], assumption)
    (auto simp: count_simps)

lemma serve_keeps_count:
  assumes E: "serial E"
  shows "keeps_count E s (serve q E s)"
  by (cases q; simp add: Handler_StartWorkflow_def Handler_PollWorkflowTask_def Handler_RespondWorkflowTaskCompleted_def
      Handler_PollActivityTask_def Handler_RespondActivityTaskCompleted_def Handler_RespondActivityTaskFailed_def
      Handler_SignalWorkflow_def reclaimLoop_tick_def scanTimers_tick_def;
    intro counted_handler E counts_StartWorkflow counts_CompleteWorkflowTask counts_CompleteActivityTask
      counts_FailActivityTask counts_SignalWorkflow counts_ScanTimers counts_PollTask counts_ReclaimExpiredLeases
      keeps_counters_case keeps_counters_bind keeps_counters_simps keeps_counters_GetEvents)

end
