(* ===== verification/LoopProperties.thy ===== *)
theory LoopProperties
  imports Loops Counting Samples WorkerProperties
begin

text \<open>
  Properties of the processes as they run: the worker's loops against the engine, and the counters
  of the engine's metrics.
\<close>

section \<open>The worker's loops\<close>

text \<open>
  C9: whatever an SDK worker does while it runs, with any workflow and activity
  functions, any interleaving of the iterations of its two loops and any faults of the engine it is
  connected to, it leaves the engine in the states in which the histories are numbered: the
  worker's answers always meet what the numbering asks of a client. So after them too the event IDs
  of every run are 1, 2, 3, ... in the order of the events, and the tables are well formed.
\<close>

theorem worker_run_numbered:
  assumes "reachable U numbering_ok s" and "connected_turns U ts"
    and "Run js ts w (s, world) = (panic, s', world')"
  shows "reachable U numbering_ok s' \<and> wf_store U (s_store s') \<and>
    map ev_EventID (run_events wid rid (tabs (s_store s'))) = [1..int (length (run_events wid rid (tabs (s_store s'))))]"
proof -
  from Run_reachable [OF assms(1,2), of js w world] assms(3) have r: "reachable U numbering_ok s'" by simp
  with reachable_wf [OF r] reachable_dense [OF r] show ?thesis by (simp add: dense_def contiguous_def)
qed

definition sample_looped :: sess where
  "sample_looped = fst (snd (Run sample_json [WorkflowTurn (connect sample_env), WorkflowTurn (connect sample_env)] sample_worker
     (sample_started, ())))"

theorem worker_run_numbered_witness:
  "reachable (e_uuid sample_env) numbering_ok sample_looped \<and>
   map ev_EventType (run_events ''w'' sample_run (tabs (s_store sample_looped))) = [''WorkflowStarted'', ''ActivityScheduled''] \<and>
   map ev_EventID (run_events ''w'' sample_run (tabs (s_store sample_looped))) = [1, 2]"
proof -
  let ?ts = "[WorkflowTurn (connect sample_env), WorkflowTurn (connect sample_env)]"
  let ?r = "Run sample_json ?ts sample_worker (sample_started, ())"
  have t: "map ev_EventType (run_events ''w'' sample_run (tabs (s_store sample_looped))) = [''WorkflowStarted'', ''ActivityScheduled'']"
    by code_simp
  have "length (run_events ''w'' sample_run (tabs (s_store sample_looped))) = 2" by code_simp
  moreover have "[1..2::int] = [1, 2]" by code_simp
  moreover have turns: "connected_turns (e_uuid sample_env) ?ts"
    unfolding connected_turns_def by (intro ballI exI [of _ sample_env]) auto
  have "?r = (fst ?r, sample_looped, snd (snd ?r))" by (simp only: sample_looped_def prod.collapse)
  from worker_run_numbered [OF sample_started_reachable [of numbering_ok] turns this]
  have "reachable (e_uuid sample_env) numbering_ok sample_looped"
    "map ev_EventID (run_events ''w'' sample_run (tabs (s_store sample_looped))) =
       [1..int (length (run_events ''w'' sample_run (tabs (s_store sample_looped))))]" by simp_all
  ultimately show ?thesis using t by simp
qed

section \<open>The counters\<close>

text \<open>
  C13: the metrics of an engine that started with an empty database never
  claim more than the history shows: at any time each counter of workflow, activity, timer and signal outcomes
  is at most the number of events that record the outcome, whatever has failed; and as long as no
  reply to a COMMIT is lost it is exactly that number.
\<close>

theorem counters_match_history:
  assumes "Metrics_New reg = Some (s_metrics s0, reg')" and "s_store s0 = init_store"
    and "(step U ok)\<^sup>*\<^sup>* s0 s"
  shows "counter ty (s_metrics s) \<le> of_type ty (events (tabs (s_store s))) \<and>
    ((\<forall>E s q. ok E s q \<longrightarrow> acknowledged E) \<longrightarrow> counter ty (s_metrics s) = of_type ty (events (tabs (s_store s))))"
  using assms(3)
proof (induction rule: rtranclp_induct)
  case base
  from assms(1) have "s_metrics s0 = zero_metrics" by (simp only: Metrics_New_def option.map_sel map_option_eq_Some prod.inject) metis
  moreover have "counter ty zero_metrics = 0" by (simp add: counter_def zero_metrics_def)
  ultimately show ?case using assms(2) by (simp add: init_store_def)
next
  case (step s1 s2)
  from step.hyps(2) obtain E q where E: "serial E" "ok E s1 q" "s2 = serve q E s1" by (auto elim: stepE)
  from serve_keeps_count [OF E(1), of s1 q] E(3) have k: "keeps_count E s1 s2" by simp
  then have "counter ty (s_metrics s2) + of_type ty (events (tabs (s_store s1))) \<le>
      counter ty (s_metrics s1) + of_type ty (events (tabs (s_store s2)))"
    by (simp add: keeps_count_def behind_def)
  moreover have "counter ty (s_metrics s2) + of_type ty (events (tabs (s_store s1))) =
      counter ty (s_metrics s1) + of_type ty (events (tabs (s_store s2)))" if "acknowledged E"
    using k that by (simp add: keeps_count_def exact_def)
  moreover have "acknowledged E" if "\<forall>E s q. ok E s q \<longrightarrow> acknowledged E" using that E(2) by blast
  ultimately show ?case using step.IH by (intro conjI impI) simp_all
qed

theorem counters_match_history_witness:
  "counter ''WorkflowStarted'' (s_metrics sample_started) = 1 \<and>
   of_type ''WorkflowStarted'' (events (tabs (s_store sample_started))) = 1"
proof -
  have m: "Metrics_New [] = Some (s_metrics sample_init, map fst collectors)"
    by (simp add: Metrics_New_def sample_init_def collectors_def namespace_def)
  have "step (e_uuid sample_env) (\<lambda>E s q. acknowledged E) sample_init sample_started"
    by (rule sample_started_step) (simp add: acknowledged_def sample_env_def)
  from counters_match_history [OF m _ r_into_rtranclp [of "step _ _", OF this], of "''WorkflowStarted''"]
  have "counter ''WorkflowStarted'' (s_metrics sample_started) = of_type ''WorkflowStarted'' (events (tabs (s_store sample_started)))"
    by (simp add: sample_init_def)
  moreover have "of_type ''WorkflowStarted'' (events (tabs (s_store sample_started))) = 1" by code_simp
  ultimately show ?thesis by simp
qed

end
