(* ===== verification/Runs.thy ===== *)
theory Runs
  imports Executions
begin

text \<open>
  What each run keeps for its whole life: its type, which its tasks carry, and the event its history
  starts with.
\<close>

definition run_types :: "tables \<Rightarrow> (string \<times> string \<times> string) set" where
  "run_types T = (\<lambda>x. (we_WorkflowID x, we_RunID x, we_WorkflowType x)) ` set (executions T)"

definition task_type :: "Task \<Rightarrow> string \<times> string \<times> string" where
  "task_type t = (t_WorkflowID t, t_RunID t, t_WorkflowType t)"

definition tasks_typed :: "tables \<Rightarrow> bool" where
  "tasks_typed T \<longleftrightarrow> task_type ` set (tasks T) \<subseteq> run_types T"

definition histories_begin :: "tables \<Rightarrow> bool" where
  "histories_begin T \<longleftrightarrow> (\<forall>x \<in> set (executions T). \<exists>e es.
     run_events (we_WorkflowID x) (we_RunID x) T = e # es \<and> ev_EventType e = ''WorkflowStarted'')"

section \<open>What a commit does to them\<close>

definition commits :: "sess \<Rightarrow> sess \<Rightarrow> bool" where
  "commits s s' \<longleftrightarrow> (\<exists>ws. tabs (s_store s') = apply_log ws (tabs (s_store s)))"

lemma commitsI: "committed ws a b c s s' \<Longrightarrow> commits s s'"
  unfolding committed_def commits_def by blast

lemma request_effect_commits: "request_effect q E s s' \<Longrightarrow> commits s s'"
  by (cases q) (auto simp: effect_defs intro: commitsI split: if_split_asm)

lemma run_types_identity: "run_types T = (\<lambda>(w, u, ty, q, t). (w, u, ty)) ` set (map identity_of (executions T))"
  by (simp add: run_types_def identity_of_def image_image)

lemma run_types_apply_log: "run_types T \<subseteq> run_types (apply_log ws T)"
proof -
  obtain new where "map identity_of (executions (apply_log ws T)) = map identity_of (executions T) @ new"
    using identities_apply_log by blast
  then have "set (map identity_of (executions T)) \<subseteq> set (map identity_of (executions (apply_log ws T)))"
    by (metis set_append Un_upper1)
  then show ?thesis unfolding run_types_identity by (rule image_mono)
qed

lemma task_types_apply_log:
  "task_type ` set (tasks (apply_log ws T)) \<subseteq> task_type ` set (tasks T) \<union> task_type ` set (task_rows ws)"
proof (induction ws arbitrary: T)
  case (Cons w ws)
  have "task_type ` set (tasks (apply_write w T)) \<subseteq> task_type ` set (tasks T) \<union> task_type ` set (task_rows [w])"
    by (cases w) (auto simp: task_type_def release_lease_def)
  moreover have rows: "task_rows (w # ws) = task_rows [w] @ task_rows ws" by simp
  moreover have chain: "A \<subseteq> B' \<union> R \<Longrightarrow> B' \<subseteq> B \<union> R' \<Longrightarrow> A \<subseteq> B \<union> (R' \<union> R)" for A B B' R R' :: "(string \<times> string \<times> string) set"
    by blast
  ultimately show ?case unfolding rows set_append image_Un apply_log_simps(2) using Cons.IH [of "apply_write w T"] by (intro chain)
qed simp

lemma tasks_typed_committed:
  assumes "committed ws a b c s s'" and "tasks_typed (tabs (s_store s))"
    and "task_type ` set (task_rows ws) \<subseteq> run_types (tabs (s_store s'))"
  shows "tasks_typed (tabs (s_store s'))"
proof -
  let ?T = "tabs (s_store s)"
  have T': "tabs (s_store s') = apply_log ws ?T" using assms(1) by (simp add: committed_def)
  have "task_type ` set (tasks ?T) \<subseteq> run_types (apply_log ws ?T)"
    using assms(2) run_types_apply_log [of ?T ws] unfolding tasks_typed_def by (rule subset_trans)
  moreover have "task_type ` set (task_rows ws) \<subseteq> run_types (apply_log ws ?T)" using assms(3) by (simp add: T')
  ultimately show ?thesis unfolding tasks_typed_def T' using task_types_apply_log [of ws ?T] by (meson Un_least subset_trans)
qed

text \<open>The rows of an operation are for the run it found.\<close>

lemma tasks_typed_rows:
  assumes "committed ws a b c s s'" and "tasks_typed (tabs (s_store s))"
    and "task_type ` set (task_rows ws) \<subseteq> run_types (tabs (s_store s))"
  shows "tasks_typed (tabs (s_store s'))"
  using tasks_typed_committed [OF assms(1,2)] assms(1,3) run_types_apply_log [of "tabs (s_store s)" ws]
  by (auto simp: committed_def)

lemma find_execution_type:
  "wf_store U st \<Longrightarrow> find_execution wid u (tabs st) = Some x \<Longrightarrow> (wid, u, we_WorkflowType x) \<in> run_types (tabs st)"
  using wf_execution [of U st wid u x] by (auto simp: run_types_def)

lemma fired_log_task_types:
  assumes "fired_log E (tabs st) now es ts tms ws" and "wf_store (e_uuid E) st"
  shows "task_type ` set (task_rows ws) \<subseteq> run_types (tabs st)"
  using assms
proof (induction tms arbitrary: es ts ws)
  case (Cons t tms)
  from Cons.prems(1) obtain u x vs es' ts' where x: "find_execution (tm_WorkflowID t) u (tabs st) = Some x"
    and f: "fired_log E (tabs st) now es' ts' tms vs"
    and rows: "task_rows ws = task_row E (replay_task x (tm_WorkflowID t) (tm_RunID t)
      (next_event_id (tm_WorkflowID t) u (tabs st))) (ts + 1) u # task_rows vs"
    by (auto simp: Let_def)
  with Cons.IH [OF f Cons.prems(2)] find_execution_type [OF Cons.prems(2) x] show ?case
    by (simp add: task_type_def replay_task_def zero_Task_def)
qed simp

lemma ScanTimers_typed:
  assumes "wf_store (e_uuid E) (s_store s)" and "tasks_typed (tabs (s_store s))" and "ScanTimers_effect E s tms s'"
  shows "tasks_typed (tabs (s_store s'))"
  using assms(3) unfolding ScanTimers_effect_def
  by (elim exE conjE) (rule tasks_typed_rows [OF _ assms(2)], assumption, rule fired_log_task_types [OF _ assms(1)])

lemma CompleteWorkflowTask_typed:
  assumes wf: "wf_store (e_uuid E) (s_store s)" and typed: "tasks_typed (tabs (s_store s))"
    and eff: "CompleteWorkflowTask_effect E s i wid rid cs s'"
  shows "tasks_typed (tabs (s_store s'))"
proof -
  from eff obtain u x where x: "find_execution wid u (tabs (s_store s)) = Some x"
    and "committed [DeleteTask i] 0 0 0 s s' \<or> (\<exists>vs es ts ms n a b c. committed (vs @ [DeleteTask i]) a b c s s' \<and>
      command_log E x wid rid u (begin_now E s) es ts ms n cs vs)"
    unfolding CompleteWorkflowTask_effect_def by (elim exE conjE) (simp split: if_split_asm; blast)
  then obtain ws a b c where c: "committed ws a b c s s'"
    and ws: "ws = [DeleteTask i] \<or> (\<exists>vs es ts ms n. ws = vs @ [DeleteTask i] \<and>
      command_log E x wid rid u (begin_now E s) es ts ms n cs vs)" by blast
  have "task_type t = (wid, u, we_WorkflowType x)" if "t \<in> set (task_rows ws)" for t
  proof -
    from that ws obtain vs es ts ms n where "t \<in> set (task_rows vs)"
      "command_log E x wid rid u (begin_now E s) es ts ms n cs vs" by auto
    with command_log_tables [of E x wid rid u "begin_now E s" es ts ms n cs vs] obtain d where "task_of E x wid u t d"
      by (auto simp: list_all2_conv_all_nth in_set_conv_nth)
    then show ?thesis by (simp add: task_of_def task_type_def)
  qed
  with find_execution_type [OF wf x] tasks_typed_rows [OF c typed] show ?thesis by auto
qed

lemma other_typed:
  assumes wf: "wf_store (e_uuid E) (s_store s)" and typed: "tasks_typed (tabs (s_store s))"
  shows "StartWorkflow_effect E s wid ty queue input rid s' \<Longrightarrow> tasks_typed (tabs (s_store s'))"
    and "CompleteActivityTask_effect E s i wid rid result s' \<Longrightarrow> tasks_typed (tabs (s_store s'))"
    and "find_task i (tabs (s_store s)) = Some t \<Longrightarrow> RetryActivityTask_effect E s i t s' \<Longrightarrow> tasks_typed (tabs (s_store s'))"
    and "ExhaustActivityTask_effect E s i wid rid msg t s' \<Longrightarrow> tasks_typed (tabs (s_store s'))"
    and "SignalWorkflow_effect E s wid rid name input s' \<Longrightarrow> tasks_typed (tabs (s_store s'))"
    and "PollTask_effect E s q tty owner t s' \<Longrightarrow> tasks_typed (tabs (s_store s'))"
    and "committed [ReclaimLeases now] 0 0 0 s s' \<Longrightarrow> tasks_typed (tabs (s_store s'))"
proof -
  note row_defs = new_event_def new_task_def task_type_def zero_Task_def replay_task_def signal_event_def
  show "StartWorkflow_effect E s wid ty queue input rid s' \<Longrightarrow> tasks_typed (tabs (s_store s'))"
    unfolding StartWorkflow_effect_def
    by (elim exE conjE, rule tasks_typed_committed [OF _ typed], assumption)
      (auto simp: row_defs run_types_def committed_def zero_WorkflowExecution_def)
  show "CompleteActivityTask_effect E s i wid rid result s' \<Longrightarrow> tasks_typed (tabs (s_store s'))"
    unfolding CompleteActivityTask_effect_def
  proof (elim exE conjE)
    fix t x u v
    assume x: "find_execution wid u (tabs (s_store s)) = Some x" and v: "e_uuid E (we_RunID x) = Some v"
      and c: "committed [new_event E s u (zero_Event\<lparr>ev_WorkflowID := wid, ev_RunID := rid,
            ev_EventID := next_event_id wid u (tabs (s_store s)), ev_EventType := ''ActivityCompleted'',
            ev_ActivityName := t_ActivityName t, ev_ActivityIndex := t_ActivityIndex t, ev_Data := result\<rparr>), DeleteTask i,
          new_task E s v (replay_task x (we_WorkflowID x) (we_RunID x) (next_event_id wid u (tabs (s_store s))))] 1 1 0 s s'"
    from wf_execution_keys [OF wf x] v have "we_WorkflowID x = wid" "v = u" by auto
    with find_execution_type [OF wf x] show "tasks_typed (tabs (s_store s'))"
      by (intro tasks_typed_rows [OF c typed]) (simp add: row_defs)
  qed
  show "find_task i (tabs (s_store s)) = Some t \<Longrightarrow> RetryActivityTask_effect E s i t s' \<Longrightarrow> tasks_typed (tabs (s_store s'))"
  proof -
    assume t: "find_task i (tabs (s_store s)) = Some t" and eff: "RetryActivityTask_effect E s i t s'"
    have "task_type t \<in> run_types (tabs (s_store s))" using typed wf_task(4) [OF wf t] by (auto simp: tasks_typed_def)
    moreover have "e_uuid E (t_RunID t) = Some (t_RunID t)" using wf_task(5) [OF wf t] .
    ultimately show "tasks_typed (tabs (s_store s'))" using eff unfolding RetryActivityTask_effect_def
      by (elim exE conjE) (rule tasks_typed_rows [OF _ typed], assumption, simp add: row_defs)
  qed
  show "ExhaustActivityTask_effect E s i wid rid msg t s' \<Longrightarrow> tasks_typed (tabs (s_store s'))"
    unfolding ExhaustActivityTask_effect_def
    by (elim exE conjE, rule tasks_typed_rows [OF _ typed], assumption)
      (auto simp: row_defs dest: find_execution_type [OF wf])
  show "SignalWorkflow_effect E s wid rid name input s' \<Longrightarrow> tasks_typed (tabs (s_store s'))"
    unfolding SignalWorkflow_effect_def
  proof (elim exE conjE)
    fix u x now
    assume x: "find_execution wid u (tabs (s_store s)) = Some x"
      and c: "if has_workflow_task wid u (tabs (s_store s))
        then committed [signal_event s wid rid name input u now] 1 0 0 s s'
        else committed [signal_event s wid rid name input u now,
               InsertTaskRow (wakeup_row (replay_task x wid rid (next_event_id wid u (tabs (s_store s))))
                  (task_seq (s_store s) + 1) u now)] 1 1 0 s s'"
    from c show "tasks_typed (tabs (s_store s'))"
      by (split if_split_asm) (erule tasks_typed_rows [OF _ typed], simp add: row_defs find_execution_type [OF wf x])+
  qed
  show "PollTask_effect E s q tty owner t s' \<Longrightarrow> tasks_typed (tabs (s_store s'))"
    unfolding PollTask_effect_def by (elim exE conjE, erule tasks_typed_rows [OF _ typed]) simp
  show "committed [ReclaimLeases now] 0 0 0 s s' \<Longrightarrow> tasks_typed (tabs (s_store s'))"
    by (erule tasks_typed_rows [OF _ typed]) simp
qed

section \<open>The invariants\<close>

lemma histories_begin_append:
  assumes "histories_begin T" and "events T' = events T @ new" and "run_keys T' = run_keys T"
  shows "histories_begin T'"
  unfolding histories_begin_def
proof
  fix x assume "x \<in> set (executions T')"
  then have "run_key x \<in> run_keys T'" unfolding run_keys_def by (rule imageI)
  then have "run_key x \<in> run_keys T" by (simp only: assms(3))
  then obtain y where y: "y \<in> set (executions T)" "run_key y = run_key x" unfolding run_keys_def by fastforce
  then have "we_WorkflowID y = we_WorkflowID x" "we_RunID y = we_RunID x" by (simp_all add: run_key_def)
  with assms(1) y(1) obtain e es where
    "run_events (we_WorkflowID x) (we_RunID x) T = e # es" "ev_EventType e = ''WorkflowStarted''"
    unfolding histories_begin_def by metis
  then show "\<exists>e es. run_events (we_WorkflowID x) (we_RunID x) T' = e # es \<and> ev_EventType e = ''WorkflowStarted''"
    by (simp add: run_events_def assms(2))
qed

lemma StartWorkflow_begins:
  assumes wf: "wf_store U (s_store s)" and b: "histories_begin (tabs (s_store s))"
    and eff: "StartWorkflow_effect E s wid ty queue input rid s'"
  shows "histories_begin (tabs (s_store s'))"
proof -
  let ?T = "tabs (s_store s)"
  from StartWorkflow_rows [OF eff] obtain u e x where none: "find_execution wid u ?T = None"
    and ev: "events (tabs (s_store s')) = events ?T @ [e]" "is_event_of wid u e" "ev_EventType e = ''WorkflowStarted''"
    and ex: "executions (tabs (s_store s')) = executions ?T @ [x]" "we_WorkflowID x = wid" "we_RunID x = u"
    by auto
  from none have fresh: "\<forall>x \<in> set (executions ?T). \<not> is_execution wid u x"
    by (simp add: find_execution_def)
  have "run_events wid u ?T = []"
    using wf fresh by (fastforce simp: run_events_def filter_empty_conv is_event_of_def wf_store_def wf_tables_def
        run_keys_def run_key_def is_execution_def)
  with ev have new: "run_events wid u (tabs (s_store s')) = [e]" by (simp add: run_events_def)
  have old: "run_events (we_WorkflowID y) (we_RunID y) (tabs (s_store s')) = run_events (we_WorkflowID y) (we_RunID y) ?T"
    if "y \<in> set (executions ?T)" for y
  proof -
    have "\<not> is_event_of (we_WorkflowID y) (we_RunID y) e" using that fresh ev(2) by (auto simp: is_event_of_def is_execution_def)
    then show ?thesis by (simp add: run_events_def ev(1))
  qed
  from b have "\<exists>f es. run_events (we_WorkflowID y) (we_RunID y) (tabs (s_store s')) = f # es \<and> ev_EventType f = ''WorkflowStarted''"
    if "y \<in> set (executions ?T)" for y using that old [OF that] by (simp add: histories_begin_def)
  with new ev(3) show ?thesis by (simp add: histories_begin_def ex)
qed

lemma request_begins:
  assumes wf: "wf_store (e_uuid E) (s_store s)" and b: "histories_begin (tabs (s_store s))" and eff: "request_effect q E s s'"
  shows "histories_begin (tabs (s_store s'))"
proof (cases "\<exists>req. q = RStart req")
  case True
  with eff StartWorkflow_begins [OF wf b] show ?thesis by auto
next
  case False
  from request_effect_commits [OF eff] obtain new where "events (tabs (s_store s')) = events (tabs (s_store s)) @ new"
    by (auto simp: commits_def events_apply_log)
  moreover have "closes (executions (tabs (s_store s))) (executions (tabs (s_store s')))"
    using request_closes [OF wf eff] False by blast
  then have "map run_key (executions (tabs (s_store s'))) = map run_key (executions (tabs (s_store s)))"
    unfolding closes_def by (induction rule: list_all2_induct) (auto simp: identity_of_def run_key_def)
  then have "run_keys (tabs (s_store s')) = run_keys (tabs (s_store s))" by (metis run_keys_def list.set_map)
  ultimately show ?thesis by (rule histories_begin_append [OF b])
qed

lemma request_typed:
  assumes "wf_store (e_uuid E) (s_store s)" and "tasks_typed (tabs (s_store s))" and "request_effect q E s s'"
  shows "tasks_typed (tabs (s_store s'))"
  using assms(3)
  by (cases q) (auto intro: other_typed [OF assms(1,2)] CompleteWorkflowTask_typed [OF assms(1,2)]
      ScanTimers_typed [OF assms(1,2)] split: if_split_asm)

interpretation runs: request_invariant "\<lambda>_ _ _. True" "\<lambda>T. tasks_typed T \<and> histories_begin T"
proof
  show "tasks_typed (tabs init_store) \<and> histories_begin (tabs init_store)"
    by (simp add: tasks_typed_def histories_begin_def init_store_def)
qed (use request_begins request_typed in blast)

end
