(* ===== verification/Outcomes.thy ===== *)
theory Outcomes
  imports Cluster Direct Runs FrontendProperties
begin

text \<open>
  How the runs of a cluster end: every execution that is closed was closed by the answer of a worker, and
  the answer was the end of the workflow function over a part of the run's history. With the
  transparency of replay (\<open>Direct\<close>) the run has ended as the function would have, run straight through.
\<close>

definition history_of :: "string \<Rightarrow> string \<Rightarrow> sess \<Rightarrow> HistoryEvent list" where
  "history_of wid u s = marshalEvents (run_events wid u (tabs (s_store s)))"

definition begins :: "HistoryEvent list \<Rightarrow> bool" where
  "begins h \<longleftrightarrow> (\<exists>e es. h = e # es \<and> he_EventType e = ''WorkflowStarted'')"

definition end_status :: "string option \<Rightarrow> string" where
  "end_status err = (if err = None then ''Completed'' else ''Failed'')"

text \<open>\<open>F\<close> are the workflow functions by their types.\<close>

definition ends_as :: "'v json \<Rightarrow> (string \<Rightarrow> 'v workflow_fn option) \<Rightarrow> string \<Rightarrow> HistoryEvent list \<Rightarrow> string \<Rightarrow> bool" where
  "ends_as js F ty h st \<longleftrightarrow> (\<exists>zero body v q err. F ty = Some (zero, body) \<and> decode_input js (started_input h) zero = Inr v \<and>
     fst (replay js (body v) (New h q)) = Returned err \<and> st = end_status err)"

definition outcomes_ok :: "'v json \<Rightarrow> (string \<Rightarrow> 'v workflow_fn option) \<Rightarrow> sess \<Rightarrow> bool" where
  "outcomes_ok js F s \<longleftrightarrow> (\<forall>x \<in> set (executions (tabs (s_store s))). we_Status x \<noteq> ''Running'' \<longrightarrow>
     (\<exists>h rest. history_of (we_WorkflowID x) (we_RunID x) s = h @ rest \<and> begins h \<and>
        ends_as js F (we_WorkflowType x) h (we_Status x)))"

definition holds_history :: "sess \<Rightarrow> PollWorkflowTaskResponse \<Rightarrow> bool" where
  "holds_history s resp \<longleftrightarrow> (pwr_WorkflowId resp, pwr_RunId resp, pwr_WorkflowType resp) \<in> run_types (tabs (s_store s)) \<and>
     begins (pwr_History resp) \<and> (\<exists>rest. history_of (pwr_WorkflowId resp) (pwr_RunId resp) s = pwr_History resp @ rest)"

section \<open>What a step of the engine keeps\<close>

lemma history_of_step: "engine_step E s s' \<Longrightarrow> \<exists>new. history_of wid u s' = history_of wid u s @ new"
  by (drule engine_step_events) (auto simp: history_of_def run_events_def)

lemma run_types_step:
  assumes "engine_step E s s'"
  shows "run_types (tabs (s_store s)) \<subseteq> run_types (tabs (s_store s'))"
proof -
  obtain new where "map identity_of (executions (tabs (s_store s'))) = map identity_of (executions (tabs (s_store s))) @ new"
    using engine_step_executions [OF assms] by blast
  then have "set (map identity_of (executions (tabs (s_store s)))) \<subseteq> set (map identity_of (executions (tabs (s_store s'))))"
    by (metis set_append Un_upper1)
  then show ?thesis unfolding run_types_identity by (rule image_mono)
qed

lemma holds_history_step:
  assumes "engine_step E s s'" and "holds_history s resp"
  shows "holds_history s' resp"
  using history_of_step [OF assms(1), of "pwr_WorkflowId resp" "pwr_RunId resp"] run_types_step [OF assms(1)] assms(2)
  unfolding holds_history_def by fastforce

lemma outcomes_ok_step:
  assumes "engine_step E s s'" and "outcomes_ok js F s"
    and "\<And>x. x \<in> set (executions (tabs (s_store s'))) \<Longrightarrow> we_Status x \<noteq> ''Running'' \<Longrightarrow>
      x \<in> set (executions (tabs (s_store s))) \<or> (\<exists>h rest. history_of (we_WorkflowID x) (we_RunID x) s = h @ rest \<and>
        begins h \<and> ends_as js F (we_WorkflowType x) h (we_Status x))"
  shows "outcomes_ok js F s'"
  unfolding outcomes_ok_def
proof (intro ballI impI)
  fix x assume x: "x \<in> set (executions (tabs (s_store s')))" "we_Status x \<noteq> ''Running''"
  from assms(3) [OF x] assms(2) x(2) obtain h rest where "history_of (we_WorkflowID x) (we_RunID x) s = h @ rest" "begins h"
    "ends_as js F (we_WorkflowType x) h (we_Status x)" unfolding outcomes_ok_def by blast
  moreover obtain new where "history_of (we_WorkflowID x) (we_RunID x) s' = history_of (we_WorkflowID x) (we_RunID x) s @ new"
    using history_of_step [OF assms(1)] by blast
  ultimately show "\<exists>h rest. history_of (we_WorkflowID x) (we_RunID x) s' = h @ rest \<and> begins h \<and>
      ends_as js F (we_WorkflowType x) h (we_Status x)" by (metis append.assoc)
qed

section \<open>Only an answer closes an execution\<close>

lemma request_keeps_closed:
  assumes "wf_store (e_uuid E) (s_store s)" and "request_effect q E s s'" and "\<forall>req. q \<noteq> RRespondWorkflow req"
    and "x \<in> set (executions (tabs (s_store s')))" and "we_Status x \<noteq> ''Running''"
  shows "x \<in> set (executions (tabs (s_store s)))"
proof (cases "\<exists>req. q = RStart req")
  case True
  with assms(2,4,5) show ?thesis by (auto dest!: StartWorkflow_rows)
next
  case False
  with assms show ?thesis by (cases q) (auto simp: other_executions ScanTimers_executions split: if_split_asm)
qed

lemma worker_outcome:
  assumes "executeWorkflowTask js w resp = Respond req"
  shows "\<exists>zero body v out. wk_workflowFunctions w (pwr_WorkflowType resp) = Some (zero, body) \<and>
    decode_input js (started_input (pwr_History resp)) zero = Inr v \<and>
    fst (replay js (body v) (New (pwr_History resp) (wk_queue w))) = out \<and>
    map terminal_status (filter terminal_command (unmarshalCommands (rwq_Commands req))) =
      (case out of Returned err \<Rightarrow> [end_status err] | _ \<Rightarrow> [])"
proof -
  from assms obtain zero body v out c where f: "wk_workflowFunctions w (pwr_WorkflowType resp) = Some (zero, body)"
    and d: "decode_input js (started_input (pwr_History resp)) zero = Inr v"
    and r: "replay js (body v) (New (pwr_History resp) (wk_queue w)) = (out, c)"
    unfolding executeWorkflowTask_def by (auto simp: Let_def split: option.splits sum.splits prod.splits)
  have "filter terminal_command (unmarshalCommands (Commands c)) = []"
    using unmarshal_nonterminal [OF replay_command_types [OF r]] by (simp add: filter_empty_conv)
  with assms f d r have "map terminal_status (filter terminal_command (unmarshalCommands (rwq_Commands req))) =
      (case out of Returned err \<Rightarrow> [end_status err] | _ \<Rightarrow> [])"
    by (cases out) (auto simp: executeWorkflowTask_def Let_def unmarshalCommands_def zero_pbCommand_def terminal_command_def
        terminal_status_def end_status_def split: option.splits)
  with f d r show ?thesis by (intro exI [of _ zero] exI [of _ body] exI [of _ v] exI [of _ out]) simp
qed

lemma answer_closes:
  assumes wf: "wf_store (e_uuid E) (s_store s)" and eff: "CompleteWorkflowTask_effect E s i wid u cs s'"
    and u: "e_uuid E u = Some u" and st: "set (map terminal_status (filter terminal_command cs)) \<subseteq> {st}"
    and x: "x \<in> set (executions (tabs (s_store s')))" "x \<notin> set (executions (tabs (s_store s)))"
  shows "we_WorkflowID x = wid \<and> we_RunID x = u \<and> we_Status x = st \<and> filter terminal_command cs \<noteq> [] \<and>
    (we_WorkflowID x, we_RunID x, we_WorkflowType x) \<in> run_types (tabs (s_store s))"
proof -
  let ?xs = "executions (tabs (s_store s))" and ?sts = "map terminal_status (filter terminal_command cs)"
  from eff u have "executions (tabs (s_store s')) = ?xs \<or>
      (\<exists>now. executions (tabs (s_store s')) = fold (close_execution wid u now) ?sts ?xs)"
    unfolding CompleteWorkflowTask_effect_def committed_def
    by (auto split: if_split_asm dest!: command_log_tables)
  with x obtain now where ex: "executions (tabs (s_store s')) = fold (close_execution wid u now) ?sts ?xs" by auto
  have "\<forall>y \<in> set (fold (close_execution wid u now) sts ys). y \<in> set ys \<or> is_execution wid u y \<and> we_Status y = st \<and> sts \<noteq> [] \<and>
      (\<exists>z \<in> set ys. identity_of y = identity_of z)" if "set sts \<subseteq> {st}" for sts ys
    using that
  proof (induction sts arbitrary: ys)
    case (Cons a sts)
    have one: "y \<in> set ys \<or> is_execution wid u y \<and> we_Status y = st \<and> (\<exists>z \<in> set ys. identity_of y = identity_of z)"
      if "y \<in> set (close_execution wid u now a ys)" for y
      using that Cons.prems by (auto simp: close_execution_def set_status_def is_execution_def identity_of_def)
    show ?case
    proof
      fix y assume "y \<in> set (fold (close_execution wid u now) (a # sts) ys)"
      with Cons.IH [of "close_execution wid u now a ys"] Cons.prems one
      show "y \<in> set ys \<or> is_execution wid u y \<and> we_Status y = st \<and> a # sts \<noteq> [] \<and> (\<exists>z \<in> set ys. identity_of y = identity_of z)"
        by (metis fold_simps(2) insert_subset list.discI list.simps(15))
    qed
  qed simp
  from this [OF st, of ?xs] x [unfolded ex] obtain z where "is_execution wid u x" "we_Status x = st" "?sts \<noteq> []"
    "z \<in> set ?xs" "identity_of x = identity_of z" by blast
  then show ?thesis by (auto simp: is_execution_def run_types_def identity_of_def image_iff)
qed

lemma serve_keeps_closed:
  assumes "link U E" and "reachable U ok s" and "\<forall>req. q \<noteq> RRespondWorkflow req"
    and "outcomes_ok js F s"
  shows "outcomes_ok js F (serve q E s)"
proof (rule outcomes_ok_step [OF _ assms(4)])
  have E: "serial E" "uuid_ok E" "wf_store (e_uuid E) (s_store s)"
    using assms(1) reachable_wf [OF assms(2)] by (auto simp: link_def)
  show "engine_step E s (serve q E s)" by (rule serve_step [OF E])
  fix x assume x: "x \<in> set (executions (tabs (s_store (serve q E s))))" "we_Status x \<noteq> ''Running''"
  from serve_served [OF E(1), of q s] have "x \<in> set (executions (tabs (s_store s)))"
    unfolding served_def using request_keeps_closed [OF E(3) _ assms(3) x] x(1) by (auto simp del: serve.simps)
  then show "x \<in> set (executions (tabs (s_store s))) \<or> (\<exists>h rest. history_of (we_WorkflowID x) (we_RunID x) s = h @ rest \<and>
        begins h \<and> ends_as js F (we_WorkflowType x) h (we_Status x))" ..
qed

lemma run_types_unique:
  assumes "wf_store U st" and "(w, u, ty) \<in> run_types (tabs st)" and "(w, u, ty') \<in> run_types (tabs st)"
  shows "ty = ty'" and "U u = Some u"
proof -
  from assms(2,3) obtain x y where x: "x \<in> set (executions (tabs st))" "run_key x = (w, u)" "we_WorkflowType x = ty" "we_RunID x = u"
    and y: "y \<in> set (executions (tabs st))" "run_key y = (w, u)" "we_WorkflowType y = ty'"
    by (auto simp: run_types_def run_key_def)
  from assms(1) have "distinct (map run_key (executions (tabs st)))" by (simp add: wf_store_def wf_tables_def)
  from distinct_map_eqD [OF this x(1) y(1)] x y show "ty = ty'" by simp
  from assms(1) x(1,4) show "U u = Some u" by (auto simp: wf_store_def wf_tables_def execution_ok_def)
qed

lemma serve_answer_outcomes:
  assumes "link U E" and "reachable U ok s" and "outcomes_ok js F s"
    and held: "holds_history s resp" "wk_workflowFunctions w = F" and "executeWorkflowTask js w resp = Respond req"
  shows "outcomes_ok js F (serve (RRespondWorkflow req) E s)"
proof (rule outcomes_ok_step [OF _ assms(3)])
  let ?s' = "serve (RRespondWorkflow req) E s" and ?cs = "unmarshalCommands (rwq_Commands req)"
  have E: "serial E" "uuid_ok E" "wf_store (e_uuid E) (s_store s)" and U: "e_uuid E = U"
    using assms(1) reachable_wf [OF assms(2)] by (auto simp: link_def)
  show "engine_step E s ?s'" by (rule serve_step [OF E])
  fix x assume x: "x \<in> set (executions (tabs (s_store ?s')))" "we_Status x \<noteq> ''Running''"
  show "x \<in> set (executions (tabs (s_store s))) \<or> (\<exists>h rest. history_of (we_WorkflowID x) (we_RunID x) s = h @ rest \<and>
        begins h \<and> ends_as js F (we_WorkflowType x) h (we_Status x))"
  proof (cases "x \<in> set (executions (tabs (s_store s)))")
    case new: False
    have ids: "rwq_WorkflowId req = pwr_WorkflowId resp" "rwq_RunId req = pwr_RunId resp"
      using executeWorkflowTask_Respond [OF assms(6)] by metis+
    from serve_served [OF E(1), of "RRespondWorkflow req" s] new x(1) have eff: "CompleteWorkflowTask_effect E s (rwq_TaskId req)
        (pwr_WorkflowId resp) (pwr_RunId resp) ?cs ?s'"
      unfolding served_def ids [symmetric] by (auto simp del: serve.simps)
    have run: "(pwr_WorkflowId resp, pwr_RunId resp, pwr_WorkflowType resp) \<in> run_types (tabs (s_store s))"
      using held(1) by (simp add: holds_history_def)
    note u = run_types_unique(2) [OF E(3) run run]
    from worker_outcome [OF assms(6)] held(2) obtain zero body v out where
      f: "F (pwr_WorkflowType resp) = Some (zero, body)" and d: "decode_input js (started_input (pwr_History resp)) zero = Inr v"
      and r: "fst (replay js (body v) (New (pwr_History resp) (wk_queue w))) = out"
      and cs: "map terminal_status (filter terminal_command ?cs) = (case out of Returned err \<Rightarrow> [end_status err] | _ \<Rightarrow> [])"
      by blast
    have "set (map terminal_status (filter terminal_command ?cs)) \<subseteq> {case out of Returned err \<Rightarrow> end_status err | _ \<Rightarrow> []}"
      unfolding cs by (cases out) auto
    from answer_closes [OF E(3) eff u this x(1) new] have
      key: "we_WorkflowID x = pwr_WorkflowId resp" "we_RunID x = pwr_RunId resp"
      and st: "we_Status x = (case out of Returned err \<Rightarrow> end_status err | _ \<Rightarrow> [])" "filter terminal_command ?cs \<noteq> []"
      and ty: "(we_WorkflowID x, we_RunID x, we_WorkflowType x) \<in> run_types (tabs (s_store s))" by blast+
    from ty run_types_unique(1) [OF E(3) run] have type: "we_WorkflowType x = pwr_WorkflowType resp" by (simp add: key)
    from st(2) cs obtain err where out: "out = Returned err" by (cases out) auto
    have "ends_as js F (we_WorkflowType x) (pwr_History resp) (we_Status x)"
      unfolding ends_as_def type using f d r st(1) out by auto
    with held(1) show ?thesis unfolding holds_history_def key by blast
  qed simp
qed

text \<open>A poll hands out the whole history of the run.\<close>

lemma Client_PollWorkflowTask_history:
  assumes "link U E" and "reachable U ok s" and "reachable U ok s'" and dense: "dense (tabs (s_store s'))"
    and p: "Client_PollWorkflowTask (connect E) queue owner s = (Inr r, s')" and "pwr_TaskId r \<noteq> 0"
  shows "holds_history s' r"
proof -
  let ?req = "\<lparr>pwq_TaskQueue = queue, pwq_LeaseOwner = owner\<rparr>"
  have E: "serial E" "uuid_ok E" "wf_store (e_uuid E) (s_store s)"
    using assms(1) reachable_wf [OF assms(2)] by (auto simp: link_def)
  have "r \<noteq> zero_PollWorkflowTaskResponse" using assms(6) by (auto simp: zero_PollWorkflowTaskResponse_def)
  with p call_Inr have h: "Handler_PollWorkflowTask ?req E s = (Inr (Some r, None), s')"
    by (force simp: Client_PollWorkflowTask_def connect_def)
  obtain x s0 where poll: "PollTask queue ''workflow'' owner E s = (x, s0)" by fastforce
  from h Handler_PollWorkflowTask_run [of ?req E s x s0] poll assms(6) obtain t evs where x: "x = Inr (Some t)"
    and g: "GetEvents (t_WorkflowID t) (t_RunID t) E (counted_poll ''workflow'' ''hit'' s0) = (Inr evs, s')"
    and r: "r = task_response t evs"
    by (auto simp: zero_PollWorkflowTaskResponse_def simp del: toStatus.simps split: sum.splits option.splits prod.splits)
  from polled_row [OF E(1) poll [unfolded x]] have t: "t \<in> set (tasks (tabs (s_store s)))" by blast
  have u: "e_uuid E (t_RunID t) = Some (t_RunID t)" by (rule wf_run_uuid [OF E(3) t])
  note read = GetEvents_read [OF E(1) g]
  have evs: "evs = run_events (t_WorkflowID t) (t_RunID t) (tabs (s_store s'))"
    using read(3) [OF refl] u read(1) select_events_dense [OF dense] by auto
  have st: "engine_step E s s'" using serve_step [OF E, of "RPollWorkflow ?req"] h by simp
  have "(t_WorkflowID t, t_RunID t, t_WorkflowType t) \<in> run_types (tabs (s_store s))"
    using runs.inv_reachable [OF assms(2)] t by (auto simp: tasks_typed_def task_type_def)
  with run_types_step [OF st] have run: "(t_WorkflowID t, t_RunID t, t_WorkflowType t) \<in> run_types (tabs (s_store s'))" by blast
  with runs.inv_reachable [OF assms(3)] obtain e es where
    "run_events (t_WorkflowID t) (t_RunID t) (tabs (s_store s')) = e # es" "ev_EventType e = ''WorkflowStarted''"
    by (fastforce simp: run_types_def histories_begin_def)
  with run show ?thesis by (simp add: holds_history_def r task_response_def evs history_of_def begins_def marshalEvents_def)
qed

section \<open>The cluster\<close>

definition outcome_inv :: "'v json \<Rightarrow> (string \<Rightarrow> 'v workflow_fn option) \<Rightarrow> ('v, 'w) cluster \<Rightarrow> bool" where
  "outcome_inv js F c \<longleftrightarrow> outcomes_ok js F (cl_engine c) \<and>
     (\<forall>(w, resp) \<in> cl_workflow c. wk_workflowFunctions w = F \<and> holds_history (cl_engine c) resp)"

lemma outcome_inv_serve:
  assumes "cluster_inv U T c" and "link U E" and "outcome_inv js F c" and "outcomes_ok js F (serve q E (cl_engine c))"
    and "cl_engine c' = serve q E (cl_engine c)"
    and "\<And>w resp. (w, resp) \<in> cl_workflow c' \<Longrightarrow> (w, resp) \<in> cl_workflow c \<or>
      wk_workflowFunctions w = F \<and> holds_history (cl_engine c') resp"
  shows "outcome_inv js F c'"
proof -
  have E: "serial E" "uuid_ok E" "wf_store (e_uuid E) (s_store (cl_engine c))"
    using assms(1,2) reachable_wf by (auto simp: link_def cluster_inv_def)
  have st: "engine_step E (cl_engine c) (cl_engine c')" unfolding assms(5) by (rule serve_step [OF E])
  have "wk_workflowFunctions w = F \<and> holds_history (cl_engine c') resp" if "(w, resp) \<in> cl_workflow c'" for w resp
    using assms(6) [OF that]
  proof
    assume "(w, resp) \<in> cl_workflow c"
    with assms(3) have "wk_workflowFunctions w = F" "holds_history (cl_engine c) resp" by (auto simp: outcome_inv_def)
    with holds_history_step [OF st] show ?thesis by simp
  qed
  moreover have "outcomes_ok js F (cl_engine c')" using assms(4) by (simp only: assms(5))
  ultimately show ?thesis unfolding outcome_inv_def by (intro conjI ballI) auto
qed

lemma report_kept:
  assumes "cluster_inv U T c" and "link U E" and "outcome_inv js F c" and "(w, resp) \<in> cl_activity c"
  shows "outcome_inv js F (c\<lparr>cl_engine := report (connect E) resp act (cl_engine c)\<rparr>)"
proof -
  have r: "reachable U (cluster_ok T) (cl_engine c)" using assms(1) by (simp add: cluster_inv_def)
  have o: "outcomes_ok js F (cl_engine c)" using assms(3) by (simp add: outcome_inv_def)
  note step = outcome_inv_serve [OF assms(1-3) serve_keeps_closed [OF assms(2) r _ o]]
  show ?thesis
  proof (cases act)
    case (reportActivitySuccess result)
    then show ?thesis
      by (intro step [of "RRespondActivity \<lparr>rcq_TaskId = par_TaskId resp, rcq_WorkflowId = par_WorkflowId resp,
          rcq_RunId = par_RunId resp, rcq_Result = Some result\<rparr>"])
        (simp_all add: Client_RespondActivityTaskCompleted_def connect_serves del: serve.simps)
  next
    case (reportActivityFailure errMsg)
    then show ?thesis
      by (intro step [of "RFailActivity \<lparr>rfq_TaskId = par_TaskId resp, rfq_WorkflowId = par_WorkflowId resp,
          rfq_RunId = par_RunId resp, rfq_Error = errMsg\<rparr>"])
        (simp_all add: Client_RespondActivityTaskFailed_def connect_serves del: serve.simps)
  qed (use assms(3) in simp_all)
qed

lemma cluster_step_outcome:
  assumes "cluster_step U js T K c c'" and inv: "cluster_inv U T c" and o: "outcome_inv js F c"
    and due: "\<And>E s. T E s \<Longrightarrow> single_due E s" and F: "\<And>w. K w \<Longrightarrow> wk_workflowFunctions w = F"
  shows "outcome_inv js F c'"
proof -
  have r: "reachable U (cluster_ok T) (cl_engine c)" using inv by (simp add: cluster_inv_def)
  have r': "reachable U (cluster_ok T) (cl_engine c')" using cluster_step_inv [OF assms(1) inv] by (simp add: cluster_inv_def)
  have dense: "dense (tabs (s_store (cl_engine c')))" by (rule reachable_dense [OF r']) (use due cluster_numbering in blast)
  have ok: "outcomes_ok js F (cl_engine c)" using o by (simp add: outcome_inv_def)
  from assms(1) show ?thesis
  proof (cases rule: cluster_step.cases)
    case (client E q)
    then have "\<forall>req. q \<noteq> RRespondWorkflow req" by auto
    then show ?thesis unfolding client(1)
      by (intro outcome_inv_serve [OF inv client(2) o serve_keeps_closed [OF client(2) r _ ok], of q]) (simp_all del: serve.simps)
  next
    case (poll_workflow E w res s' W)
    let ?q = "\<lparr>pwq_TaskQueue = wk_queue w, pwq_LeaseOwner = wk_id w\<rparr>"
    have s': "s' = serve (RPollWorkflow ?q) E (cl_engine c)"
      using poll_workflow(4) connect_serves(1) [of E ?q "cl_engine c"] by (simp add: Client_PollWorkflowTask_def)
    have "holds_history s' resp" if "res = Inr resp" "pwr_TaskId resp \<noteq> 0" for resp
      using Client_PollWorkflowTask_history [OF poll_workflow(2) r] r' dense poll_workflow(1,4) that by simp
    with F [OF poll_workflow(3)] poll_workflow(5) have "wk_workflowFunctions v = F \<and> holds_history s' resp"
      if "(v, resp) \<in> W" for v resp using that by (auto split: sum.splits if_splits)
    then show ?thesis unfolding poll_workflow(1)
      by (intro outcome_inv_serve [OF inv poll_workflow(2) o serve_keeps_closed [OF poll_workflow(2) r _ ok], of "RPollWorkflow ?q"])
        (auto simp: s' simp del: serve.simps)
  next
    case (poll_activity E w res s' A)
    let ?q = "\<lparr>paq_TaskQueue = wk_queue w, paq_LeaseOwner = wk_id w\<rparr>"
    have s': "s' = serve (RPollActivity ?q) E (cl_engine c)"
      using poll_activity(4) connect_serves(3) [of E ?q "cl_engine c"] by (simp add: Client_PollActivityTask_def)
    show ?thesis unfolding poll_activity(1)
      by (intro outcome_inv_serve [OF inv poll_activity(2) o serve_keeps_closed [OF poll_activity(2) r _ ok], of "RPollActivity ?q"])
        (auto simp: s' simp del: serve.simps)
  next
    case (answer_workflow E w resp req res s')
    have s': "s' = serve (RRespondWorkflow req) E (cl_engine c)"
      using answer_workflow(5) connect_serves(2) [of E req "cl_engine c"] by simp
    have h: "holds_history (cl_engine c) resp" "wk_workflowFunctions w = F"
      using o answer_workflow(3) by (auto simp: outcome_inv_def)
    show ?thesis unfolding answer_workflow(1)
      by (intro outcome_inv_serve [OF inv answer_workflow(2) o serve_answer_outcomes [OF answer_workflow(2) r ok h answer_workflow(4)]])
        (simp_all add: s' del: serve.simps)
  next
    case (report_activity E w resp world act world')
    from report_kept [OF inv report_activity(2) o report_activity(3)] report_activity(1) show ?thesis by simp
  next
    case crash
    with o show ?thesis
      by (auto simp: outcome_inv_def outcomes_ok_def holds_history_def history_of_def)
  qed
qed

lemma cluster_outcomes:
  assumes "cluster_reachable U js T K c"
    and due: "\<And>E s. T E s \<Longrightarrow> single_due E s" and F: "\<And>w. K w \<Longrightarrow> wk_workflowFunctions w = F"
  shows "outcome_inv js F c"
  using assms(1)
proof (induction rule: cluster_reachable.induct)
  case (start s)
  then show ?case by (simp add: outcome_inv_def outcomes_ok_def init_store_def)
next
  case (go_on c c')
  from cluster_step_outcome [OF go_on.hyps(2) cluster_invariant [OF go_on.hyps(1)] go_on.IH due F] show ?case .
qed

section \<open>The straight run\<close>

lemma available_append: "available h n \<Longrightarrow> available (h @ rest) n"
  by (cases n) auto

lemma started_input_append: "begins h \<Longrightarrow> started_input (h @ rest) = started_input h"
  by (auto simp: begins_def started_input_def)

lemma ends_as_straight:
  assumes "ends_as js F ty h st" and "begins h" and "H = h @ rest"
  shows "\<exists>zero body v err. F ty = Some (zero, body) \<and> decode_input js (started_input H) zero = Inr v \<and>
    list_all (available H) (needs (recorded_world js H) (body v) 0 0 (\<lambda>_. 0)) \<and>
    direct (recorded_world js H) (body v) 0 (\<lambda>_. 0) = Returned err \<and> st = end_status err"
proof -
  from assms(1) obtain zero body v q err where f: "F ty = Some (zero, body)" "decode_input js (started_input h) zero = Inr v"
    and r: "fst (replay js (body v) (New h q)) = Returned err" and st: "st = end_status err"
    unfolding ends_as_def by blast
  from r replay_transparent [of "New h q" h js rest "body v"] have
    "list_all (available h) (needs (recorded_world js H) (body v) 0 0 (\<lambda>_. 0))"
    "direct (recorded_world js H) (body v) 0 (\<lambda>_. 0) = Returned err"
    unfolding assms(3) by (auto simp: transparent_def New_def split: if_split_asm)
  moreover from this(1) have "list_all (available H) (needs (recorded_world js H) (body v) 0 0 (\<lambda>_. 0))"
    unfolding assms(3) by (auto simp: list_all_iff available_append)
  ultimately show ?thesis using f st started_input_append [OF assms(2), of rest]
    by (intro exI [of _ zero] exI [of _ body] exI [of _ v] exI [of _ err]) (simp add: assms(3))
qed

end
