(* ===== verification/ClusterProperties.thy ===== *)
theory ClusterProperties
  imports SystemProperties Outcomes
begin

text \<open>What durable execution promises of the engine together with its clients and workers.\<close>

text \<open>
  C5: take the engine, any clients and any number of SDK workers with any workflow and
  activity functions, their calls interleaved in any way: a worker may answer a task it polled long after
  others have changed the run, when its lease has expired and another worker has answered too, several
  times, or never; any process may crash; any database call may fail. In every state reached, each run has
  for each activity call as many \<open>ActivityScheduled\<close> events as it has activity tasks,
  \<open>ActivityCompleted\<close> and \<open>ActivityFailed\<close> events together, and for each timer as many
  \<open>TimerStarted\<close> and \<open>TimerFired\<close> events as timer rows and fired rows. If besides no scan finds two due
  timers of one run (see \<open>timers_share_event_id\<close>), the event IDs of every run are 1, 2, 3, ...
\<close>

theorem cluster_conserves:
  assumes "cluster_reachable U js T K c"
  defines "tb \<equiv> tabs (s_store (cl_engine c))"
  shows "activity_events ''ActivityScheduled'' wid u name i (events tb) =
      activity_tasks wid u name i (tasks tb) +
      activity_events ''ActivityCompleted'' wid u name i (events tb) +
      activity_events ''ActivityFailed'' wid u name i (events tb) \<and>
    timer_events ''TimerStarted'' wid u k (events tb) = run_timers (\<lambda>_. True) wid u k (timers tb) \<and>
    timer_events ''TimerFired'' wid u k (events tb) = run_timers tm_Fired wid u k (timers tb) \<and>
    ((\<forall>E s. T E s \<longrightarrow> single_due E s) \<longrightarrow>
      map ev_EventID (run_events wid u tb) = [1..int (length (run_events wid u tb))])"
  using cluster_engine [OF assms(1)]
  by (simp add: tb_def activities_balanced_def timers_balanced_def dense_def contiguous_def)

text \<open>A cluster of one worker that has polled the first task of a workflow, and its answers.\<close>

definition sample_polling :: "(Status + PollWorkflowTaskResponse) \<times> sess" where
  "sample_polling = Client_PollWorkflowTask (connect sample_env) ''q'' ''me'' sample_started"

definition sample_answer :: "RespondWorkflowTaskCompletedRequest \<Rightarrow> sess \<Rightarrow> sess" where
  "sample_answer req s = snd (rpc_RespondWorkflowTaskCompleted (connect sample_env) req s)"

definition sample_cluster :: "(string, unit) Worker \<Rightarrow> sess \<Rightarrow> (string, unit) cluster" where
  "sample_cluster w s = \<lparr>cl_engine = s, cl_workflow = {(w, sample_first_task)}, cl_activity = {}\<rparr>"

lemma sample_cluster_polled:
  assumes "K w" and "wk_queue w = ''q''" and "wk_id w = ''me''"
  shows "cluster_reachable (e_uuid sample_env) js T K (sample_cluster w (snd sample_polling))"
proof -
  let ?U = "e_uuid sample_env"
  have link: "link ?U sample_env" by (simp add: link_def)
  have "cluster_reachable ?U js T K (\<lparr>cl_engine = sample_init, cl_workflow = {}, cl_activity = {}\<rparr> :: (string, unit) cluster)"
    by (rule cluster_reachable.start) (simp add: sample_init_def)
  from cluster_reachable.go_on [OF this cluster_step.client [OF link, of "RStart sample_start"]]
  have c: "cluster_reachable ?U js T K (\<lparr>cl_engine = sample_started, cl_workflow = {}, cl_activity = {}\<rparr> :: (string, unit) cluster)"
    by (simp add: sample_started_def del: serve.simps)
  have "fst sample_polling = Inr sample_first_task" by code_simp
  then have p: "Client_PollWorkflowTask (connect sample_env) (wk_queue w) (wk_id w) sample_started =
      (Inr sample_first_task, snd sample_polling)"
    unfolding sample_polling_def assms(2,3) by (metis prod.collapse)
  have w: "{(w, sample_first_task)} = (case Inr sample_first_task of Inl err \<Rightarrow> {} |
      Inr resp \<Rightarrow> if pwr_TaskId resp = 0 then {} else {(w, resp)})" by (simp add: sample_first_task_def)
  from cluster_reachable.go_on [OF c cluster_step.poll_workflow [where K = K and w = w and E = sample_env and r = "Inr sample_first_task" and
      W = "{(w, sample_first_task)}", OF link assms(1) _ w]] p
  show ?thesis by (simp add: sample_cluster_def)
qed

lemma sample_cluster_answers:
  assumes "cluster_reachable (e_uuid sample_env) js T K (sample_cluster w s)"
    and "executeWorkflowTask js w sample_first_task = Respond req"
  shows "cluster_reachable (e_uuid sample_env) js T K (sample_cluster w (sample_answer req s))"
proof -
  have "cluster_step (e_uuid sample_env) js T K (sample_cluster w s) ((sample_cluster w s)\<lparr>cl_engine := sample_answer req s\<rparr>)"
    by (rule cluster_step.answer_workflow [of _ sample_env, OF _ _ assms(2), where r = "fst (rpc_RespondWorkflowTaskCompleted (connect sample_env) req s)"])
      (simp_all add: link_def sample_cluster_def sample_answer_def)
  from cluster_reachable.go_on [OF assms(1) this] show ?thesis by (simp add: sample_cluster_def)
qed

text \<open>The worker's answer arrives twice: the activity is scheduled twice, and there are two tasks for it.\<close>

theorem cluster_conserves_witness:
  "activity_events ''ActivityScheduled'' ''w'' sample_run ''A'' 0 (events (tabs (s_store
     (sample_answer sample_first_answer (sample_answer sample_first_answer (snd sample_polling)))))) = 2 \<and>
   activity_tasks ''w'' sample_run ''A'' 0 (tasks (tabs (s_store
     (sample_answer sample_first_answer (sample_answer sample_first_answer (snd sample_polling)))))) = 2"
proof -
  let ?s = "sample_answer sample_first_answer (sample_answer sample_first_answer (snd sample_polling))"
  let ?c = "sample_cluster sample_worker ?s"
  have s: "cl_engine ?c = ?s" by (simp add: sample_cluster_def)
  have a: "executeWorkflowTask sample_json sample_worker sample_first_task = Respond sample_first_answer" by code_simp
  have "cluster_reachable (e_uuid sample_env) sample_json (\<lambda>_ _. False) (\<lambda>_. True) ?c"
    by (intro sample_cluster_answers [OF _ a] sample_cluster_polled) (simp_all add: sample_worker_def)
  moreover have "activity_events ''ActivityScheduled'' ''w'' sample_run ''A'' 0 (events (tabs (s_store ?s))) = 2"
    "activity_events ''ActivityCompleted'' ''w'' sample_run ''A'' 0 (events (tabs (s_store ?s))) = 0"
    "activity_events ''ActivityFailed'' ''w'' sample_run ''A'' 0 (events (tabs (s_store ?s))) = 0" by code_simp+
  ultimately show ?thesis using cluster_conserves [of "e_uuid sample_env" sample_json "\<lambda>_ _. False" "\<lambda>_. True" ?c
      "''w''" sample_run "''A''" 0 0, unfolded s] by simp
qed

text \<open>
  C1: durable execution keeps its promise. In every state of a cluster whose engine serves
  its calls one after another, whose workers have the same workflow functions and whose timer scans never find
  two due timers of one run,
  whatever has crashed, failed, expired, been answered late or twice:
  an execution that is closed has ended as its workflow function ends when it is run straight through, once,
  without a history, on the input of the run and in the world of the activity results and signals that the
  run's history records. It is \<open>Completed\<close> if the function returned no error and \<open>Failed\<close> if it returned
  one, and the history has every result, timer and signal that the function waited for.
\<close>

theorem cluster_runs_straight:
  assumes "cluster_reachable U js T K c"
    and "\<forall>E s. T E s \<longrightarrow> single_due E s" and "\<forall>w. K w \<longrightarrow> wk_workflowFunctions w = F"
    and "x \<in> set (executions (tabs (s_store (cl_engine c))))" and "we_Status x \<noteq> ''Running''"
  defines "H \<equiv> history_of (we_WorkflowID x) (we_RunID x) (cl_engine c)"
  shows "\<exists>zero body v err. F (we_WorkflowType x) = Some (zero, body) \<and>
    decode_input js (started_input H) zero = Inr v \<and>
    list_all (available H) (needs (recorded_world js H) (body v) 0 0 (\<lambda>_. 0)) \<and>
    direct (recorded_world js H) (body v) 0 (\<lambda>_. 0) = Returned err \<and>
    we_Status x = (if err = None then ''Completed'' else ''Failed'')"
proof -
  from cluster_outcomes [OF assms(1)] assms(2,3) have "outcome_inv js F c" by blast
  with assms(4,5) obtain h rest where "H = h @ rest" "begins h" "ends_as js F (we_WorkflowType x) h (we_Status x)"
    unfolding outcome_inv_def outcomes_ok_def H_def by blast
  from ends_as_straight [OF this(3,2,1)] show ?thesis by (simp add: end_status_def)
qed

definition sample_quick_worker :: "(string, unit) Worker" where
  "sample_quick_worker = sample_worker\<lparr>wk_workflowFunctions := [''T'' \<mapsto> ([], \<lambda>input. Return None)]\<rparr>"

definition sample_quick_answer :: RespondWorkflowTaskCompletedRequest where
  "sample_quick_answer = sample_first_answer\<lparr>rwq_Commands := [zero_pbCommand\<lparr>pc_Type := ''CompleteWorkflow''\<rparr>]\<rparr>"

theorem cluster_runs_straight_witness:
  "map we_Status (executions (tabs (s_store (sample_answer sample_quick_answer (snd sample_polling))))) = [''Completed''] \<and>
   direct (recorded_world sample_json (history_of ''w'' sample_run (sample_answer sample_quick_answer (snd sample_polling))))
     (Return None :: string wf) 0 (\<lambda>_. 0) = Returned None"
proof -
  let ?s = "sample_answer sample_quick_answer (snd sample_polling)"
  let ?c = "sample_cluster sample_quick_worker ?s"
  have "map (\<lambda>x. (we_WorkflowID x, we_RunID x, we_WorkflowType x, we_Status x)) (executions (tabs (s_store ?s))) =
      [(''w'', sample_run, ''T'', ''Completed'')]" by code_simp
  then obtain x where x: "executions (tabs (s_store ?s)) = [x]" "we_WorkflowID x = ''w''" "we_RunID x = sample_run"
    "we_WorkflowType x = ''T''" "we_Status x = ''Completed''" by (auto simp: map_eq_Cons_conv)
  have a: "executeWorkflowTask sample_json sample_quick_worker sample_first_task = Respond sample_quick_answer" by code_simp
  have c: "cluster_reachable (e_uuid sample_env) sample_json (\<lambda>_ _. False) (\<lambda>w. w = sample_quick_worker) ?c"
    by (intro sample_cluster_answers [OF _ a] sample_cluster_polled) (simp_all add: sample_quick_worker_def sample_worker_def)
  have e: "cl_engine ?c = ?s" by (simp add: sample_cluster_def)
  have f: "wk_workflowFunctions sample_quick_worker ''T'' = Some ([], \<lambda>input. Return None)" by (simp add: sample_quick_worker_def)
  have "x \<in> set (executions (tabs (s_store (cl_engine ?c))))" "we_Status x \<noteq> ''Running''" by (simp_all add: e x)
  from cluster_runs_straight [OF c _ _ this, of "wk_workflowFunctions sample_quick_worker", unfolded e x(2-5) f]
  show ?thesis using x by (auto split: if_split_asm)
qed

end
