(* ===== verification/Examples.thy ===== *)
theory Examples
  imports Engine
begin

text \<open>
  The example programs of the repository: the pizza-order worker (\<open>examples/worker/main.go\<close>) with
  its workflows and activities, and the HTTP front end that starts and signals them
  (\<open>examples/api/main.go\<close>). The Go values the workflows handle are one datatype; \<open>encoding/json\<close>,
  the text of a gRPC status and the decoder of the request body are arguments. An \<open>int\<close> of the Go
  programs is an \<open>int\<close>: the only one computed is \<open>chargeAttempts\<close>, which a call moves by one.
\<close>

section \<open>Values\<close>

record PizzaOrder =
  OrderID :: int
  Items :: "string list"

record StockResult =
  Available :: bool
  Item :: string

record ChargeResult =
  Charged :: bool
  Amount :: int

record Decision =
  Approved :: bool

datatype pizza_value =
    VOrder PizzaOrder
  | VStock StockResult
  | VCharge ChargeResult
  | VDecision Decision
  | VString string

definition zero_Order :: PizzaOrder where "zero_Order = \<lparr>OrderID = 0, Items = []\<rparr>"
definition zero_Stock :: StockResult where "zero_Stock = \<lparr>Available = False, Item = ''''\<rparr>"
definition zero_Charge :: ChargeResult where "zero_Charge = \<lparr>Charged = False, Amount = 0\<rparr>"
definition zero_Decision :: Decision where "zero_Decision = \<lparr>Approved = False\<rparr>"

text \<open>
  Reading a variable of a known Go type. \<open>Unmarshal\<close> cannot change the type of its target, so the
  last case of each is never reached.
\<close>

fun as_order :: "pizza_value \<Rightarrow> PizzaOrder" where
  "as_order (VOrder x) = x" | "as_order _ = zero_Order"

fun as_stock :: "pizza_value \<Rightarrow> StockResult" where
  "as_stock (VStock x) = x" | "as_stock _ = zero_Stock"

fun as_charge :: "pizza_value \<Rightarrow> ChargeResult" where
  "as_charge (VCharge x) = x" | "as_charge _ = zero_Charge"

fun as_decision :: "pizza_value \<Rightarrow> Decision" where
  "as_decision (VDecision x) = x" | "as_decision _ = zero_Decision"

section \<open>Workflows\<close>

text \<open>
  \<open>err := workflow.ExecuteActivity(c, name, input).Get(&out)\<close>: the variable \<open>out\<close> afterwards, which
  an empty result leaves at its zero value.
\<close>

definition activity :: "string \<Rightarrow> pizza_value \<Rightarrow> pizza_value \<Rightarrow> (string option \<Rightarrow> pizza_value \<Rightarrow> pizza_value wf) \<Rightarrow> pizza_value wf" where
  "activity name input zero k = CallActivity name input (\<lambda>f. CallGet f (Some zero) (\<lambda>(err, out).
     k err (case out of None \<Rightarrow> zero | Some v \<Rightarrow> v)))"

text \<open>The end all three workflows share.\<close>

definition ship_order :: "pizza_value \<Rightarrow> pizza_value wf" where
  "ship_order charge = activity ''Ship'' charge (VString '''') (\<lambda>err tracking. case err of
       Some e \<Rightarrow> Return (Some e)
     | None \<Rightarrow> Return None)"

definition charge_order :: "pizza_value \<Rightarrow> pizza_value wf" where
  "charge_order stock = activity ''ChargeCard'' stock (VCharge zero_Charge) (\<lambda>err charge. case err of
       Some e \<Rightarrow> Return (Some e)
     | None \<Rightarrow> if Charged (as_charge charge) then ship_order charge else Return (Some ''charge failed''))"

definition TestTimerWorkflow :: "pizza_value \<Rightarrow> pizza_value wf" where
  "TestTimerWorkflow order =
     activity ''CheckStock'' order (VStock zero_Stock) (\<lambda>err stock. case err of
       Some e \<Rightarrow> Return (Some (''out of stock: '' @ e))
     | None \<Rightarrow> CallSleep (30 * 1000000000) (ship_order (VCharge \<lparr>Charged = True, Amount = 100\<rparr>)))"

definition TestWorkflow :: "pizza_value \<Rightarrow> pizza_value wf" where
  "TestWorkflow order =
     activity ''CheckStock'' order (VStock zero_Stock) (\<lambda>err stock. case err of
       Some e \<Rightarrow> Return (Some (''out of stock: '' @ e))
     | None \<Rightarrow> if Available (as_stock stock) then charge_order stock else Return (Some ''not availabe''))"

definition ApprovalWorkflow :: "pizza_value \<Rightarrow> pizza_value wf" where
  "ApprovalWorkflow order =
     activity ''CheckStock'' order (VStock zero_Stock) (\<lambda>err stock. case err of
       Some e \<Rightarrow> Return (Some e)
     | None \<Rightarrow> CallReceive ''approval'' (Some (VDecision zero_Decision)) (\<lambda>decision.
     if \<not> Approved (as_decision (case decision of None \<Rightarrow> VDecision zero_Decision | Some v \<Rightarrow> v))
     then Return (Some ''approval rejected'')
     else ship_order (VCharge \<lparr>Charged = True, Amount = 100\<rparr>)))"

section \<open>Activities\<close>

text \<open>The state of the worker process that the activities change is the variable \<open>chargeAttempts\<close>.\<close>

definition CheckStock :: "pizza_value \<Rightarrow> int \<Rightarrow> pizza_value activity_return \<times> int" where
  "CheckStock order chargeAttempts =
     (let items = Items (as_order order); item = (if length items > 0 then items ! 0 else '''')
      in (ActivityReturn (TwoResults (VStock \<lparr>Available = True, Item = item\<rparr>) None), chargeAttempts))"

definition ChargeCard :: "pizza_value \<Rightarrow> int \<Rightarrow> pizza_value activity_return \<times> int" where
  "ChargeCard stock chargeAttempts0 =
     (let chargeAttempts = chargeAttempts0 + 1 in
      if chargeAttempts < 3
      then (ActivityReturn (TwoResults (VCharge zero_Charge) (Some ''flaky API 503'')), chargeAttempts)
      else (ActivityReturn (TwoResults (VCharge \<lparr>Charged = True, Amount = 100\<rparr>) None), chargeAttempts))"

definition Ship :: "pizza_value \<Rightarrow> int \<Rightarrow> pizza_value activity_return \<times> int" where
  "Ship charge chargeAttempts = (ActivityReturn (TwoResults (VString ''TRACK-12345'') None), chargeAttempts)"

text \<open>The registrations of \<open>main\<close>, by the full names the Go runtime reports.\<close>

definition example_worker :: "string \<Rightarrow> (pizza_value, int) Worker option" where
  "example_worker uuid =
     Option.bind (RegisterWorkflow (NewWorker uuid ''test'') (Func ''main.TestWorkflow'' (VOrder zero_Order, TestWorkflow))) (\<lambda>w.
     Option.bind (RegisterWorkflow w (Func ''main.TestTimerWorkflow'' (VOrder zero_Order, TestTimerWorkflow))) (\<lambda>w.
     Option.bind (RegisterWorkflow w (Func ''main.ApprovalWorkflow'' (VOrder zero_Order, ApprovalWorkflow))) (\<lambda>w.
     Option.bind (RegisterActivity w (Func ''main.CheckStock'' (VOrder zero_Order, CheckStock))) (\<lambda>w.
     Option.bind (RegisterActivity w (Func ''main.ChargeCard'' (VStock zero_Stock, ChargeCard))) (\<lambda>w.
     RegisterActivity w (Func ''main.Ship'' (VCharge zero_Charge, Ship)))))))"

section \<open>The HTTP front end\<close>

text \<open>\<open>fmt.Sprintf("%d", i)\<close>.\<close>

fun decimal :: "nat \<Rightarrow> string" where
  "decimal n = (if n < 10 then [char_of (48 + n)] else decimal (n div 10) @ [char_of (48 + n mod 10)])"

declare decimal.simps [simp del]

definition format_d :: "int \<Rightarrow> string" where
  "format_d i = (if i < 0 then CHR ''-'' # decimal (nat (- i)) else decimal (nat i))"

record response =
  http_code :: nat
  http_body :: string

text \<open>A handler that only writes a body answers 200; \<open>http.Error\<close> adds a line end.\<close>

definition w_Write :: "string \<Rightarrow> response" where
  "w_Write b = \<lparr>http_code = 200, http_body = b\<rparr>"

definition http_Error :: "string \<Rightarrow> nat \<Rightarrow> response" where
  "http_Error b c = \<lparr>http_code = c, http_body = b @ [CHR 0x0A]\<rparr>"

record decoders =
  json_Decode :: "bytes \<Rightarrow> string + PizzaOrder"
  json_values :: "pizza_value json"
  err_Error :: "Status \<Rightarrow> string"

definition TestHandler :: "decoders \<Rightarrow> 's engine_client \<Rightarrow> bytes \<Rightarrow> 's \<Rightarrow> response \<times> 's" where
  "TestHandler d c body s = (case json_Decode d body of
       Inl err \<Rightarrow> (w_Write (''json decoder error: '' @ err), s)
     | Inr order \<Rightarrow> (case json_Marshal (json_values d) (VOrder order) of
       Inl err \<Rightarrow> (w_Write (''json marshal error: '' @ err), s)
     | Inr orderBytes \<Rightarrow>
         (case Client_StartNewWorkflow c ''test-order22'' ''ApprovalWorkflow'' ''test'' (Some orderBytes) s of
            (Inl err, s') \<Rightarrow> (w_Write (''Failed to get runID from StartWorkflow: '' @ err_Error d err), s')
          | (Inr runID, s') \<Rightarrow> (w_Write (''runID:'' @ runID), s'))))"

definition OrderHandler :: "decoders \<Rightarrow> 's engine_client \<Rightarrow> bytes \<Rightarrow> 's \<Rightarrow> response \<times> 's" where
  "OrderHandler d c body s = (case json_Decode d body of
       Inl err \<Rightarrow> (http_Error (''json decoder error: '' @ err) 400, s)
     | Inr order \<Rightarrow> (case json_Marshal (json_values d) (VOrder order) of
       Inl err \<Rightarrow> (http_Error (''json marshal error: '' @ err) 500, s)
     | Inr orderBytes \<Rightarrow>
         (let workflowID = ''order-'' @ format_d (OrderID order) in
          case Client_StartNewWorkflow c workflowID ''TestWorkflow'' ''test'' (Some orderBytes) s of
            (Inl err, s') \<Rightarrow> (http_Error (''StartNewWorkflow failed: '' @ err_Error d err) 500, s')
          | (Inr runID, s') \<Rightarrow> (w_Write (''workflowID:'' @ workflowID @ '' runID:'' @ runID), s'))))"

definition ApproveHandler :: "decoders \<Rightarrow> 's engine_client \<Rightarrow> 's \<Rightarrow> response \<times> 's" where
  "ApproveHandler d c s =
     (let decision = \<lparr>Approved = True\<rparr>;
          data = (case json_Marshal (json_values d) (VDecision decision) of Inl err \<Rightarrow> None | Inr b \<Rightarrow> Some b)
      in case Client_SignalWorkflow c ''test-order22'' '''' ''approval'' data s of
           (Inl err, s') \<Rightarrow> (http_Error (err_Error d err) 500, s')
         | (Inr _, s') \<Rightarrow> (w_Write ''approved'', s'))"

section \<open>Workflow IDs of orders\<close>

text \<open>Different orders have different workflow IDs: the decimal form can be read back.\<close>

definition read_decimal :: "string \<Rightarrow> nat" where
  "read_decimal = foldl (\<lambda>n c. 10 * n + (of_char c - 48)) 0"

lemma read_decimal [simp]: "read_decimal (decimal n) = n"
proof (induction n rule: decimal.induct)
  case (1 n)
  then show ?case by (subst decimal.simps) (auto simp: read_decimal_def)
qed

lemma decimal_nonempty: "decimal n \<noteq> []"
  by (subst decimal.simps) simp

lemma decimal_no_sign: "decimal n = c # cs \<Longrightarrow> c \<noteq> CHR ''-''"
proof (induction n arbitrary: cs rule: decimal.induct)
  case (1 n)
  show ?case
  proof (cases "n < 10")
    case True
    with 1 have "c = char_of (48 + n)" by (simp add: decimal.simps [of n])
    then have "of_char c = 48 + n" using True by simp
    then show ?thesis by auto
  next
    case False
    then have "decimal n = decimal (n div 10) @ [char_of (48 + n mod 10)]" by (simp add: decimal.simps [of n])
    with 1(2) decimal_nonempty [of "n div 10"] obtain ds where "decimal (n div 10) = c # ds"
      by (cases "decimal (n div 10)") auto
    with 1 False show ?thesis by blast
  qed
qed

lemma format_d_inject: "format_d i = format_d j \<longleftrightarrow> i = j"
proof
  assume eq: "format_d i = format_d j"
  have inj: "decimal m = decimal n \<Longrightarrow> m = n" for m n by (metis read_decimal)
  show "i = j"
  proof (cases "i < 0 \<longleftrightarrow> j < 0")
    case True
    with eq inj show ?thesis by (fastforce simp: format_d_def split: if_splits dest!: inj)
  next
    case False
    with eq decimal_no_sign show ?thesis by (metis format_d_def)
  qed
qed simp

end
