(* ===== verification/Programs.thy ===== *)
theory Programs
  imports Boot Loops Examples
begin

text \<open>
  The programs around the engine: how a client connects (\<open>sdk/client.go\<close>), the example worker and the
  example API from start to end (\<open>examples/*/main.go\<close>), the metrics endpoint of the engine
  (\<open>cmd/engine/main.go\<close>), and the engine the repository's own tests set up
  (\<open>internal/testutil/postgres.go\<close>). What the gRPC, HTTP and container libraries answer are arguments.
\<close>

section \<open>Connecting\<close>

text \<open>
  \<open>grpc.NewClient\<close> with the stubs on top: an error, or the stubs, which answer each call under what
  happens at that time (\<open>'e\<close>). It does not dial: an address nobody listens on shows in the calls.
\<close>

type_synonym ('e, 's) connection = "'e \<Rightarrow> 's engine_client"
type_synonym ('e, 's) grpc_NewClient = "string \<Rightarrow> string + ('e, 's) connection"

definition NewClient :: "('e, 's) grpc_NewClient \<Rightarrow> string \<Rightarrow> string + ('e, 's) connection" where
  "NewClient grpc addr = (case grpc addr of
       Inl err \<Rightarrow> Inl (''failed to connect to grpc: ['' @ err @ '']'')
     | Inr conn \<Rightarrow> Inr conn)"

section \<open>The example worker\<close>

datatype loop = WorkflowLoop | ActivityLoop

fun turn_of :: "('e, 's) connection \<Rightarrow> loop \<times> 'e \<Rightarrow> 's turn" where
  "turn_of c (WorkflowLoop, E) = WorkflowTurn (c E)"
| "turn_of c (ActivityLoop, E) = ActivityTurn (c E)"

text \<open>The package variable starts at zero in every process.\<close>

definition chargeAttempts :: int where
  "chargeAttempts = 0"

text \<open>\<open>log.Fatal\<close> exits with code 1. \<open>Run\<close> ends when its context does, or with a panic of a workflow.\<close>

definition worker_main ::
  "('e, 's) grpc_NewClient \<Rightarrow> string \<Rightarrow> pizza_value json \<Rightarrow> (loop \<times> 'e) list \<Rightarrow> 's \<Rightarrow> process_end \<times> 's \<times> int" where
  "worker_main grpc uuid js turns s =
     (case NewClient grpc ''localhost:7233'' of
        Inl err \<Rightarrow> (Exit 1, s, chargeAttempts)
      | Inr client \<Rightarrow> (case example_worker uuid of
          None \<Rightarrow> (Panics, s, chargeAttempts)
        | Some worker \<Rightarrow> (case Run js (map (turn_of client) turns) worker (s, chargeAttempts) of
            (Some r, s') \<Rightarrow> (Panics, s')
          | (None, s') \<Rightarrow> (Finished, s'))))"

section \<open>The example API\<close>

text \<open>
  \<open>http.ServeMux\<close> for patterns of a method and a path without wildcards. Its requests have a clean
  path: any other is answered with a redirect to the clean one.
\<close>

type_synonym 's routes = "(string \<times> string \<times> (bytes \<Rightarrow> 's \<Rightarrow> response \<times> 's)) list"

definition ServeHTTP :: "'s routes \<Rightarrow> string \<Rightarrow> string \<Rightarrow> bytes \<Rightarrow> 's \<Rightarrow> response \<times> 's" where
  "ServeHTTP routes meth path body s =
     (case List.find (\<lambda>(m, p, _). m = meth \<and> p = path) routes of
        Some (_, _, handler) \<Rightarrow> handler body s
      | None \<Rightarrow> if list_ex (\<lambda>(m, p, _). p = path) routes then (http_Error ''Method Not Allowed'' 405, s)
          else (http_Error ''404 page not found'' 404, s))"

definition api_mux :: "decoders \<Rightarrow> 's engine_client \<Rightarrow> 's routes" where
  "api_mux d client =
     [(''POST'', ''/test'', TestHandler d client),
      (''POST'', ''/approve'', \<lambda>body. ApproveHandler d client),
      (''POST'', ''/order'', OrderHandler d client)]"

record 'e http_request =
  rq_Method :: string
  rq_Path :: string
  rq_Body :: bytes
  rq_At :: 'e

fun serve_all :: "decoders \<Rightarrow> ('e, 's) connection \<Rightarrow> 'e http_request list \<Rightarrow> 's \<Rightarrow> response list \<times> 's" where
  "serve_all d c [] s = ([], s)"
| "serve_all d c (q # qs) s = (case ServeHTTP (api_mux d (c (rq_At q))) (rq_Method q) (rq_Path q) (rq_Body q) s of
     (r, s') \<Rightarrow> (case serve_all d c qs s' of (rs, s'') \<Rightarrow> (r # rs, s'')))"

text \<open>\<open>ListenAndServe\<close> only returns with an error, which \<open>log.Fatal\<close> makes the end of the process.\<close>

definition api_main ::
  "('e, 's) grpc_NewClient \<Rightarrow> decoders \<Rightarrow> 'e http_request list \<Rightarrow> 's \<Rightarrow> process_end \<times> response list \<times> 's" where
  "api_main grpc d requests s =
     (case NewClient grpc ''localhost:7233'' of
        Inl err \<Rightarrow> (Exit 1, [], s)
      | Inr client \<Rightarrow> (Exit 1, serve_all d client requests s))"

section \<open>The metrics endpoint\<close>

definition metricsAddr :: string where
  "metricsAddr = '':2112''"

text \<open>
  What the scrapes are answered, each in the state of its time: the exposition format of the counters
  (\<open>promhttp\<close>) on \<open>/metrics\<close>. The process goes on if the address is taken; only the log shows it.
\<close>

definition serveMetrics ::
  "(string \<Rightarrow> string option) \<Rightarrow> (metrics \<Rightarrow> response) \<Rightarrow> (string \<times> sess) list \<Rightarrow> response list" where
  "serveMetrics listen exposition scrapes = (case listen metricsAddr of
       Some err \<Rightarrow> []
     | None \<Rightarrow> map (\<lambda>(path, s). if path = ''/metrics'' then exposition (s_metrics s)
         else http_Error ''404 page not found'' 404) scrapes)"

section \<open>The engine of the tests\<close>

text \<open>
  The container of one test (\<open>testcontainers\<close>): its start, and the address of its database. A test
  that does not get what it requires fails, with a text.
\<close>

record container =
  postgres_Run :: "string option"
  ConnectionString :: "string + string"

definition StartTestPostgres :: "container \<Rightarrow> boot \<Rightarrow> string + store" where
  "StartTestPostgres c B = (case postgres_Run c of
       Some err \<Rightarrow> Inl err
     | None \<Rightarrow> (case ConnectionString c of
         Inl err \<Rightarrow> Inl err
       | Inr connStr \<Rightarrow> (case RunMigrations B connStr of
           Inl err \<Rightarrow> Inl err
         | Inr st \<Rightarrow> (case pgxpool_New B connStr of
             Some err \<Rightarrow> Inl err
           | None \<Rightarrow> Inr st))))"

definition SetupEngine :: "container \<Rightarrow> boot \<Rightarrow> string + sess" where
  "SetupEngine c B = (case StartTestPostgres c B of
       Inl err \<Rightarrow> Inl err
     | Inr st \<Rightarrow> (case Metrics_New [] of
         None \<Rightarrow> Inl ''duplicate metrics collector registration attempted''
       | Some (m, reg) \<Rightarrow> Inr \<lparr>s_store = st, s_metrics = m, s_tick = 0, s_txn = None\<rparr>))"

definition test_GetEvents :: "string \<Rightarrow> string \<Rightarrow> env \<Rightarrow> sess \<Rightarrow> go_error option \<times> Event list" where
  "test_GetEvents workflowID runID E s = (case fst (GetEvents workflowID runID E s) of
       Inl err \<Rightarrow> (Some err, [])
     | Inr es \<Rightarrow> (None, es))"

section \<open>Facts\<close>

lemma NewClient_addr: "NewClient grpc addr = Inr c \<longleftrightarrow> grpc addr = Inr c"
  by (simp add: NewClient_def split: sum.splits)

text \<open>The routes: what is not one of the three is answered without a call of the engine.\<close>

lemma api_mux_route:
  "ServeHTTP (api_mux d c) ''POST'' ''/test'' body s = TestHandler d c body s"
  "ServeHTTP (api_mux d c) ''POST'' ''/approve'' body s = ApproveHandler d c s"
  "ServeHTTP (api_mux d c) ''POST'' ''/order'' body s = OrderHandler d c body s"
  by (simp_all add: ServeHTTP_def api_mux_def)

lemma api_mux_other:
  "meth \<noteq> ''POST'' \<Longrightarrow> path \<in> {''/test'', ''/approve'', ''/order''} \<Longrightarrow>
     ServeHTTP (api_mux d c) meth path body s = (http_Error ''Method Not Allowed'' 405, s)"
  "path \<notin> {''/test'', ''/approve'', ''/order''} \<Longrightarrow>
     ServeHTTP (api_mux d c) meth path body s = (http_Error ''404 page not found'' 404, s)"
  by (auto simp: ServeHTTP_def api_mux_def)

text \<open>A worker connected to an engine leaves it in a state in which the histories are numbered.\<close>

lemma turns_connected:
  assumes "\<forall>(l, E) \<in> set turns. serial E \<and> uuid_ok E \<and> e_uuid E = U"
  shows "connected_turns U (map (turn_of connect) turns)"
proof -
  have "\<exists>E. serial E \<and> uuid_ok E \<and> e_uuid E = U \<and>
      (turn_of connect x = WorkflowTurn (connect E) \<or> turn_of connect x = ActivityTurn (connect E))" if "x \<in> set turns" for x
    using assms that by (cases x; cases "fst x") fastforce+
  then show ?thesis unfolding connected_turns_def by auto
qed

lemma worker_main_reachable:
  assumes "reachable U numbering_ok s" and "\<forall>(l, E) \<in> set turns. serial E \<and> uuid_ok E \<and> e_uuid E = U"
    and "grpc ''localhost:7233'' = Inl err \<or> grpc ''localhost:7233'' = Inr connect"
  shows "reachable U numbering_ok (fst (snd (worker_main grpc uuid js turns s)))"
proof (cases "\<exists>w. grpc ''localhost:7233'' = Inr connect \<and> example_worker uuid = Some w")
  case True
  then obtain w where c: "NewClient grpc ''localhost:7233'' = Inr connect" and w: "example_worker uuid = Some w"
    by (auto simp: NewClient_addr)
  obtain p s' n where r: "Run js (map (turn_of connect) turns) w (s, chargeAttempts) = (p, s', n)" using prod_cases3 by blast
  from Run_reachable [OF assms(1) turns_connected [OF assms(2)], of js w chargeAttempts] r
  have "reachable U numbering_ok s'" by simp
  with c w r show ?thesis by (simp add: worker_main_def split: option.splits)
qed (use assms(1,3) in \<open>auto simp: worker_main_def NewClient_def split: option.splits\<close>)

text \<open>A test's engine is a reachable one: an empty database and zero counters.\<close>

lemma SetupEngine_fresh:
  assumes "migrates None B" and "SetupEngine c B = Inr s"
  shows "s_store s = init_store \<and> s_metrics s = zero_metrics \<and> reachable U ok s"
proof -
  from assms(2) obtain connStr where "RunMigrations B connStr = Inr (s_store s)" "s_metrics s = zero_metrics"
    by (auto simp: SetupEngine_def StartTestPostgres_def Metrics_New_if split: option.splits sum.splits)
  with assms(1) have "s_store s = init_store \<and> s_metrics s = zero_metrics"
    by (auto simp: migrates_def RunMigrations_def split: option.splits prod.splits up_error.splits)
  then show ?thesis by (simp add: reachable.init)
qed

end
