(* ===== verification/ExampleProperties.thy ===== *)
theory ExampleProperties
  imports Programs TaskProperties
begin

text \<open>
  What the example programs do: the order in which their workflows schedule activities, that the
  worker knows every activity its workflows name, and what a posted order leaves in the engine.
\<close>

section \<open>Workflows\<close>

text \<open>What an activity call brings at a place of the workflow, by the history.\<close>

definition result_of :: "pizza_value json \<Rightarrow> HistoryEvent list \<Rightarrow> string \<Rightarrow> nat \<Rightarrow> pizza_value \<Rightarrow> (string option \<times> pizza_value) option" where
  "result_of js h name i zero = map_option (\<lambda>(err, out). (err, case out of None \<Rightarrow> zero | Some v \<Rightarrow> v))
     (Get_loop js name i (Some zero) h)"

definition scheduled :: "Context \<Rightarrow> string set" where
  "scheduled c = {pc_ActivityName d | d. d \<in> set (Commands c) \<and> pc_Type d = ''ScheduleActivity''}"

lemma scheduled_subset:
  "scheduled c \<subseteq> S \<longleftrightarrow> (\<forall>d \<in> set (Commands c). pc_Type d = ''ScheduleActivity'' \<longrightarrow> pc_ActivityName d \<in> S)"
  by (auto simp: scheduled_def)

lemma scheduled_member:
  "name \<in> scheduled c \<longleftrightarrow> (\<exists>d \<in> set (Commands c). pc_ActivityName d = name \<and> pc_Type d = ''ScheduleActivity'')"
  by (auto simp: scheduled_def)

text \<open>A point of a replay: the history, the calls made so far, and the activities scheduled at most.\<close>

definition stands_at :: "Context \<Rightarrow> HistoryEvent list \<Rightarrow> nat \<Rightarrow> string set \<Rightarrow> bool" where
  "stands_at ctx h n S \<longleftrightarrow> wc_history ctx = h \<and> wc_activityCallCount ctx = n \<and> scheduled ctx \<subseteq> S"

lemma at_New: "stands_at (New h q) h 0 {}"
  by (simp add: stands_at_def New_def scheduled_def Commands_def)

lemma at_ExecuteActivity:
  assumes "stands_at ctx h n S"
  shows "stands_at (snd (ExecuteActivity js ctx name input)) h (Suc n) (insert name S)"
  using assms by (auto simp: stands_at_def ExecuteActivity_def Let_def scheduled_def Commands_def schedule_command_def zero_pbCommand_def)

lemma replay_activity:
  assumes "stands_at ctx h n S" and "replay js (activity name input zero k) ctx = (out, c)"
  obtains (waits) "result_of js h name n zero = None" "out = Suspended" "scheduled c \<subseteq> insert name S"
  | (returns) err v ctx' where "result_of js h name n zero = Some (err, v)" "stands_at ctx' h (Suc n) (insert name S)"
    "replay js (k err v) ctx' = (out, c)" "wc_timerCallCount ctx' = wc_timerCallCount ctx" "wc_signalConsumed ctx' = wc_signalConsumed ctx"
proof -
  let ?ctx' = "snd (ExecuteActivity js ctx name input)"
  have f: "fst (ExecuteActivity js ctx name input) = \<lparr>f_activityName = name, f_callIndex = n\<rparr>"
    using assms(1) by (simp add: ExecuteActivity_def stands_at_def Let_def)
  note at = at_ExecuteActivity [OF assms(1), of js name input]
  then have g: "Get js ?ctx' \<lparr>f_activityName = name, f_callIndex = n\<rparr> (Some zero) = Get_loop js name n (Some zero) h"
    by (simp add: Get_def stands_at_def)
  show ?thesis
  proof (cases "Get_loop js name n (Some zero) h")
    case None
    with assms(2) f g have "(out, c) = (Suspended, ?ctx')" by (auto simp: activity_def split: prod.splits)
    with at None waits show ?thesis by (simp add: result_of_def stands_at_def)
  next
    case (Some r)
    with assms(2) f g have "replay js (k (fst r) (case snd r of None \<Rightarrow> zero | Some v \<Rightarrow> v)) ?ctx' = (out, c)"
      by (auto simp: activity_def split: prod.splits)
    moreover have "wc_timerCallCount ?ctx' = wc_timerCallCount ctx" "wc_signalConsumed ?ctx' = wc_signalConsumed ctx"
      by (simp_all add: ExecuteActivity_def Let_def)
    ultimately show ?thesis using returns [OF _ at] Some by (cases r) (simp add: result_of_def)
  qed
qed

lemma ship_gates:
  assumes "stands_at ctx h n S" and "replay js (ship_order v) ctx = (out, c)"
  shows "scheduled c \<subseteq> insert ''Ship'' S"
    and "out = Returned None \<Longrightarrow> \<exists>v. result_of js h ''Ship'' n (VString '''') = Some (None, v)"
  using assms unfolding ship_order_def
  by (cases rule: replay_activity; auto simp: stands_at_def split: option.splits)+

lemma charge_gates:
  assumes "stands_at ctx h n S" and "replay js (charge_order v) ctx = (out, c)"
  shows "scheduled c \<subseteq> {''ChargeCard'', ''Ship''} \<union> S \<and>
    (''Ship'' \<in> scheduled c - S \<or> out = Returned None \<longrightarrow>
      (\<exists>v. result_of js h ''ChargeCard'' n (VCharge zero_Charge) = Some (None, v) \<and> Charged (as_charge v))) \<and>
    (out = Returned None \<longrightarrow> (\<exists>v. result_of js h ''Ship'' (Suc n) (VString '''') = Some (None, v)))"
  using assms unfolding charge_order_def
proof (cases rule: replay_activity)
  case waits
  then show ?thesis by auto
next
  case (returns err charge c1)
  show ?thesis
  proof (cases "err = None \<and> Charged (as_charge charge)")
    case True
    with returns(3) have "replay js (ship_order charge) c1 = (out, c)" by simp
    from ship_gates [OF returns(2) this] True returns(1) show ?thesis by auto
  next
    case False
    with returns(3) have "out \<noteq> Returned None" "c = c1" by (auto split: option.splits if_splits)
    with returns(2) show ?thesis by (auto simp: stands_at_def)
  qed
qed

lemma TestWorkflow_gates:
  assumes "replay js (TestWorkflow order) (New h q) = (out, c)"
  shows "scheduled c \<subseteq> {''CheckStock'', ''ChargeCard'', ''Ship''} \<and>
    (scheduled c \<inter> {''ChargeCard'', ''Ship''} \<noteq> {} \<or> out = Returned None \<longrightarrow>
      (\<exists>v. result_of js h ''CheckStock'' 0 (VStock zero_Stock) = Some (None, v) \<and> Available (as_stock v))) \<and>
    (''Ship'' \<in> scheduled c \<or> out = Returned None \<longrightarrow>
      (\<exists>v. result_of js h ''ChargeCard'' 1 (VCharge zero_Charge) = Some (None, v) \<and> Charged (as_charge v))) \<and>
    (out = Returned None \<longrightarrow> (\<exists>v. result_of js h ''Ship'' 2 (VString '''') = Some (None, v)))"
  using at_New assms unfolding TestWorkflow_def
proof (cases rule: replay_activity)
  case waits
  then show ?thesis by auto
next
  case (returns err stock c1)
  show ?thesis
  proof (cases "err = None \<and> Available (as_stock stock)")
    case True
    with returns(3) have "replay js (charge_order stock) c1 = (out, c)" by simp
    from charge_gates [OF returns(2) this] True returns(1) show ?thesis by (auto simp: numeral_2_eq_2)
  next
    case False
    with returns(3) have "out \<noteq> Returned None" "c = c1" by (auto split: option.splits if_splits)
    with returns(2) show ?thesis by (auto simp: stands_at_def)
  qed
qed

lemma TestTimerWorkflow_gates:
  assumes "replay js (TestTimerWorkflow order) (New h q) = (out, c)"
  shows "scheduled c \<subseteq> {''CheckStock'', ''Ship''} \<and>
    (''Ship'' \<in> scheduled c \<or> out = Returned None \<longrightarrow> list_ex (is_timer_event ''TimerFired'' 0) h \<and>
      (\<exists>v. result_of js h ''CheckStock'' 0 (VStock zero_Stock) = Some (None, v))) \<and>
    (out = Returned None \<longrightarrow> (\<exists>v. result_of js h ''Ship'' 1 (VString '''') = Some (None, v)))"
  using at_New assms unfolding TestTimerWorkflow_def
proof (cases rule: replay_activity)
  case waits
  then show ?thesis by auto
next
  case (returns err stock c1)
  let ?c2 = "c1\<lparr>wc_timerCallCount := 1\<rparr>"
  from returns(2,4) have c1: "wc_history c1 = h" "wc_timerCallCount c1 = 0" "wc_activityCallCount c1 = 1" "scheduled c1 \<subseteq> {''CheckStock''}"
    by (auto simp: stands_at_def New_def)
  then have c2: "stands_at ?c2 h 1 {''CheckStock''}" by (auto simp: stands_at_def scheduled_def Commands_def)
  show ?thesis
  proof (cases "err = None \<and> list_ex (is_timer_event ''TimerFired'' 0) h")
    case True
    with returns(3) c1 have ship: "replay js (ship_order (VCharge \<lparr>Charged = True, Amount = 100\<rparr>)) ?c2 = (out, c)"
      by (simp add: Sleep_def Let_def)
    from ship_gates [OF c2 ship] True returns(1) show ?thesis by auto
  next
    case False
    with returns(3) c1 have "out \<noteq> Returned None" "scheduled c \<subseteq> {''CheckStock''}"
      by (auto simp: Sleep_def Let_def scheduled_subset Commands_def timer_command_def zero_pbCommand_def split: option.splits if_splits)
    then show ?thesis by auto
  qed
qed

lemma ApprovalWorkflow_gates:
  assumes "replay js (ApprovalWorkflow order) (New h q) = (out, c)"
  shows "scheduled c \<subseteq> {''CheckStock'', ''Ship''} \<and>
    (''Ship'' \<in> scheduled c \<or> out = Returned None \<longrightarrow> (\<exists>v. result_of js h ''CheckStock'' 0 (VStock zero_Stock) = Some (None, v)) \<and>
      (\<exists>e \<in> set h. is_signal ''approval'' e \<and>
        Approved (as_decision (snd (json_Unmarshal js (case he_Data e of None \<Rightarrow> [] | Some d \<Rightarrow> d) (VDecision zero_Decision)))))) \<and>
    (out = Returned None \<longrightarrow> (\<exists>v. result_of js h ''Ship'' 1 (VString '''') = Some (None, v)))"
  using at_New assms unfolding ApprovalWorkflow_def
proof (cases rule: replay_activity)
  case waits
  then show ?thesis by auto
next
  case (returns err stock c1)
  let ?c2 = "c1\<lparr>wc_signalConsumed := (wc_signalConsumed c1)(''approval'' := 1)\<rparr>"
  from returns(2,5) have c1: "wc_history c1 = h" "wc_signalConsumed c1 ''approval'' = 0" "wc_activityCallCount c1 = 1"
    "scheduled c1 \<subseteq> {''CheckStock''}" by (auto simp: stands_at_def New_def)
  then have c2: "stands_at ?c2 h 1 {''CheckStock''}" by (auto simp: stands_at_def scheduled_subset Commands_def)
  let ?decision = "\<lambda>e. as_decision (snd (json_Unmarshal js (case he_Data e of None \<Rightarrow> [] | Some d \<Rightarrow> d) (VDecision zero_Decision)))"
  show ?thesis
  proof (cases "err = None \<and> (\<exists>e. signal_loop ''approval'' 0 0 h = Some e \<and> Approved (?decision e))")
    case True
    then obtain e where e: "signal_loop ''approval'' 0 0 h = Some e" "Approved (?decision e)" by blast
    with True returns(3) c1 have ship: "replay js (ship_order (VCharge \<lparr>Charged = True, Amount = 100\<rparr>)) ?c2 = (out, c)"
      by (simp add: ReceiveSignal_def)
    from e(1) have "e \<in> set (filter (is_signal ''approval'') h)"
      unfolding signal_loop_nth by (auto split: if_splits intro: nth_mem simp del: set_filter)
    then have "e \<in> set h \<and> is_signal ''approval'' e" by simp
    with ship_gates [OF c2 ship] True returns(1) e(2) show ?thesis by auto
  next
    case False
    with returns(3) c1 have "out \<noteq> Returned None" "Commands c = Commands c1"
      by (cases err; cases "signal_loop ''approval'' 0 0 h"; auto simp: ReceiveSignal_def Commands_def)+
    with c1(4) have "out \<noteq> Returned None" "scheduled c \<subseteq> {''CheckStock''}" by (auto simp: scheduled_subset)
    then show ?thesis by auto
  qed
qed

lemma TestWorkflow_ships:
  assumes "replay js (TestWorkflow order) (New h q) = (out, c)" and "''Ship'' \<in> scheduled c \<or> out = Returned None"
  shows "(\<exists>v. result_of js h ''CheckStock'' 0 (VStock zero_Stock) = Some (None, v) \<and> Available (as_stock v)) \<and>
      (\<exists>v. result_of js h ''ChargeCard'' 1 (VCharge zero_Charge) = Some (None, v) \<and> Charged (as_charge v)) \<and>
      (out = Returned None \<longrightarrow> (\<exists>v. result_of js h ''Ship'' 2 (VString '''') = Some (None, v)))"
  using TestWorkflow_gates [OF assms(1)] assms(2) by blast

lemma TestTimerWorkflow_ships:
  assumes "replay js (TestTimerWorkflow order) (New h q) = (out, c)" and "''Ship'' \<in> scheduled c \<or> out = Returned None"
  shows "(\<exists>v. result_of js h ''CheckStock'' 0 (VStock zero_Stock) = Some (None, v)) \<and>
      list_ex (is_timer_event ''TimerFired'' 0) h \<and>
      (out = Returned None \<longrightarrow> (\<exists>v. result_of js h ''Ship'' 1 (VString '''') = Some (None, v)))"
  using TestTimerWorkflow_gates [OF assms(1)] assms(2) by blast

lemma ApprovalWorkflow_ships:
  assumes "replay js (ApprovalWorkflow order) (New h q) = (out, c)" and "''Ship'' \<in> scheduled c \<or> out = Returned None"
  shows "(\<exists>v. result_of js h ''CheckStock'' 0 (VStock zero_Stock) = Some (None, v)) \<and>
      (\<exists>e \<in> set h. is_signal ''approval'' e \<and>
         Approved (as_decision (snd (json_Unmarshal js (case he_Data e of None \<Rightarrow> [] | Some d \<Rightarrow> d) (VDecision zero_Decision))))) \<and>
      (out = Returned None \<longrightarrow> (\<exists>v. result_of js h ''Ship'' 1 (VString '''') = Some (None, v)))"
  using ApprovalWorkflow_gates [OF assms(1)] assms(2) by blast

text \<open>
  C25: the example workflows act in order, whatever the history. Each of them
  schedules the shipment, or ends without an error, only after the stock check has come back without
  an error; \<open>TestWorkflow\<close> moreover only after the stock was available and the charge has come
  back charged; \<open>TestTimerWorkflow\<close> only after its timer has fired; \<open>ApprovalWorkflow\<close> only after
  a signal \<open>approval\<close> that carries an approval. And none ends without an error before the shipment
  has come back without one.
\<close>

theorem workflow_gates:
  assumes "''Ship'' \<in> scheduled c \<or> out = Returned None"
  shows "(replay js (TestWorkflow order) (New h q) = (out, c) \<longrightarrow>
      (\<exists>v. result_of js h ''CheckStock'' 0 (VStock zero_Stock) = Some (None, v) \<and> Available (as_stock v)) \<and>
      (\<exists>v. result_of js h ''ChargeCard'' 1 (VCharge zero_Charge) = Some (None, v) \<and> Charged (as_charge v)) \<and>
      (out = Returned None \<longrightarrow> (\<exists>v. result_of js h ''Ship'' 2 (VString '''') = Some (None, v)))) \<and>
    (replay js (TestTimerWorkflow order) (New h q) = (out, c) \<longrightarrow>
      (\<exists>v. result_of js h ''CheckStock'' 0 (VStock zero_Stock) = Some (None, v)) \<and>
      list_ex (is_timer_event ''TimerFired'' 0) h \<and>
      (out = Returned None \<longrightarrow> (\<exists>v. result_of js h ''Ship'' 1 (VString '''') = Some (None, v)))) \<and>
    (replay js (ApprovalWorkflow order) (New h q) = (out, c) \<longrightarrow>
      (\<exists>v. result_of js h ''CheckStock'' 0 (VStock zero_Stock) = Some (None, v)) \<and>
      (\<exists>e \<in> set h. is_signal ''approval'' e \<and>
         Approved (as_decision (snd (json_Unmarshal js (case he_Data e of None \<Rightarrow> [] | Some d \<Rightarrow> d) (VDecision zero_Decision))))) \<and>
      (out = Returned None \<longrightarrow> (\<exists>v. result_of js h ''Ship'' 1 (VString '''') = Some (None, v))))"
  by (rule conjI [OF impI [OF TestWorkflow_ships [OF _ assms]]
        conjI [OF impI [OF TestTimerWorkflow_ships [OF _ assms]] impI [OF ApprovalWorkflow_ships [OF _ assms]]]])

definition pizza_json :: "pizza_value json" where
  "pizza_json = \<lparr>json_Marshal = (\<lambda>_. Inr ''{}''), json_Unmarshal = (\<lambda>b v. (None, case v of
     VStock _ \<Rightarrow> VStock \<lparr>Available = True, Item = b\<rparr> | VCharge _ \<Rightarrow> VCharge \<lparr>Charged = True, Amount = 100\<rparr> | _ \<Rightarrow> v))\<rparr>"

definition pizza_event :: "string \<Rightarrow> nat \<Rightarrow> HistoryEvent" where
  "pizza_event name i = \<lparr>he_EventId = 1, he_EventType = ''ActivityCompleted'', he_ActivityName = name,
     he_ActivityIndex = word_of_nat i, he_Data = Some ''pie'', he_TimerIndex = 0, he_SignalName = []\<rparr>"

theorem workflow_gates_witness:
  "(let h = [pizza_event ''CheckStock'' 0, pizza_event ''ChargeCard'' 1] in
    ''Ship'' \<in> scheduled (snd (replay pizza_json (TestWorkflow (VOrder zero_Order)) (New h ''test''))) \<and>
    (\<exists>v. result_of pizza_json h ''ChargeCard'' 1 (VCharge zero_Charge) = Some (None, v) \<and> Charged (as_charge v)))"
proof -
  let ?h = "[pizza_event ''CheckStock'' 0, pizza_event ''ChargeCard'' 1]"
  let ?r = "replay pizza_json (TestWorkflow (VOrder zero_Order)) (New ?h ''test'')"
  have "list_ex (\<lambda>d. pc_ActivityName d = ''Ship'' \<and> pc_Type d = ''ScheduleActivity'') (Commands (snd ?r))" by code_simp
  then have s: "''Ship'' \<in> scheduled (snd ?r)" unfolding scheduled_member list_ex_iff .
  have "replay pizza_json (TestWorkflow (VOrder zero_Order)) (New ?h ''test'') = (fst ?r, snd ?r)" by simp
  with workflow_gates [OF disjI1 [OF s], THEN conjunct1, THEN mp] have
    "\<exists>v. result_of pizza_json ?h ''ChargeCard'' 1 (VCharge zero_Charge) = Some (None, v) \<and> Charged (as_charge v)" by blast
  with s show ?thesis unfolding Let_def by (rule conjI)
qed

section \<open>The registrations\<close>

lemma example_worker_functions:
  "example_worker uuid = Some \<lparr>wk_id = uuid, wk_queue = ''test'',
     wk_workflowFunctions = [''TestWorkflow'' \<mapsto> (VOrder zero_Order, TestWorkflow),
       ''TestTimerWorkflow'' \<mapsto> (VOrder zero_Order, TestTimerWorkflow), ''ApprovalWorkflow'' \<mapsto> (VOrder zero_Order, ApprovalWorkflow)],
     wk_activityFunctions = [''CheckStock'' \<mapsto> (VOrder zero_Order, CheckStock),
       ''ChargeCard'' \<mapsto> (VStock zero_Stock, ChargeCard), ''Ship'' \<mapsto> (VCharge zero_Charge, Ship)]\<rparr>"
  by (simp add: example_worker_def NewWorker_def function_name_def Let_def)

lemma example_workflows_schedule:
  assumes "body \<in> {TestWorkflow, TestTimerWorkflow, ApprovalWorkflow}" and "replay js (body v) (New h q) = (out, c)"
  shows "scheduled c \<subseteq> {''CheckStock'', ''ChargeCard'', ''Ship''}"
proof -
  from assms(1) consider "body = TestWorkflow" | "body = TestTimerWorkflow" | "body = ApprovalWorkflow" by blast
  then show ?thesis
  proof cases
    case 1
    with assms(2) TestWorkflow_gates [THEN conjunct1, of js v h q out c] show ?thesis by blast
  next
    case 2
    with assms(2) TestTimerWorkflow_gates [THEN conjunct1, of js v h q out c] show ?thesis by blast
  next
    case 3
    with assms(2) ApprovalWorkflow_gates [THEN conjunct1, of js v h q out c] show ?thesis by blast
  qed
qed

section \<open>What the front end starts\<close>

lemma start_over_connection:
  "Client_StartNewWorkflow (connect E) wid ty q input s = (case StartWorkflow wid ty q input E s of
     (Inl err, s') \<Rightarrow> (Inl (the (toStatus (Some err))), s')
   | (Inr rid, s') \<Rightarrow> (Inr rid, s'))"
proof -
  have none: "(toStatus (Some err) = None) = False" for err by simp
  then show ?thesis
    by (auto simp: Client_StartNewWorkflow_def connect_def call_def Handler_StartWorkflow_def bindM_def
      tryM_def returnM_def none simp del: toStatus.simps split: prod.splits sum.splits option.splits)
qed

lemma signal_over_connection:
  "snd (Client_SignalWorkflow (connect E) wid rid name input s) = snd (SignalWorkflow wid rid name input E s)"
  by (auto simp: Client_SignalWorkflow_def connect_def call_def Handler_SignalWorkflow_def bindM_def
      tryM_def returnM_def simp del: toStatus.simps split: prod.splits sum.splits option.splits)

text \<open>The executions that a call adds have the type and the queue given.\<close>

definition adds_executions :: "string \<Rightarrow> string \<Rightarrow> sess \<Rightarrow> sess \<Rightarrow> bool" where
  "adds_executions ty q s s' \<longleftrightarrow> (\<exists>xs. executions (tabs (s_store s')) = executions (tabs (s_store s)) @ xs \<and>
     (\<forall>x \<in> set xs. we_WorkflowType x = ty \<and> we_TaskQueue x = q))"

lemma adds_executions_refl [simp]: "adds_executions ty q s s"
  by (simp add: adds_executions_def)

lemma StartWorkflow_adds:
  assumes "serial E" and "StartWorkflow wid ty q input E s = (r, s')"
  shows "adds_executions ty q s s'"
proof -
  have row: "adds_executions ty q s s'" if "StartWorkflow_effect E s wid ty q input rid s'" for rid
    using StartWorkflow_rows [OF that] by (auto simp: adds_executions_def)
  show ?thesis
  proof (cases r)
    case (Inl err)
    with wpD [OF wp_StartWorkflow [OF assms(1)] assms(2)] row show ?thesis
      by (auto simp: quiet_def adds_executions_def)
  next
    case (Inr rid)
    with wpD [OF wp_StartWorkflow [OF assms(1)] assms(2)] row show ?thesis by auto
  qed
qed

lemma SignalWorkflow_executions:
  assumes "serial E" and "SignalWorkflow wid rid name input E s = (r, s')"
  shows "executions (tabs (s_store s')) = executions (tabs (s_store s))"
proof -
  have row: "executions (tabs (s_store s')) = executions (tabs (s_store s))"
    if "SignalWorkflow_effect E s wid rid name input s'" for rid
    using that by (auto simp: SignalWorkflow_effect_def committed_def signal_event_def new_event_def split: if_split_asm)
  from wpD [OF wp_SignalWorkflow [OF assms(1)] assms(2)] row show ?thesis
    by (cases r) (auto simp: quiet_def)
qed

lemma front_end_starts:
  assumes "serial E" and "ServeHTTP (api_mux d (connect E)) meth path body s = (r, s')"
  shows "\<exists>ty. adds_executions ty ''test'' s s' \<and> ty = (if path = ''/order'' then ''TestWorkflow'' else ''ApprovalWorkflow'')"
proof -
  have start: "adds_executions ty q s (snd (Client_StartNewWorkflow (connect E) wid ty q input s))" for wid ty q input
    using StartWorkflow_adds [OF assms(1)] by (auto simp: start_over_connection simp del: toStatus.simps split: prod.splits sum.splits)
  have signal: "adds_executions ty q s (snd (Client_SignalWorkflow (connect E) wid rid name input s))" for ty q wid rid name input
    using SignalWorkflow_executions [OF assms(1) surjective_pairing] by (simp add: signal_over_connection adds_executions_def)
  have s': "s' = snd (ServeHTTP (api_mux d (connect E)) meth path body s)" using assms(2) by simp
  have "s' = s" if "meth \<noteq> ''POST'' \<or> path \<notin> {''/test'', ''/approve'', ''/order''}"
  proof (cases "path \<in> {''/test'', ''/approve'', ''/order''}")
    case True
    with that have "meth \<noteq> ''POST''" by blast
    with assms(2) show ?thesis by (simp add: api_mux_other(1) [OF _ True])
  next
    case False
    with assms(2) show ?thesis by (simp add: api_mux_other(2))
  qed
  then consider "meth = ''POST''" "path = ''/test''" | "meth = ''POST''" "path = ''/approve''"
    | "meth = ''POST''" "path = ''/order''" | "s' = s" by blast
  then show ?thesis
  proof cases
    case 1
    with s' start [of "''ApprovalWorkflow''" "''test''"] show ?thesis
      by (auto simp: api_mux_route TestHandler_def split: sum.splits prod.splits) (metis snd_conv)+
  next
    case 2
    with s' signal [of "''ApprovalWorkflow''" "''test''"] show ?thesis
      by (auto simp: api_mux_route ApproveHandler_def Let_def split: sum.splits prod.splits) (metis snd_conv)+
  next
    case 3
    with s' start [of "''TestWorkflow''" "''test''"] show ?thesis
      by (auto simp: api_mux_route OrderHandler_def Let_def split: sum.splits prod.splits) (metis snd_conv)+
  qed simp
qed

definition pizza_decoders :: decoders where
  "pizza_decoders = \<lparr>json_Decode = (\<lambda>_. Inr \<lparr>OrderID = 7, Items = [''margherita'']\<rparr>), json_values = pizza_json,
     err_Error = (\<lambda>_. ''error'')\<rparr>"

text \<open>
  C39: the example worker and the example front end fit together. Each of the
  worker's three workflow functions and three activity functions is registered under its own name,
  with the zero value of its input. Any activity that one of its workflows schedules, on any input and history, is
  one of the three. And a request to the front end, whatever fails in the engine (which serves it without a concurrent
  transaction), adds no execution but of
  \<open>TestWorkflow\<close> (by \<open>/order\<close>) or \<open>ApprovalWorkflow\<close>, on the queue the worker polls; both are among
  the worker's.
\<close>

theorem example_worker_complete:
  assumes "example_worker uuid = Some w"
  shows "wk_queue w = ''test'' \<and>
    wk_workflowFunctions w = [''TestWorkflow'' \<mapsto> (VOrder zero_Order, TestWorkflow),
      ''TestTimerWorkflow'' \<mapsto> (VOrder zero_Order, TestTimerWorkflow), ''ApprovalWorkflow'' \<mapsto> (VOrder zero_Order, ApprovalWorkflow)] \<and>
    wk_activityFunctions w = [''CheckStock'' \<mapsto> (VOrder zero_Order, CheckStock),
      ''ChargeCard'' \<mapsto> (VStock zero_Stock, ChargeCard), ''Ship'' \<mapsto> (VCharge zero_Charge, Ship)] \<and>
    (\<forall>ty zero body v h q out c. wk_workflowFunctions w ty = Some (zero, body) \<longrightarrow> replay js (body v) (New h q) = (out, c) \<longrightarrow>
       scheduled c \<subseteq> dom (wk_activityFunctions w)) \<and>
    (\<forall>E d meth path body s r s'. serial E \<longrightarrow> ServeHTTP (api_mux d (connect E)) meth path body s = (r, s') \<longrightarrow>
       (\<exists>ty \<in> dom (wk_workflowFunctions w). adds_executions ty (wk_queue w) s s' \<and>
          ty = (if path = ''/order'' then ''TestWorkflow'' else ''ApprovalWorkflow'')))"
proof -
  from assms have "w = the (example_worker uuid)" by simp
  then have q: "wk_queue w = ''test''"
    and f: "wk_workflowFunctions w = [''TestWorkflow'' \<mapsto> (VOrder zero_Order, TestWorkflow),
       ''TestTimerWorkflow'' \<mapsto> (VOrder zero_Order, TestTimerWorkflow), ''ApprovalWorkflow'' \<mapsto> (VOrder zero_Order, ApprovalWorkflow)]"
    and a: "wk_activityFunctions w = [''CheckStock'' \<mapsto> (VOrder zero_Order, CheckStock),
       ''ChargeCard'' \<mapsto> (VStock zero_Stock, ChargeCard), ''Ship'' \<mapsto> (VCharge zero_Charge, Ship)]"
    by (simp_all only: example_worker_functions option.sel Worker.select_convs)
  have "scheduled c \<subseteq> dom (wk_activityFunctions w)"
    if "wk_workflowFunctions w ty = Some (zero, body)" "replay js (body v) (New h q) = (out, c)" for ty zero body v h q out c
  proof -
    from that(1) have "body \<in> {TestWorkflow, TestTimerWorkflow, ApprovalWorkflow}"
      unfolding f by (simp split: if_split_asm)
    with example_workflows_schedule [of body js v h q out c] that(2) show ?thesis unfolding a by auto
  qed
  moreover have "\<exists>ty \<in> dom (wk_workflowFunctions w). adds_executions ty (wk_queue w) s s' \<and>
      ty = (if path = ''/order'' then ''TestWorkflow'' else ''ApprovalWorkflow'')"
    if "serial E" "ServeHTTP (api_mux d (connect E)) meth path body s = (r, s')" for E d meth path body s r s'
    using front_end_starts [OF that] unfolding f q by auto
  ultimately show ?thesis using q f a by blast
qed

theorem example_worker_complete_witness:
  "\<exists>w. example_worker ''id'' = Some w \<and> wk_workflowFunctions w ''ApprovalWorkflow'' = Some (VOrder zero_Order, ApprovalWorkflow) \<and>
     wk_activityFunctions w ''Ship'' = Some (VCharge zero_Charge, Ship) \<and>
     adds_executions ''TestWorkflow'' (wk_queue w) sample_init
       (snd (ServeHTTP (api_mux pizza_decoders (connect sample_env)) ''POST'' ''/order'' [] sample_init))"
proof -
  obtain w where w: "example_worker ''id'' = Some w" using example_worker_functions by blast
  have "adds_executions ''TestWorkflow'' (wk_queue w) sample_init
      (snd (ServeHTTP (api_mux pizza_decoders (connect sample_env)) ''POST'' ''/order'' [] sample_init))"
    using example_worker_complete [OF w, THEN conjunct2, THEN conjunct2, THEN conjunct2, THEN conjunct2,
      rule_format, OF sample_env_ok(1) surjective_pairing, where d = pizza_decoders and meth = "''POST''" and path = "''/order''"
      and body = "[]" and s = sample_init] by auto
  with w example_worker_complete [OF w] show ?thesis by auto
qed

text \<open>\<open>TestHandler\<close> answers every request with code 200, whether or not a workflow was started.\<close>

lemma TestHandler_code: "http_code (fst (TestHandler d c body s)) = 200"
  by (auto simp: TestHandler_def w_Write_def split: sum.splits prod.splits)

section \<open>An order\<close>

text \<open>
  C24: what a request to \<open>/order\<close> of the example API leaves in the engine, which
  serves it without a concurrent transaction, over a connection that reports the outcome of every commit. An answer with code 200 means that it was a
  \<open>POST\<close>, that the body was an order, and that in one
  commit the engine has a new running execution of \<open>TestWorkflow\<close> under the ID of that order, which
  no order with another number shares, with the marshalled order as the data of its first event, and a workflow
  task on the queue of the example worker. Any other answer, 400, 500, or 405 for every other method,
  means that no table and no counter has changed.
\<close>

theorem order_accepted:
  assumes "serial E" and "acknowledged E" and "ServeHTTP (api_mux d (connect E)) meth ''/order'' body s = (r, s')"
  defines "T \<equiv> tabs (s_store s)" and "T' \<equiv> tabs (s_store s')"
  shows "(if meth = ''POST'' then http_code r \<in> {400, 500} else http_code r = 405) \<and> T' = T \<and> s_metrics s' = s_metrics s \<or>
    meth = ''POST'' \<and> http_code r = 200 \<and> (\<exists>order b rid u. json_Decode d body = Inr order \<and>
      json_Marshal (json_values d) (VOrder order) = Inr b \<and> e_uuid E rid = Some u \<and>
      (\<forall>i. ''order-'' @ format_d i = ''order-'' @ format_d (OrderID order) \<longleftrightarrow> i = OrderID order) \<and>
      http_body r = ''workflowID:order-'' @ format_d (OrderID order) @ '' runID:'' @ rid \<and>
      executions T' = executions T @ [\<lparr>we_WorkflowID = ''order-'' @ format_d (OrderID order), we_RunID = u,
        we_WorkflowType = ''TestWorkflow'', we_TaskQueue = ''test'', we_Status = ''Running'',
        we_StartedAt = e_db_now E (s_tick s), we_ClosedAt = None\<rparr>] \<and>
      (\<exists>e. events T' = events T @ [e] \<and> is_event_of (''order-'' @ format_d (OrderID order)) u e \<and>
        ev_EventID e = 1 \<and> ev_EventType e = ''WorkflowStarted'' \<and> ev_Data e = Some b) \<and>
      (\<exists>t. tasks T' = tasks T @ [t] \<and> t_WorkflowID t = ''order-'' @ format_d (OrderID order) \<and> t_RunID t = u \<and>
        t_TaskType t = ''workflow'' \<and> t_TaskQueue t = ''test'' \<and> t_WorkflowType t = ''TestWorkflow'' \<and> t_LeaseOwner t = None) \<and>
      timers T' = timers T)"
proof (cases "meth = ''POST''")
  case False
  with assms(3) api_mux_other(1) [of meth "''/order''" d "connect E" body s] show ?thesis by (auto simp: http_Error_def T_def T'_def)
next
  case post: True
  with assms(3) have posted: "OrderHandler d (connect E) body s = (r, s')" by (simp add: api_mux_route)
  show ?thesis
  proof (cases "json_Decode d body")
    case (Inl err)
    with posted show ?thesis by (auto simp: post OrderHandler_def http_Error_def T_def T'_def)
  next
    case order: (Inr order)
    show ?thesis
    proof (cases "json_Marshal (json_values d) (VOrder order)")
      case (Inl err)
      with order posted show ?thesis by (auto simp: post OrderHandler_def http_Error_def T_def T'_def)
    next
      case b: (Inr b)
      let ?wid = "''order-'' @ format_d (OrderID order)"
      obtain x s1 where x: "StartWorkflow ?wid ''TestWorkflow'' ''test'' (Some b) E s = (x, s1)" by fastforce
      show ?thesis
      proof (cases x)
        case (Inl err)
        from StartWorkflow_rolls_back assms(1,2)
        have "wp (StartWorkflow ?wid ''TestWorkflow'' ''test'' (Some b)) E s (\<lambda>_ _. True) (\<lambda>_. quiet s)"
          unfolding rolls_back_def by blast
        from wpD [OF this x] Inl have "quiet s s1" by simp
        with posted order b x Inl show ?thesis
          by (auto simp: post OrderHandler_def start_over_connection http_Error_def quiet_def T_def T'_def)
      next
        case (Inr rid)
        from wpD [OF wp_StartWorkflow [OF assms(1)] x] Inr
        have "StartWorkflow_effect E s ?wid ''TestWorkflow'' ''test'' (Some b) rid s1" by simp
        from StartWorkflow_rows [OF this] posted order b x Inr show ?thesis
          by (auto simp: post OrderHandler_def start_over_connection w_Write_def T_def T'_def format_d_inject)
      qed
    qed
  qed
qed

theorem order_accepted_witness:
  "http_code (fst (ServeHTTP (api_mux pizza_decoders (connect sample_env)) ''POST'' ''/order'' [] sample_init)) = 200 \<and>
   length (executions (tabs (s_store (snd (ServeHTTP (api_mux pizza_decoders (connect sample_env)) ''POST'' ''/order'' [] sample_init))))) = 1"
proof (rule conjI)
  let ?r = "ServeHTTP (api_mux pizza_decoders (connect sample_env)) ''POST'' ''/order'' [] sample_init"
  show c: "http_code (fst ?r) = 200" by code_simp
  have n: "executions (tabs (s_store sample_init)) = []" by code_simp
  have "acknowledged sample_env" by (simp add: acknowledged_def sample_env_def)
  from order_accepted [OF sample_env_ok(1) this surjective_pairing, where d = pizza_decoders and meth = "''POST''" and body = "[]" and s = sample_init] c n
  show "length (executions (tabs (s_store (snd ?r)))) = 1" by auto
qed

end
