(* ===== verification/BootProperties.thy ===== *)
theory BootProperties
  imports Boot Counting Samples
begin

text \<open>
  What a start of the engine process needs before it serves, and what the next process finds.
\<close>

lemma served_when_started:
  "snd (engine_main B bg sched) \<noteq> None \<longleftrightarrow>
     (\<exists>st. RunMigrations B (connection_string B) = Inr st) \<and> pgxpool_New B (connection_string B) = None \<and>
     pool_Ping B = None \<and> distinct (runtime_collectors B) \<and>
     set (runtime_collectors B) \<inter> set (map fst collectors) = {}"
  by (auto simp: engine_main_def Let_def MustRegister_if Metrics_New_if
    split: sum.splits option.splits prod.splits start_result.splits)

lemma finished_when_served:
  "fst (engine_main B bg sched) = Finished \<longleftrightarrow> snd (engine_main B bg sched) \<noteq> None \<and>
     net_Listen B grpcAddr = None \<and> distinct (server_collectors B) \<and>
     set (server_collectors B) \<inter> (set (runtime_collectors B) \<union> set (map fst collectors)) = {} \<and> srv_Serve B = None"
  by (auto simp: engine_main_def Let_def MustRegister_if Metrics_New_if Start_def
    split: sum.splits option.splits prod.splits)

text \<open>
  The engine serves, and has counters, only after the migrations ran, the
  pool was created, the database answered a ping and the collectors of the runtime were registered
  without a name of the engine's own; a process that did not get that far has exited with code 1 or
  panicked. It ends normally exactly if moreover it could listen, no collector's name of the server
  was taken, and the server stopped without an error.
\<close>

lemma engine_starts_in_order:
  "(snd (engine_main B bg sched) \<noteq> None \<longleftrightarrow>
     (\<exists>st. RunMigrations B (connection_string B) = Inr st) \<and> pgxpool_New B (connection_string B) = None \<and>
     pool_Ping B = None \<and> distinct (runtime_collectors B) \<and>
     set (runtime_collectors B) \<inter> set (map fst collectors) = {}) \<and>
   (fst (engine_main B bg sched) = Finished \<longleftrightarrow> snd (engine_main B bg sched) \<noteq> None \<and>
     net_Listen B grpcAddr = None \<and> distinct (server_collectors B) \<and>
     set (server_collectors B) \<inter> (set (runtime_collectors B) \<union> set (map fst collectors)) = {} \<and> srv_Serve B = None) \<and>
   fst (engine_main B bg sched) \<in> {Exit 1, Panics, Finished}"
proof -
  have "fst (engine_main B bg sched) \<in> {Exit 1, Panics, Finished}"
    by (auto simp: engine_main_def Let_def split: sum.splits option.splits prod.splits start_result.splits)
  then show ?thesis using served_when_started [of B bg sched] finished_when_served [of B bg sched] by blast
qed

lemma migrated_store:
  assumes "migrates before B" and "RunMigrations B connStr = Inr st"
  shows "before = None \<and> st = init_store \<or> before = Some st"
  using assms by (auto simp: migrates_def RunMigrations_def split: option.splits prod.splits up_error.splits)

text \<open>The session a process starts from, by what the database holds: its tables, and counters of its own.\<close>

definition fresh_session :: "store option \<Rightarrow> sess" where
  "fresh_session before = \<lparr>s_store = (case before of None \<Rightarrow> init_store | Some st \<Rightarrow> st), s_metrics = zero_metrics,
     s_tick = 0, s_txn = None\<rparr>"

lemma Start_runs: "snd (Start B reg sched s) \<in> {s, run_steps sched s}"
  by (auto simp: Start_def split: option.splits)

lemma served_session:
  assumes "migrates before B" and "engine_main B bg sched = (e, Some s)"
  shows "s = run_steps (map tick bg) (fresh_session before) \<or> s = run_steps (map tick bg @ sched) (fresh_session before)"
proof -
  have "\<exists>st reg. RunMigrations B (connection_string B) = Inr st \<and>
      snd (Start B reg sched (run_steps (map tick bg) \<lparr>s_store = st, s_metrics = zero_metrics, s_tick = 0, s_txn = None\<rparr>)) = s"
    using assms(2) by (auto simp: engine_main_def Let_def Metrics_New_if
        split: sum.splits option.splits prod.splits start_result.splits if_splits) (metis snd_conv)+
  then obtain st reg where st: "RunMigrations B (connection_string B) = Inr st"
    and s: "s = snd (Start B reg sched (run_steps (map tick bg) \<lparr>s_store = st, s_metrics = zero_metrics, s_tick = 0, s_txn = None\<rparr>))"
    by blast
  from migrated_store [OF assms(1) st]
  have "\<lparr>s_store = st, s_metrics = zero_metrics, s_tick = 0, s_txn = None\<rparr> = fresh_session before"
    by (auto simp: fresh_session_def)
  with s Start_runs [of B reg sched "run_steps (map tick bg) (fresh_session before)"] show ?thesis
    by (auto simp: run_steps_append)
qed

section \<open>What a run of steps carries on\<close>

text \<open>Nothing of the history is lost, and the counters have moved by what was added to it.\<close>

definition carries_on :: "bool \<Rightarrow> sess \<Rightarrow> sess \<Rightarrow> bool" where
  "carries_on ack s0 s \<longleftrightarrow>
     (\<exists>new. events (tabs (s_store s)) = events (tabs (s_store s0)) @ new \<and>
        (\<forall>ty. counter ty (s_metrics s) \<le> counter ty (s_metrics s0) + of_type ty new \<and>
           (ack \<longrightarrow> counter ty (s_metrics s) = counter ty (s_metrics s0) + of_type ty new))) \<and>
     (\<exists>xs. map identity_of (executions (tabs (s_store s))) = map identity_of (executions (tabs (s_store s0))) @ xs) \<and>
     (\<forall>x \<in> set (executions (tabs (s_store s0))). we_Status x \<noteq> ''Running'' \<longrightarrow> x \<in> set (executions (tabs (s_store s))))"

lemma carries_on_refl: "carries_on ack s s"
  by (simp add: carries_on_def)

lemma carries_on_trans:
  assumes "carries_on ack s0 s1" and "carries_on ack s1 s2"
  shows "carries_on ack s0 s2"
proof -
  from assms obtain es es' where es: "events (tabs (s_store s1)) = events (tabs (s_store s0)) @ es"
    "\<And>ty. counter ty (s_metrics s1) \<le> counter ty (s_metrics s0) + of_type ty es"
    "\<And>ty. ack \<Longrightarrow> counter ty (s_metrics s1) = counter ty (s_metrics s0) + of_type ty es"
    and es': "events (tabs (s_store s2)) = events (tabs (s_store s1)) @ es'"
    "\<And>ty. counter ty (s_metrics s2) \<le> counter ty (s_metrics s1) + of_type ty es'"
    "\<And>ty. ack \<Longrightarrow> counter ty (s_metrics s2) = counter ty (s_metrics s1) + of_type ty es'"
    unfolding carries_on_def by metis
  have le: "counter ty (s_metrics s2) \<le> counter ty (s_metrics s0) + of_type ty (es @ es')" for ty
    using es(2) [of ty] es'(2) [of ty] by simp
  have eq: "counter ty (s_metrics s2) = counter ty (s_metrics s0) + of_type ty (es @ es')" if ack for ty
    using es(3) [OF that, of ty] es'(3) [OF that, of ty] by simp
  have "events (tabs (s_store s2)) = events (tabs (s_store s0)) @ es @ es'" using es(1) es'(1) by simp
  moreover have "\<exists>xs. map identity_of (executions (tabs (s_store s2))) = map identity_of (executions (tabs (s_store s0))) @ xs"
    using assms unfolding carries_on_def by fastforce
  moreover have "\<forall>x \<in> set (executions (tabs (s_store s0))). we_Status x \<noteq> ''Running'' \<longrightarrow> x \<in> set (executions (tabs (s_store s2)))"
    using assms unfolding carries_on_def by blast
  ultimately show ?thesis using le eq unfolding carries_on_def by metis
qed

lemma carries_on_serve:
  assumes "serial E" and "uuid_ok E" and "wf_store (e_uuid E) (s_store s)" and "ack \<Longrightarrow> acknowledged E"
  shows "carries_on ack s (serve q E s)"
proof -
  note step = serve_step [OF assms(1-3), of q]
  from engine_step_events [OF step] obtain new where new: "events (tabs (s_store (serve q E s))) = events (tabs (s_store s)) @ new" by blast
  from serve_keeps_count [OF assms(1), of s q] assms(4) new
  have "counter ty (s_metrics (serve q E s)) \<le> counter ty (s_metrics s) + of_type ty new \<and>
      (ack \<longrightarrow> counter ty (s_metrics (serve q E s)) = counter ty (s_metrics s) + of_type ty new)" for ty
    unfolding keeps_count_def behind_def exact_def by (auto simp del: serve.simps dest!: spec [of _ ty])
  with new engine_step_executions [OF step] engine_step_terminal [OF step assms(3)] show ?thesis
    unfolding carries_on_def by blast
qed

lemma run_steps_carries_on:
  assumes "allowed U ok sched s" and "wf_store U (s_store s)" and "ack \<Longrightarrow> \<forall>E s q. ok E s q \<longrightarrow> acknowledged E"
  shows "wf_store U (s_store (run_steps sched s)) \<and> carries_on ack s (run_steps sched s)"
  using assms(1,2)
proof (induction sched arbitrary: s)
  case (Cons x sched)
  obtain q E where x: "x = (q, E)" by fastforce
  with Cons.prems have E: "serial E" "uuid_ok E" "e_uuid E = U" "ok E s q" "allowed U ok sched (serve q E s)"
    and wf: "wf_store (e_uuid E) (s_store s)" by (auto simp del: serve.simps)
  from assms(3) E(4) have "carries_on ack s (serve q E s)" by (intro carries_on_serve [OF E(1,2) wf]) blast
  moreover have "wf_store U (s_store (serve q E s))"
    using engine_step_wf [OF serve_step [OF E(1,2) wf] wf] E(3) by simp
  ultimately show ?case using Cons.IH [OF E(5)] carries_on_trans x by auto
qed (simp add: carries_on_refl)

lemma run_steps_dense:
  assumes "allowed U ok sched s" and "wf_store U (s_store s)" and "dense (tabs (s_store s))"
    and "\<forall>E s q. ok E s q \<longrightarrow> numbering_ok E s q"
  shows "dense (tabs (s_store (run_steps sched s)))"
  using assms(1-3)
proof (induction sched arbitrary: s)
  case (Cons x sched)
  obtain q E where x: "x = (q, E)" by fastforce
  with Cons.prems have E: "serial E" "uuid_ok E" "e_uuid E = U" "ok E s q" "allowed U ok sched (serve q E s)"
    and wf: "wf_store (e_uuid E) (s_store s)" by (auto simp del: serve.simps)
  have "wf_store U (s_store (serve q E s))"
    using engine_step_wf [OF serve_step [OF E(1,2) wf] wf] E(3) by simp
  moreover have "dense (tabs (s_store (serve q E s)))"
    using serve_dense [OF E(1,2) wf] assms(4) E(4) Cons.prems(3) by blast
  ultimately show ?case using Cons.IH [OF E(5)] x by (simp del: serve.simps)
qed simp

lemma allowed_prefix: "allowed U ok (xs @ ys) s \<Longrightarrow> allowed U ok xs s"
  by (simp add: allowed_append)

text \<open>
  C15: an engine process takes up where the last one stopped. Let it start on a database
  that is empty, or that holds well-formed tables, and let it serve requests and ticks one after another, with a
  database that reads UUIDs alike throughout. Then, however it ends, every event it found is still there, in its place and before the new ones; every
  execution it found has kept its type, queue and start time, and is unchanged if it was closed; and the tables are well formed again.
  The counters, though, are of the process: they start at zero and never claim more than the events the
  process itself has added, and exactly these if no reply to a COMMIT was lost. If the histories were numbered
  1, 2, 3, ... at the start, and the requests and ticks keep to the discipline the numbering needs, they are at the end.
\<close>

theorem engine_restarts:
  assumes "migrates before B" and "before = None \<or> (\<exists>st. before = Some st \<and> wf_store U st)"
    and "allowed U ok (map tick bg @ sched) (fresh_session before)"
    and "engine_main B bg sched = (e, Some s)"
  defines "T0 \<equiv> tabs (s_store (fresh_session before))" and "T \<equiv> tabs (s_store s)"
  shows "wf_store U (s_store s) \<and>
    (\<exists>new. events T = events T0 @ new \<and> (\<forall>ty. counter ty (s_metrics s) \<le> of_type ty new \<and>
       ((\<forall>E s q. ok E s q \<longrightarrow> acknowledged E) \<longrightarrow> counter ty (s_metrics s) = of_type ty new))) \<and>
    (\<exists>xs. map identity_of (executions T) = map identity_of (executions T0) @ xs) \<and>
    (\<forall>x \<in> set (executions T0). we_Status x \<noteq> ''Running'' \<longrightarrow> x \<in> set (executions T)) \<and>
    ((\<forall>E s q. ok E s q \<longrightarrow> numbering_ok E s q) \<and> dense T0 \<longrightarrow> dense T)"
proof -
  let ?s0 = "fresh_session before" and ?ack = "\<forall>E s q. ok E s q \<longrightarrow> acknowledged E"
  obtain steps where steps: "s = run_steps steps ?s0" "allowed U ok steps ?s0"
    using served_session [OF assms(1,4)] assms(3) allowed_prefix by blast
  have wf: "wf_store U (s_store ?s0)" using assms(2) by (auto simp: init_wf fresh_session_def)
  have zero: "counter ty (s_metrics ?s0) = 0" for ty by (simp add: fresh_session_def counter_def zero_metrics_def)
  from run_steps_carries_on [OF steps(2) wf, of ?ack] steps(1) have "wf_store U (s_store s)" "carries_on ?ack ?s0 s" by blast+
  moreover have "dense T" if "\<forall>E s q. ok E s q \<longrightarrow> numbering_ok E s q" "dense T0"
    using run_steps_dense [OF steps(2) wf] that steps(1) unfolding T0_def T_def by blast
  ultimately show ?thesis unfolding carries_on_def zero T0_def T_def by simp
qed

definition sample_boot :: boot where
  "sample_boot = \<lparr>os_Getenv = (\<lambda>_. ''''), iofs_New = None, migrate_NewWithSourceInstance = (\<lambda>_. None),
     migrate_Up = (Some ErrNoChange, s_store sample_started), pgxpool_New = (\<lambda>_. None), pool_Ping = None,
     runtime_collectors = [''go_goroutines''], net_Listen = (\<lambda>_. None), server_collectors = [''grpc_server_started_total''],
     srv_Serve = None\<rparr>"

text \<open>The second process finds one started workflow, and is asked to start another: it counts one.\<close>

theorem engine_restarts_witness:
  "\<exists>s. snd (engine_main sample_boot [(Scan, sample_env)] [(RStart (sample_start\<lparr>swq_WorkflowId := ''v''\<rparr>), sample_env)]) = Some s \<and>
     wf_store (e_uuid sample_env) (s_store s) \<and> counter ''WorkflowStarted'' (s_metrics s) = 1 \<and>
     of_type ''WorkflowStarted'' (events (tabs (s_store s))) = 2 \<and> dense (tabs (s_store s))"
proof -
  let ?sched = "[(RStart (sample_start\<lparr>swq_WorkflowId := ''v''\<rparr>), sample_env)]" and ?ok = "\<lambda>E s q. numbering_ok E s q \<and> acknowledged E"
  let ?r = "engine_main sample_boot [(Scan, sample_env)] ?sched"
  have "snd ?r \<noteq> None" by code_simp
  then obtain s where s: "snd ?r = Some s" by blast
  then have r: "?r = (fst ?r, Some s)" by (metis surjective_pairing)
  have n: "counter ''WorkflowStarted'' (s_metrics (the (snd ?r))) = 1" 
    "of_type ''WorkflowStarted'' (events (tabs (s_store (the (snd ?r))))) = 2" by code_simp+
  have m: "migrates (Some (s_store sample_started)) sample_boot" by (simp add: migrates_def sample_boot_def)
  have d: "single_due sample_env (fresh_session (Some (s_store sample_started)))"
    by code_simp
  have "acknowledged sample_env" by (simp add: acknowledged_def sample_env_def)
  with d have a: "allowed (e_uuid sample_env) ?ok (map tick [(Scan, sample_env)] @ ?sched) (fresh_session (Some (s_store sample_started)))"
    by (simp del: serve.simps add: sample_env_ok)
  have w: "Some (s_store sample_started) = None \<or> (\<exists>st. Some (s_store sample_started) = Some st \<and> wf_store (e_uuid sample_env) st)"
    using sample_wf by blast
  have t: "tabs (s_store (fresh_session (Some (s_store sample_started)))) = tabs (s_store sample_started)" by (simp add: fresh_session_def)
  from engine_restarts [OF m w a r, unfolded t] sample_dense
  have "wf_store (e_uuid sample_env) (s_store s)" "dense (tabs (s_store s))" by blast+
  with s n show ?thesis by auto
qed

end
