(* ===== verification/Anomalies.thy ===== *)
theory Anomalies
  imports Samples
begin

text \<open>
  Executions in which the code does not do what it means to: each lemma runs the operations on a concrete
  database, without any failure, and shows what is left. They mark the limits of the properties,
  which state the discipline (one due timer per run and scan, terminal commands last, a task answered
  once) under which these executions do not occur.
\<close>

definition history_of :: "sess \<Rightarrow> (int \<times> string) list" where
  "history_of s = map (\<lambda>e. (ev_EventID e, ev_EventType e)) (events (tabs (s_store s)))"

definition running_runs :: "sess \<Rightarrow> string list" where
  "running_runs s = map we_RunID (filter (\<lambda>x. we_Status x = ''Running'') (executions (tabs (s_store s))))"

text \<open>
  A signal that arrives while a worker holds the workflow task queues no second task, and the
  worker's answer removes the first: the run is still running and nothing will replay it.
\<close>

lemma signal_wakes_nobody:
  "let polled = snd (PollTask ''q'' ''workflow'' ''me'' sample_env sample_started);
       signalled = snd (SignalWorkflow ''w'' '''' ''go'' None sample_env polled);
       answered = snd (CompleteWorkflowTask 1 ''w'' sample_run [] sample_env signalled)
   in history_of answered = [(1, ''WorkflowStarted''), (2, ''SignalReceived'')] \<and>
      running_runs answered = [sample_run] \<and> tasks (tabs (s_store answered)) = []"
  by code_simp

text \<open>Two timers of one run that fire in the same scan get the same event ID.\<close>

lemma timers_share_event_id:
  "let sleeping = snd (CompleteWorkflowTask 1 ''w'' sample_run [start_timer 0 5, start_timer 1 5] sample_env sample_started)
   in history_of (snd (ScanTimers (late_env (10 ^ 10)) sleeping)) =
     [(1, ''WorkflowStarted''), (2, ''TimerStarted''), (3, ''TimerStarted''), (4, ''TimerFired''), (4, ''TimerFired'')]"
  by code_simp

text \<open>An answer to a workflow task that is gone is applied all the same: the activity is scheduled twice.\<close>

lemma stale_answer_applied:
  "let once = snd (CompleteWorkflowTask 1 ''w'' sample_run [schedule ''A'' 0] sample_env sample_started);
       again = snd (CompleteWorkflowTask 1 ''w'' sample_run [schedule ''A'' 0] sample_env once)
   in history_of again = [(1, ''WorkflowStarted''), (2, ''ActivityScheduled''), (3, ''ActivityScheduled'')] \<and>
      map (\<lambda>t. (t_ActivityName t, t_ActivityIndex t)) (tasks (tabs (s_store again))) = [(''A'', 0), (''A'', 0)]"
  by code_simp

text \<open>The result of an activity is added behind the event that ended the workflow, and wakes it.\<close>

lemma completed_after_the_end:
  "let busy = snd (CompleteWorkflowTask 1 ''w'' sample_run [schedule ''A'' 0, zero_Command\<lparr>c_Type := ''FailWorkflow''\<rparr>]
         sample_env sample_started);
       late = snd (CompleteActivityTask 2 ''w'' sample_run None sample_env busy)
   in map snd (history_of late) = [''WorkflowStarted'', ''ActivityScheduled'', ''WorkflowFailed'', ''ActivityCompleted''] \<and>
      running_runs late = [] \<and> map t_TaskType (tasks (tabs (s_store late))) = [''workflow'']"
  by code_simp

text \<open>A command behind a terminal one gets the event ID of the terminal event.\<close>

lemma terminal_shares_event_id:
  "history_of (snd (CompleteWorkflowTask 1 ''w'' sample_run
       [zero_Command\<lparr>c_Type := ''CompleteWorkflow''\<rparr>, schedule ''A'' 0] sample_env sample_started)) =
     [(1, ''WorkflowStarted''), (2, ''WorkflowCompleted''), (2, ''ActivityScheduled'')]"
  by code_simp

definition activity_event :: "int \<Rightarrow> string \<Rightarrow> i32 \<Rightarrow> HistoryEvent" where
  "activity_event n ty i = \<lparr>he_EventId = n, he_EventType = ty, he_ActivityName = ''A'', he_ActivityIndex = i,
     he_Data = None, he_TimerIndex = 0, he_SignalName = ''''\<rparr>"

text \<open>Of two calls of one activity, one still open, none counts as pending.\<close>

lemma pending_by_name:
  "\<not> HasPendingActivities (New [activity_event 1 ''ActivityScheduled'' 0, activity_event 2 ''ActivityScheduled'' 1,
       activity_event 3 ''ActivityCompleted'' 0] ''q'') \<and>
   Get_loop (\<lparr>json_Marshal = Inr, json_Unmarshal = (\<lambda>b v. (None, b))\<rparr>) ''A'' 1 None
     [activity_event 1 ''ActivityScheduled'' 0, activity_event 2 ''ActivityScheduled'' 1,
       activity_event 3 ''ActivityCompleted'' 0] = None"
  by code_simp


section \<open>Overlapping transactions\<close>

text \<open>
  A session whose call number \<open>n\<close> finds that another engine has meanwhile run \<open>m\<close> to its end. The rows of
  \<open>events\<close> and the running execution of a workflow ID are under no constraint of the schema and no
  lock, so a decision made before is not made again.
\<close>

definition meanwhile :: "nat \<Rightarrow> 'a M \<Rightarrow> env" where
  "meanwhile n m = sample_env\<lparr>e_interfere := (\<lambda>k st. if k = n
     then s_store (snd (m sample_env \<lparr>s_store = st, s_metrics = zero_metrics, s_tick = 50, s_txn = None\<rparr>)) else st)\<rparr>"

text \<open>Two activities of one run that complete at the same time get the same event ID.\<close>

lemma overlapping_completions_share_event_id:
  "history_of (snd (CompleteActivityTask 2 ''w'' sample_run None
       (meanwhile (s_tick sample_two + 3) (CompleteActivityTask 3 ''w'' sample_run None)) sample_two)) =
     [(1, ''WorkflowStarted''), (2, ''ActivityScheduled''), (3, ''ActivityScheduled''),
      (4, ''ActivityCompleted''), (4, ''ActivityCompleted'')]"
  by code_simp

text \<open>Two starts of one workflow ID at the same time leave two running executions.\<close>

lemma overlapping_starts_both_run:
  "let twice = snd (StartWorkflow ''w'' ''T'' ''q'' None (meanwhile 3 (StartWorkflow ''w'' ''T'' ''q'' None)) sample_init)
   in length (running_runs twice) = 2 \<and> distinct (running_runs twice)"
  by code_simp

end
