(* ===== verification/Spec2Isabelle.thy ===== *)
theory Spec2Isabelle
  imports HistoryProperties ActivityProperties TaskProperties WorkerProperties SystemProperties
    InvariantProperties RefinementProperties FrontendProperties LivenessProperties DeliveryProperties
    LoopProperties ClusterProperties ExampleProperties BootProperties Anomalies
begin

text \<open>
  A verification library for the durable-execution engine in this repository: a small workflow
  engine over PostgreSQL (\<open>cmd/engine\<close>, \<open>internal\<close>), its Go SDK (\<open>sdk\<close>) and two programs that use
  it (\<open>examples\<close>).

  \<^bold>\<open>The program.\<close> A client starts a workflow; the engine stores an execution row, the first
  event of its history and a workflow task. A worker polls the task, replays the workflow function
  over the whole history and answers with commands (schedule an activity, start a timer, end the
  workflow). The engine appends an event for each command, inserts the activity task or the timer,
  and deletes the task it answers. Finished activities, fired timers and signals append further
  events and queue the next workflow task. Every operation is one database transaction, opened and
  rolled back the same way; two background loops reclaim expired leases and fire due timers.

  \<^bold>\<open>The theories\<close>, in the order in which they build on each other:
  \<^item> \<open>Prelude\<close>: Go types and error values, row order, list facts.
  \<^item> \<open>Model\<close>: the structs of \<open>internal/persistence/types.go\<close> and \<open>internal/history/types.go\<close>.
  \<^item> \<open>Metrics\<close>: \<open>internal/metrics/metrics.go\<close>.
  \<^item> \<open>Store\<close>: tables, SQL writes, transactions, and the effects Go code has on them. An operation
    is a function of an environment (faults, clocks, random numbers, row order and locks, commits
    of others) and a session (committed tables, sequences, counters, the open transaction).
  \<^item> \<open>Persistence\<close>: \<open>internal/persistence/persistence.go\<close>, a definition per method.
  \<^item> \<open>Retry\<close>: \<open>internal/history/retry.go\<close>, with binary64 rounding written out.
  \<^item> \<open>History\<close>: \<open>internal/history/history.go\<close>, a definition per method.
  \<^item> \<open>Frontend\<close>: \<open>internal/frontend/grpc\<close> (handlers, conversions, \<open>toStatus\<close>, interceptor).
  \<^item> \<open>Workflow\<close>: \<open>sdk/workflow/context.go\<close>; a workflow function is the tree of its SDK calls.
  \<^item> \<open>Worker\<close>: \<open>sdk/worker.go\<close> and \<open>sdk/client.go\<close>, connected to the engine's own handlers.
  \<^item> \<open>Engine\<close>: the loop bodies of \<open>cmd/engine/main.go\<close>, the step relation of the whole engine and its
    reachable states, across restarts of the process.
  \<^item> \<open>Loops\<close>: the endless loops of \<open>cmd/engine/main.go\<close> and \<open>sdk/worker.go\<close>, and \<open>Worker.Run\<close>.
  \<^item> \<open>Boot\<close>: \<open>main\<close> of \<open>cmd/engine/main.go\<close>, \<open>migrations/migrations.go\<close> and
    \<open>internal/frontend/server.go\<close>: the start of a process, what it serves and how it ends.
  \<^item> \<open>Cluster\<close>: the engine with its clients and any number of workers, interleaved call by call, with
    crashes, late, repeated and lost answers.
  \<^item> \<open>Examples\<close>: the workflows and activities of \<open>examples/worker/main.go\<close> as trees of SDK calls, and the
    HTTP handlers of \<open>examples/api/main.go\<close>.
  \<^item> \<open>Programs\<close>: the \<open>main\<close> functions of both, \<open>NewClient\<close> of \<open>sdk/client.go\<close>, the metrics endpoint of
    \<open>cmd/engine/main.go\<close> and the engine of the tests (\<open>internal/testutil/postgres.go\<close>).

  \<^bold>\<open>How the proofs are organised.\<close> \<open>Effects\<close> is a weakest-precondition calculus for the effectful
  operations and a rule for each method of \<open>Persistence\<close>; \<open>HistoryEffects\<close> derives from it, for
  each method of \<open>History\<close>, the list of writes that a successful call commits, and \<open>LogTables\<close> what
  these writes make of the tables. Three contracts are locales: \<open>engine_operation\<close> (\<open>WellFormed\<close>:
  what an operation commits is a legal step that keeps the tables well formed),
  \<open>numbering_operation\<close> (\<open>Numbering\<close>: it keeps the event numbers of every run dense), both
  interpreted for every operation of the engine, its handlers and its loops; and
  \<open>request_invariant\<close> (\<open>Invariants\<close>: a property of the tables that every committed request keeps
  holds in every reachable state), interpreted for the numbering, for the conservation of
  activities and timers (\<open>Conservation\<close>), for the uniqueness of the running execution
  (\<open>Executions\<close>) and for what a run keeps all its life (\<open>Runs\<close>). \<open>Refinement\<close> holds the abstract
  engine, a log of facts per run without tables, tasks or SQL, and shows that each request of the
  engine is a step of it. \<open>Leases\<close> follows one lease through any requests. \<open>Progress\<close> is the calculus
  again for a database without failures, where it gives success. \<open>Atomicity\<close> has others commit
  between the calls of an operation and shows that its own writes still happen at one point or not at
  all; \<open>Rollback\<close> takes from it that, when every COMMIT is acknowledged, an error has changed nothing,
  and \<open>Counting\<close> shows that each request moves the counters with the history.
  \<open>DriverText\<close> compares two runs that differ in the texts of the driver's errors alone: no reply and no
  table tells them apart. \<open>Replay\<close> holds the laws
  of replay (what a longer history changes, what a replay issues), and \<open>Direct\<close> its reference: the
  workflow function run straight through, once, without a history. \<open>Outcomes\<close> joins it with the
  cluster.

  \<^bold>\<open>What is shown.\<close> The main result is in \<open>ClusterProperties\<close>: whatever crashes, fails, expires or is
  answered late or twice, as long as no timer scan finds two due timers of one run, a run that has ended has ended as its workflow function does when it runs
  straight through in the world its history records, and no scheduled activity or started timer is
  lost. \<open>HistoryProperties\<close>, \<open>ActivityProperties\<close> and \<open>TaskProperties\<close> state the behaviour of the
  engine's operations, \<open>FrontendProperties\<close> that of the handlers, \<open>SdkProperties\<close> and
  \<open>WorkerProperties\<close> that of the SDK, \<open>InvariantProperties\<close> and \<open>SystemProperties\<close> the invariants of
  the reachable states and the round trip between worker and engine, \<open>RefinementProperties\<close> the
  abstract engine, \<open>LivenessProperties\<close> leases, success and the draining of timers.
  \<open>DeliveryProperties\<close> puts worker and engine together: what one turn of each of the worker's loops
  leaves in the history; \<open>LoopProperties\<close> does so for whole runs of a worker and for the counters,
  \<open>BootProperties\<close> for the life of a process, and \<open>ExampleProperties\<close> for the example programs, from a
  posted order to the shipment. \<open>Samples\<close> is a concrete environment and runs of the engine on it, on
  which hypotheses are discharged. \<open>Anomalies\<close> holds executions that show where the code does not do
  what it means to, two of them with overlapping transactions, which the other theories, \<open>Atomicity\<close>
  apart, exclude by \<open>serial\<close>.

  \<^bold>\<open>Parameters\<close> (code outside the repository): PostgreSQL's faults, locks and clocks, the UUID
  reader of its driver, \<open>encoding/json\<close>, \<open>rand.Float64\<close>, \<open>uuid.New\<close> and the libraries of the start-up. They are fields of the
  environment or arguments, and what is assumed of them is named: \<open>uuid_ok\<close> (reading a UUID
  twice changes nothing), \<open>serial\<close> (no other transaction commits during the operation),
  \<open>fault_free\<close> and \<open>no_locks\<close> (only for the theorems that promise success). \<open>acknowledged\<close> (no
  reply to a COMMIT is lost; only where an error is to mean that nothing happened) and \<open>migrates\<close>
  (what the migrate library makes of a database that has, or does not have, the schema).

  \<^bold>\<open>Loops.\<close> No fuel is used: every loop that ends is structural recursion over a list that the code
  ranges over. An endless loop is a function of the list of its iterations, which ends when its context is
  done or the process does; a theorem about it holds for every such list, and the one about the draining of timers says
  how many iterations are enough.

  \<^bold>\<open>Not modelled.\<close> What is only logged or printed; cancellation of contexts; \<open>Close\<close> of the SDK's client
  and the clean-up of a test, which only release what libraries hold; the generated code of \<open>proto\<close>,
  except its messages and the interface of its client; the tests themselves; a workflow function that
  itself calls \<open>Commands\<close> or \<open>HasPendingActivities\<close> of its context, or recovers the panic by which the
  SDK suspends it (the tree of SDK calls has no such node). In the reachable states
  two transactions do not overlap except through row locks: the invariants do not hold when they do
  (\<open>Anomalies\<close>), and what remains true then is in \<open>Atomicity\<close>.
\<close>

end
